(* ===== verification/Trustee_Prelude.thy ===== *)
theory Trustee_Prelude
  imports Main "HOL-Library.Word" "HOL-Library.List_Lexorder" "HOL-Library.Char_ord"
begin

unbundle bit_operations_syntax

text \<open>
  What every theory of the development shares: the widths of the machine integers, the
  Rust results (\<open>Result\<close> as a sum, its \<open>?\<close> operator as \<open>and_then\<close>), the two's complement
  arithmetic of \<open>i64\<close>, the string operations of Rust's standard library the sources call,
  the interface of an enumeration with stored names, and the collections of lemmas the
  component proofs are made of.
\<close>

section \<open>Machine integers and bytes\<close>

type_synonym u8 = "8 word"
type_synonym u16 = "16 word"
type_synonym u32 = "32 word"
type_synonym u64 = "64 word"
type_synonym i64 = int
type_synonym bytes = "8 word list"

text \<open>
  A Rust \<open>String\<close> is a list of UTF-8 bytes, and so is a HOL \<open>string\<close>, whose characters
  are bytes: lengths count bytes, and the order of strings is the order of their bytes.
\<close>

definition as_bytes :: "string \<Rightarrow> bytes" where
  "as_bytes s = map of_char s"

text \<open>
  An \<open>i64\<close> is an \<open>int\<close> of its range. The release profile leaves Rust's overflow checks
  off, so a sum or a difference wraps around in two's complement.
\<close>

definition in_i64 :: "int \<Rightarrow> bool" where
  "in_i64 x \<longleftrightarrow> - (2 ^ 63) \<le> x \<and> x < 2 ^ 63"

definition wrap_i64 :: "int \<Rightarrow> i64" where
  "wrap_i64 x = (x + 2 ^ 63) mod 2 ^ 64 - 2 ^ 63"

definition i64_add :: "i64 \<Rightarrow> i64 \<Rightarrow> i64" where
  "i64_add a b = wrap_i64 (a + b)"

definition i64_sub :: "i64 \<Rightarrow> i64 \<Rightarrow> i64" where
  "i64_sub a b = wrap_i64 (a - b)"

definition i64_mul :: "i64 \<Rightarrow> i64 \<Rightarrow> i64" where
  "i64_mul a b = wrap_i64 (a * b)"

definition i64_abs :: "i64 \<Rightarrow> i64" where
  "i64_abs a = wrap_i64 \<bar>a\<bar>"

lemma wrap_i64_in_range [simp]: "in_i64 (wrap_i64 x)"
  by (simp add: wrap_i64_def in_i64_def)

lemma wrap_i64_id: "in_i64 x \<Longrightarrow> wrap_i64 x = x"
  by (simp add: wrap_i64_def in_i64_def)

lemma i64_add_exact: "in_i64 (a + b) \<Longrightarrow> i64_add a b = a + b"
  by (simp add: i64_add_def wrap_i64_id)

lemma i64_sub_exact: "in_i64 (a - b) \<Longrightarrow> i64_sub a b = a - b"
  by (simp add: i64_sub_def wrap_i64_id)

lemma i64_mul_exact: "in_i64 (a * b) \<Longrightarrow> i64_mul a b = a * b"
  by (simp add: i64_mul_def wrap_i64_id)

lemma i64_abs_exact: "in_i64 \<bar>a\<bar> \<Longrightarrow> i64_abs a = \<bar>a\<bar>"
  by (simp add: i64_abs_def wrap_i64_id)

lemma i64_add_in_range [simp]: "in_i64 (i64_add a b)"
  by (simp add: i64_add_def)

lemma i64_sub_in_range [simp]: "in_i64 (i64_sub a b)"
  by (simp add: i64_sub_def)

lemmas i64_exact = i64_add_exact i64_sub_exact i64_mul_exact i64_abs_exact

text \<open>Words by their bits: a bound is a bound on the positions of the set bits.\<close>

lemma word_below_bit:
  "(x :: 'a::len word) < 2 ^ m \<Longrightarrow> m < LENGTH('a) \<Longrightarrow> bit x n \<Longrightarrow> n < m"
  using less_mask_eq [of x m] bit_and_iff [of x "mask m" n] by (auto simp: bit_mask_iff)

lemmas word_bits = bit_or_iff bit_and_iff bit_xor_iff bit_unsigned_iff bit_push_bit_iff
  bit_drop_bit_eq bit_mask_iff possible_bit_word

lemma word_below_bits:
  assumes "m < LENGTH('a)" "\<And>n. bit (x :: 'a::len word) n \<Longrightarrow> n < m"
  shows "x < 2 ^ m"
proof -
  have "x = x AND mask m"
    by (rule bit_eqI) (use assms(2) in \<open>auto simp: word_bits\<close>)
  then show ?thesis
    using and_mask_less' [of m x] assms(1) by simp
qed

lemma word_xor_eq_0: "(a XOR b :: 'a::len word) = 0 \<longleftrightarrow> a = b"
  by (auto simp: bit_eq_iff bit_xor_iff)

lemma word_xor_eq_self: "(a XOR b :: 'a::len word) = a \<longleftrightarrow> b = 0"
  by (auto simp: bit_eq_iff bit_xor_iff)

lemma word_xor_cancel: "(a :: 'a::len word) XOR (a XOR b) = b"
  by (simp add: xor.assoc [symmetric])

lemma inc_no_wrap:
  assumes "(a :: 'a::len word) < b"
  shows "a \<le> a + 1" "unat (a + 1) = Suc (unat a)"
proof -
  have "unat a + 1 < 2 ^ LENGTH('a)"
    using assms [unfolded word_less_nat_alt] unsigned_less [where ?'a = nat, of b] by linarith
  then show "unat (a + 1) = Suc (unat a)"
    by (simp add: unat_word_ariths)
  then show "a \<le> a + 1"
    by (simp add: word_le_nat_alt)
qed

section \<open>Results\<close>

text \<open>
  \<open>Result<T, E>\<close> is \<open>E + T\<close>, the error on the left. \<open>and_then\<close> is the \<open>?\<close> operator,
  \<open>ok_or\<close> and \<open>map_err\<close> are the methods of the same names, and \<open>ensure\<close> is the early
  return \<open>if !condition { return Err(code) }\<close>.
\<close>

fun and_then :: "'e + 'a \<Rightarrow> ('a \<Rightarrow> 'e + 'b) \<Rightarrow> 'e + 'b" where
  "and_then (Inl e) f = Inl e"
| "and_then (Inr x) f = f x"

fun ok_or :: "'e \<Rightarrow> 'a option \<Rightarrow> 'e + 'a" where
  "ok_or e None = Inl e"
| "ok_or e (Some x) = Inr x"

fun map_err :: "('e \<Rightarrow> 'f) \<Rightarrow> 'e + 'a \<Rightarrow> 'f + 'a" where
  "map_err g (Inl e) = Inl (g e)"
| "map_err g (Inr x) = Inr x"

definition ensure :: "bool \<Rightarrow> 'e \<Rightarrow> 'e + unit" where
  "ensure b e = (if b then Inr () else Inl e)"

fun is_ok :: "'e + 'a \<Rightarrow> bool" where
  "is_ok (Inl e) = False"
| "is_ok (Inr x) = True"

named_theorems result_iff \<open>when a chain of fallible steps gives a value or an error\<close>

lemma and_then_Inr [result_iff]:
  "and_then r f = Inr y \<longleftrightarrow> (\<exists>x. r = Inr x \<and> f x = Inr y)"
  by (cases r) auto

lemma and_then_Inl [result_iff]:
  "and_then r f = Inl e \<longleftrightarrow> r = Inl e \<or> (\<exists>x. r = Inr x \<and> f x = Inl e)"
  by (cases r) auto

lemma ok_or_Inr [result_iff]: "ok_or e r = Inr y \<longleftrightarrow> r = Some y"
  by (cases r) auto

lemma ok_or_Inl [result_iff]: "ok_or e r = Inl d \<longleftrightarrow> r = None \<and> d = e"
  by (cases r) auto

lemma map_err_Inr [result_iff]: "map_err g r = Inr y \<longleftrightarrow> r = Inr y"
  by (cases r) auto

lemma map_err_Inl [result_iff]: "map_err g r = Inl d \<longleftrightarrow> (\<exists>e. r = Inl e \<and> d = g e)"
  by (cases r) auto

lemma ensure_Inr [result_iff]: "ensure b e = Inr u \<longleftrightarrow> b"
  by (cases u) (simp add: ensure_def)

lemma ensure_Inl [result_iff]: "ensure b e = Inl d \<longleftrightarrow> \<not> b \<and> d = e"
  by (auto simp: ensure_def)

lemma ensure_True [simp]: "ensure True e = Inr ()"
  by (simp add: ensure_def)

lemma ensure_False [simp]: "ensure False e = Inl e"
  by (simp add: ensure_def)

lemma and_then_ensure: "and_then (ensure b e) f = (if b then f () else Inl e)"
  by (simp add: ensure_def)

lemma is_ok_iff: "is_ok r \<longleftrightarrow> (\<exists>x. r = Inr x)"
  by (cases r) auto

section \<open>Strings\<close>

text \<open>\<open>str::strip_prefix\<close>, \<open>str::split_once\<close> and \<open>str::split\<close> on one byte.\<close>

fun strip_prefix :: "string \<Rightarrow> string \<Rightarrow> string option" where
  "strip_prefix [] s = Some s"
| "strip_prefix (p # ps) [] = None"
| "strip_prefix (p # ps) (c # cs) = (if p = c then strip_prefix ps cs else None)"

fun split_once :: "char \<Rightarrow> string \<Rightarrow> (string \<times> string) option" where
  "split_once d [] = None"
| "split_once d (c # cs) =
     (if c = d then Some ([], cs)
      else map_option (\<lambda>(a, b). (c # a, b)) (split_once d cs))"

fun split_on :: "char \<Rightarrow> string \<Rightarrow> string list" where
  "split_on d [] = [[]]"
| "split_on d (c # cs) =
     (if c = d then [] # split_on d cs
      else (case split_on d cs of
              [] \<Rightarrow> [[c]]
            | w # ws \<Rightarrow> (c # w) # ws))"

definition byte_in :: "char \<Rightarrow> char \<Rightarrow> char \<Rightarrow> bool" where
  "byte_in lo hi c \<longleftrightarrow> lo \<le> c \<and> c \<le> hi"

lemma strip_prefix_Some [simp]: "strip_prefix p s = Some r \<longleftrightarrow> s = p @ r"
  by (induction p s rule: strip_prefix.induct) auto

lemma strip_prefix_None: "strip_prefix p s = None \<longleftrightarrow> (\<nexists>r. s = p @ r)"
  by (induction p s rule: strip_prefix.induct) auto

lemma split_once_Some:
  "split_once d s = Some (a, b) \<longleftrightarrow> s = a @ d # b \<and> d \<notin> set a"
proof (induction s arbitrary: a)
  case (Cons c cs)
  then show ?case by (cases a) auto
qed auto

lemma split_once_None: "split_once d s = None \<longleftrightarrow> d \<notin> set s"
  by (induction s) auto

lemma split_on_not_Nil [simp]: "split_on d s \<noteq> []"
  by (cases s) (auto split: list.splits)

lemma split_on_word: "d \<notin> set w \<Longrightarrow> split_on d w = [w]"
  by (induction w) auto

lemma split_on_append: "d \<notin> set w \<Longrightarrow> split_on d (w @ d # s) = w # split_on d s"
  by (induction w) auto

section \<open>Enumerations with stored names\<close>

text \<open>
  An enumeration the database stores by name: its values, their names, and a lookup that
  searches the values. The interface asks that the values are complete and the names
  distinct; then a name read back is the value written, and nothing else reads as one.
\<close>

definition from_name_in :: "'a list \<Rightarrow> ('a \<Rightarrow> string) \<Rightarrow> string \<Rightarrow> 'a option" where
  "from_name_in vals name n = find (\<lambda>v. name v = n) vals"

locale named_enum =
  fixes vals :: "'a list" and name :: "'a \<Rightarrow> string"
  assumes complete: "v \<in> set vals"
    and distinct_names: "distinct (map name vals)"
begin

lemma name_injective: "name v = name w \<longleftrightarrow> v = w"
  using complete [of v] complete [of w] distinct_names by (auto simp: distinct_map inj_on_def)

lemma from_name_iff: "from_name_in vals name n = Some v \<longleftrightarrow> name v = n"
proof
  assume n: "name v = n"
  then obtain w where w: "from_name_in vals name n = Some w"
    using complete [of v] by (cases "from_name_in vals name n") (auto simp: from_name_in_def find_None_iff)
  then have "name w = n"
    by (auto simp: from_name_in_def find_Some_iff)
  with n w show "from_name_in vals name n = Some v"
    by (simp add: name_injective flip: n)
qed (auto simp: from_name_in_def find_Some_iff)

lemma from_name_of_name: "from_name_in vals name (name v) = Some v"
  by (simp add: from_name_iff)

end

end
