(* ===== verification/Slip39.thy ===== *)
theory Slip39
  imports Slip39_Wordlist
begin

unbundle bit_operations_syntax

text \<open>
  \<open>src/slip39.rs\<close>: the validation of one SLIP-0039 share. The definitions follow the source
  order: the errors and fields, \<open>validate\<close>, \<open>decode\<close> with its loop over the words, and the
  RS1024 checksum. Indices are \<open>u16\<close>, the packed fields and the checksum \<open>u32\<close>, as in the
  code.
\<close>

section \<open>Data\<close>

definition WORD_COUNT :: nat where
  "WORD_COUNT = 33"

definition MAX_MNEMONIC_BYTES :: nat where
  "MAX_MNEMONIC_BYTES = WORD_COUNT * 8 + (WORD_COUNT - 1)"

datatype share_error = Malformed | Unsupported

record fields =
  share_identifier :: u16
  extendable :: bool
  iteration_exponent :: u8
  group_index :: u8
  group_threshold :: u8
  group_count :: u8
  f_member_index :: u8
  f_member_threshold :: u8

record share =
  sh_member_index :: u8
  sh_member_threshold :: u8

section \<open>The checksum\<close>

definition GENERATOR :: "u32 list" where
  "GENERATOR = [0xE0E040, 0x1C1C080, 0x3838100, 0x7070200, 0xE0E0009, 0x1C0C2412, 0x38086C24,
     0x3090FC48, 0x21B1F890, 0x3F3F120]"

text \<open>The inner loop: one conditional \<open>^=\<close> for each bit of \<open>top\<close> and its generator.\<close>

fun rs1024_feedback :: "u32 \<Rightarrow> nat \<Rightarrow> u32 list \<Rightarrow> u32 \<Rightarrow> u32" where
  "rs1024_feedback top_bits i [] checksum = checksum"
| "rs1024_feedback top_bits i (g # gs) checksum =
     rs1024_feedback top_bits (Suc i) gs
       (if drop_bit i top_bits AND 1 = 1 then checksum XOR g else checksum)"

definition rs1024_step :: "u32 \<Rightarrow> u32 \<Rightarrow> u32" where
  "rs1024_step checksum v =
     (let top_bits = drop_bit 20 checksum
      in rs1024_feedback top_bits 0 GENERATOR (push_bit 10 (checksum AND 0xFFFFF) XOR v))"

definition rs1024_polymod :: "bytes \<Rightarrow> u16 list \<Rightarrow> u32" where
  "rs1024_polymod customization indices =
     foldl rs1024_step 1 (map ucast customization @ map ucast indices)"

section \<open>Words\<close>

text \<open>
  \<open>slice::binary_search\<close> on a sorted list: the position of the word, or nothing (the
  source discards where it would be inserted). \<open>lo\<close> and \<open>hi\<close> bound the part left to
  search.
\<close>

function bsearch :: "'a::linorder list \<Rightarrow> 'a \<Rightarrow> nat \<Rightarrow> nat \<Rightarrow> nat option" where
  "bsearch xs w lo hi =
     (if hi \<le> lo then None
      else
        (let mid = lo + (hi - lo) div 2
         in if xs ! mid = w then Some mid
            else if xs ! mid < w then bsearch xs w (Suc mid) hi
            else bsearch xs w lo mid))"
  by pat_completeness auto
termination
  by (relation "measure (\<lambda>(xs, w, lo, hi). hi - lo)") auto

declare bsearch.simps [simp del]

definition binary_search :: "'a::linorder list \<Rightarrow> 'a \<Rightarrow> nat option" where
  "binary_search xs w = bsearch xs w 0 (length xs)"

text \<open>
  The loop of \<open>decode\<close>: one list word per index, then what is left of the words. \<open>None\<close> is
  its early return.
\<close>

fun take_indices :: "nat \<Rightarrow> string list \<Rightarrow> (u16 list \<times> string list) option" where
  "take_indices 0 ws = Some ([], ws)"
| "take_indices (Suc n) [] = None"
| "take_indices (Suc n) (w # ws) =
     (case binary_search WORDLIST w of
        None \<Rightarrow> None
      | Some position \<Rightarrow>
          map_option (\<lambda>(indices, rest). (word_of_nat position # indices, rest))
            (take_indices n ws))"

section \<open>Decoding and validation\<close>

definition customization_of :: "bool \<Rightarrow> bytes" where
  "customization_of ext = as_bytes (if ext then ''shamir_extendable'' else ''shamir'')"

definition fields_of_indices :: "u16 list \<Rightarrow> share_error + fields" where
  "fields_of_indices indices =
     (let id_exp = push_bit 10 (ucast (indices ! 0)) OR ucast (indices ! 1) :: u32;
          ext = (drop_bit 4 id_exp AND 1 = 1)
      in if rs1024_polymod (customization_of ext) indices \<noteq> 1 then Inl Malformed
         else if drop_bit 6 (indices ! 4) \<noteq> 0 then Inl Malformed
         else
           (let params = push_bit 10 (ucast (indices ! 2)) OR ucast (indices ! 3) :: u32;
                nibble = (\<lambda>shift. ucast (drop_bit shift params AND 0xF) :: u8)
            in Inr \<lparr>share_identifier = ucast (drop_bit 5 id_exp),
                    extendable = ext,
                    iteration_exponent = ucast (id_exp AND 0xF),
                    group_index = nibble 16,
                    group_threshold = nibble 12 + 1,
                    group_count = nibble 8 + 1,
                    f_member_index = nibble 4,
                    f_member_threshold = nibble 0 + 1\<rparr>))"

definition decode :: "string \<Rightarrow> share_error + fields" where
  "decode mnemonic =
     (if MAX_MNEMONIC_BYTES < length mnemonic then Inl Malformed
      else
        (case take_indices WORD_COUNT (split_on CHR '' '' mnemonic) of
           None \<Rightarrow> Inl Malformed
         | Some (indices, rest) \<Rightarrow>
             if rest \<noteq> [] then Inl Malformed else fields_of_indices indices))"

definition in_profile :: "fields \<Rightarrow> bool" where
  "in_profile f \<longleftrightarrow>
     \<not> extendable f
     \<and> iteration_exponent f = 0
     \<and> group_index f = 0
     \<and> group_threshold f = 1
     \<and> group_count f = 1
     \<and> 2 \<le> f_member_threshold f"

definition validate :: "string \<Rightarrow> share_error + share" where
  "validate mnemonic =
     and_then (decode mnemonic) (\<lambda>f.
       if \<not> in_profile f then Inl Unsupported
       else Inr \<lparr>sh_member_index = f_member_index f,
                 sh_member_threshold = f_member_threshold f\<rparr>)"

section \<open>Binary search finds exactly the words of the list\<close>

lemma bsearch_sound: "bsearch xs w lo hi = Some i \<Longrightarrow> lo \<le> i \<and> i < hi \<and> xs ! i = w"
proof (induction xs w lo hi rule: bsearch.induct)
  case (1 xs w lo hi)
  then show ?case
    by (subst (asm) (3) bsearch.simps) (force simp: Let_def split: if_splits)
qed

lemma bsearch_complete:
  assumes "sorted_wrt (<) xs" "hi \<le> length xs" "lo \<le> i" "i < hi"
  shows "bsearch xs (xs ! i) lo hi \<noteq> None"
  using assms
proof (induction xs "xs ! i" lo hi rule: bsearch.induct)
  case (1 xs lo hi)
  let ?mid = "lo + (hi - lo) div 2"
  have mid: "lo \<le> ?mid" "?mid < hi" using "1.prems" by auto
  consider "?mid = i" | "?mid < i" | "i < ?mid" by linarith
  then show ?case
  proof cases
    case 1
    with mid show ?thesis by (subst bsearch.simps) (auto simp: Let_def)
  next
    case 2
    then have less: "xs ! ?mid < xs ! i"
      using sorted_wrt_nth_less [of "(<)" xs ?mid i] "1.prems" by simp
    then have "bsearch xs (xs ! i) (Suc ?mid) hi \<noteq> None"
      using 2 mid "1.prems" "1.hyps"(1) by auto
    with less mid show ?thesis by (subst bsearch.simps) (auto simp: Let_def)
  next
    case 3
    then have less: "xs ! i < xs ! ?mid"
      using sorted_wrt_nth_less [of "(<)" xs i ?mid] mid "1.prems" by simp
    then have "bsearch xs (xs ! i) lo ?mid \<noteq> None"
      using 3 mid "1.prems" "1.hyps"(2) by auto
    with less mid show ?thesis by (subst bsearch.simps) (auto simp: Let_def)
  qed
qed

lemma sorted_wrt_less_distinct: "sorted_wrt (<) (xs :: 'a::order list) \<Longrightarrow> distinct xs"
  by (induction xs) auto

lemma binary_search_iff:
  assumes "sorted_wrt (<) xs"
  shows "binary_search xs w = Some i \<longleftrightarrow> i < length xs \<and> xs ! i = w"
proof
  show "i < length xs \<and> xs ! i = w" if "binary_search xs w = Some i"
    using that bsearch_sound [of xs w 0 "length xs" i] by (simp add: binary_search_def)
  show "binary_search xs w = Some i" if i: "i < length xs \<and> xs ! i = w"
  proof -
    obtain j where j: "bsearch xs w 0 (length xs) = Some j"
      using bsearch_complete [OF assms, of "length xs" 0 i] i by auto
    then have "xs ! j = w" "j < length xs"
      using bsearch_sound by blast+
    with i j sorted_wrt_less_distinct [OF assms] show ?thesis
      by (simp add: binary_search_def nth_eq_iff_index_eq [symmetric])
  qed
qed

lemmas word_position = binary_search_iff [OF WORDLIST_sorted, unfolded WORDLIST_length]

section \<open>Canonical mnemonics\<close>

definition word_at :: "u16 \<Rightarrow> string" where
  "word_at i = WORDLIST ! unat i"

fun join_words :: "string list \<Rightarrow> string" where
  "join_words [] = []"
| "join_words [w] = w"
| "join_words (w # ws) = w @ CHR '' '' # join_words ws"

definition mnemonic_of :: "u16 list \<Rightarrow> string" where
  "mnemonic_of indices = join_words (map word_at indices)"

definition list_indices :: "u16 list \<Rightarrow> bool" where
  "list_indices = list_all (\<lambda>i. unat i < 1024)"

lemma list_indices_simps [simp]:
  "list_indices []"
  "list_indices (i # is) \<longleftrightarrow> unat i < 1024 \<and> list_indices is"
  by (simp_all add: list_indices_def)

lemma word_at_position:
  "binary_search WORDLIST w = Some n \<longleftrightarrow> n < 1024 \<and> word_at (word_of_nat n) = w"
  by (auto simp: word_position word_at_def unat_of_nat)

lemma search_word_at: "unat i < 1024 \<Longrightarrow> binary_search WORDLIST (word_at i) = Some (unat i)"
  by (simp add: word_at_position)

lemma take_indices_iff:
  "take_indices n ws = Some (is, rest)
     \<longleftrightarrow> length is = n \<and> list_indices is \<and> ws = map word_at is @ rest"
proof (induction n ws arbitrary: "is" rule: take_indices.induct)
  case (3 n w ws)
  show ?case
  proof
    assume "take_indices (Suc n) (w # ws) = Some (is, rest)"
    then obtain p js where "binary_search WORDLIST w = Some p"
      and "take_indices n ws = Some (js, rest)" "is = word_of_nat p # js"
      by (auto split: option.splits)
    then show "length is = Suc n \<and> list_indices is \<and> w # ws = map word_at is @ rest"
      using "3.IH" by (auto simp: word_at_position unat_of_nat)
  next
    assume *: "length is = Suc n \<and> list_indices is \<and> w # ws = map word_at is @ rest"
    then obtain i js where "is = i # js" by (cases "is") auto
    with * "3.IH" show "take_indices (Suc n) (w # ws) = Some (is, rest)"
      by (auto simp: search_word_at)
  qed
qed auto

lemma word_at_no_space: "unat i < 1024 \<Longrightarrow> CHR '' '' \<notin> set (word_at i)"
  using WORDLIST_no_space by (auto simp: word_at_def list_all_length WORDLIST_length in_set_conv_nth)

lemma word_at_length: "unat i < 1024 \<Longrightarrow> length (word_at i) \<le> 8"
  using WORDLIST_at_most_8 by (auto simp: word_at_def list_all_length WORDLIST_length)

lemma split_join: "ws \<noteq> [] \<Longrightarrow> \<forall>w\<in>set ws. d \<notin> set w \<Longrightarrow> d = CHR '' '' \<Longrightarrow> split_on d (join_words ws) = ws"
  by (induction ws rule: join_words.induct) (simp_all add: split_on_word split_on_append)

lemma join_split: "join_words (split_on CHR '' '' s) = s"
proof (induction s)
  case (Cons c s)
  then show ?case
    by (cases "split_on CHR '' '' s" rule: join_words.cases) auto
qed simp

lemma mnemonic_split:
  "list_indices is \<Longrightarrow> is \<noteq> [] \<Longrightarrow> split_on CHR '' '' (mnemonic_of is) = map word_at is"
  unfolding mnemonic_of_def
  by (rule split_join) (auto simp: list_indices_def list_all_iff word_at_no_space)

lemma mnemonic_length:
  "list_indices is \<Longrightarrow> is \<noteq> [] \<Longrightarrow> length (mnemonic_of is) \<le> length is * 8 + (length is - 1)"
proof (induction "is" rule: induct_list012)
  case (3 i j js)
  then show ?case
    using word_at_length [of i] by (simp add: mnemonic_of_def)
qed (auto simp: mnemonic_of_def dest: word_at_length)

lemma decode_iff:
  "decode m = Inr f \<longleftrightarrow>
     (\<exists>is. length is = 33 \<and> list_indices is \<and> m = mnemonic_of is \<and> fields_of_indices is = Inr f)"
proof
  assume "decode m = Inr f"
  then obtain "is" where "take_indices 33 (split_on CHR '' '' m) = Some (is, [])"
    and f: "fields_of_indices is = Inr f"
    by (auto simp: decode_def WORD_COUNT_def split: if_splits option.splits)
  then have "length is = 33" "list_indices is" "split_on CHR '' '' m = map word_at is"
    by (auto simp: take_indices_iff)
  moreover from this(3) have "m = mnemonic_of is"
    by (metis join_split mnemonic_of_def)
  ultimately show "\<exists>is. length is = 33 \<and> list_indices is \<and> m = mnemonic_of is \<and> fields_of_indices is = Inr f"
    using f by auto
next
  assume "\<exists>is. length is = 33 \<and> list_indices is \<and> m = mnemonic_of is \<and> fields_of_indices is = Inr f"
  then obtain "is" where *: "length is = 33" "list_indices is" "m = mnemonic_of is" "fields_of_indices is = Inr f"
    by auto
  then have "is \<noteq> []" by auto
  with * have "split_on CHR '' '' m = map word_at is" "length m \<le> 296"
    using mnemonic_split mnemonic_length [of "is"] by auto
  then show "decode m = Inr f"
    using * take_indices_iff [of 33 "map word_at is" "is" "[]"]
    by (simp add: decode_def MAX_MNEMONIC_BYTES_def WORD_COUNT_def)
qed

lemma mnemonic_inj:
  "list_indices is \<Longrightarrow> list_indices js \<Longrightarrow> length is = length js \<Longrightarrow> mnemonic_of is = mnemonic_of js \<Longrightarrow> is = js"
proof (cases "is = []")
  case False
  assume *: "list_indices is" "list_indices js" "length is = length js" "mnemonic_of is = mnemonic_of js"
  then have "map word_at is = map word_at js"
    using False mnemonic_split by (metis length_0_conv)
  then show ?thesis
    using * take_indices_iff [of "length is" "map word_at is" "is" "[]"]
      take_indices_iff [of "length js" "map word_at js" "js" "[]"] by simp
qed auto

end
