(* ===== verification/Slip39_Checksum.thy ===== *)
theory Slip39_Checksum
  imports Slip39
begin

unbundle bit_operations_syntax

text \<open>
  What the RS1024 checksum of \<open>src/slip39.rs\<close> guarantees: it is linear over exclusive or, no
  difference in one word is lost on the way, every data part has the three checksum words
  of the specification, and a decoded share with any one word exchanged for another is
  malformed.
\<close>

section \<open>The checksum is linear\<close>

definition rs1024_linear :: "u32 \<Rightarrow> u32" where
  "rs1024_linear d = rs1024_step d 0"

lemma low_bit_iff: "drop_bit i (t :: u32) AND 1 = 1 \<longleftrightarrow> bit t i"
  by (simp add: and_one_eq mod_2_eq_odd bit_iff_odd_drop_bit)

lemma feedback_Nil [simp]: "rs1024_feedback t i [] c = c"
  by simp

lemma feedback_Cons:
  "rs1024_feedback t i (g # gs) c = rs1024_feedback t (Suc i) gs (if bit t i then c XOR g else c)"
  by (simp only: rs1024_feedback.simps low_bit_iff)

declare rs1024_feedback.simps [simp del]

lemma feedback_xor:
  "rs1024_feedback (s XOR t) i gs (a XOR b) = rs1024_feedback s i gs a XOR rs1024_feedback t i gs b"
proof (induction gs arbitrary: i a b)
  case (Cons g gs)
  have "(if bit (s XOR t) i then (a XOR b) XOR g else a XOR b)
      = (if bit s i then a XOR g else a) XOR (if bit t i then b XOR g else b)"
    by (auto simp: bit_xor_iff xor.assoc xor.left_commute xor.commute)
  then show ?case
    by (simp only: feedback_Cons Cons.IH [symmetric])
qed simp

lemma rs1024_step_xor: "rs1024_step (c XOR d) (v XOR w) = rs1024_step c v XOR rs1024_step d w"
proof -
  have "push_bit 10 ((c XOR d) AND 0xFFFFF) XOR (v XOR w)
      = (push_bit 10 (c AND 0xFFFFF) XOR v) XOR (push_bit 10 (d AND 0xFFFFF) XOR w)"
    by (simp add: push_bit_xor bit.conj_xor_distrib2 ac_simps)
  then show ?thesis
    by (simp add: rs1024_step_def Let_def drop_bit_xor feedback_xor)
qed


lemma rs1024_step_value: "rs1024_step c v = rs1024_step c 0 XOR v"
  using rs1024_step_xor [of c 0 0 v] by (simp add: rs1024_step_def [of 0 v] GENERATOR_def feedback_Cons)

lemma rs1024_step_difference: "rs1024_step (c XOR d) v = rs1024_step c v XOR rs1024_linear d"
  using rs1024_step_xor [of c d v 0] by (simp add: rs1024_linear_def)

lemma feedback_zero: "rs1024_feedback 0 i gs c = c"
  by (induction gs arbitrary: i) (simp_all add: feedback_Cons)

lemma rs1024_linear_low:
  assumes "drop_bit 20 d = 0"
  shows "rs1024_linear d = push_bit 10 d"
proof -
  have "d AND 0xFFFFF = take_bit 20 d"
    by (simp add: take_bit_eq_mask mask_eq_exp_minus_1)
  also have "\<dots> = d"
    using assms by (simp add: take_bit_eq_self_iff_drop_bit_eq_0)
  finally show ?thesis
    using assms by (simp add: rs1024_linear_def rs1024_step_def feedback_zero)
qed

text \<open>One bit of the feedback is a parity of bits of \<open>top\<close>.\<close>

primrec feedback_parity :: "u32 \<Rightarrow> nat \<Rightarrow> u32 list \<Rightarrow> nat \<Rightarrow> bool" where
  "feedback_parity t i [] n \<longleftrightarrow> False"
| "feedback_parity t i (g # gs) n \<longleftrightarrow> (bit t i \<and> bit g n) \<noteq> feedback_parity t (Suc i) gs n"

lemma feedback_bit: "bit (rs1024_feedback t i gs c) n \<longleftrightarrow> bit c n \<noteq> feedback_parity t i gs n"
  by (induction gs arbitrary: i c) (auto simp: feedback_Cons bit_xor_iff)

lemma rs1024_linear_bit:
  "n < 10 \<Longrightarrow> bit (rs1024_linear d) n \<longleftrightarrow> feedback_parity (drop_bit 20 d) 0 GENERATOR n"
  by (simp add: rs1024_linear_def rs1024_step_def feedback_bit bit_push_bit_iff del: push_bit_and)

lemma rs1024_linear_zero:
  assumes "d < 2 ^ 30" "rs1024_linear d = 0"
  shows "d = 0"
proof -
  have parity: "\<not> feedback_parity (drop_bit 20 d) 0 GENERATOR n" if "n < 10" for n
    using rs1024_linear_bit [OF that, of d] assms(2) by simp
  have low: "\<not> bit (drop_bit 20 d) n" if "n < 10" for n
    using that parity [of 0] parity [of 1] parity [of 2] parity [of 3] parity [of 4]
      parity [of 5] parity [of 6] parity [of 7] parity [of 8] parity [of 9]
    by (auto simp: GENERATOR_def less_Suc_eq eval_nat_numeral)
  have high: "\<not> bit (drop_bit 20 d) n" if "10 \<le> n" for n
    using word_below_bit [OF assms(1), of "20 + n"] that by (auto simp: bit_drop_bit_eq)
  have top0: "drop_bit 20 d = 0"
    by (rule bit_eqI) (metis low high not_less bit_0_eq bot_apply bot_bool_def)
  then have "push_bit 10 d = 0"
    using rs1024_linear_low assms(2) by simp
  then have "\<not> bit d n" if "n < 20" for n
    using that bit_push_bit_iff [of 10 d "10 + n"] by (simp add: possible_bit_word)
  moreover have "\<not> bit d n" if "20 \<le> n" for n
    using top0 that bit_drop_bit_eq [of 20 d] by (auto simp: fun_eq_iff le_iff_add)
  ultimately have "\<not> bit d n" for n
    by (cases "n < 20") auto
  then show "d = 0"
    by (simp add: bit_eq_iff)
qed


section \<open>Differences survive\<close>

lemma rs1024_linear_bits:
  "bit (rs1024_linear d) n \<longleftrightarrow>
     (bit (push_bit 10 (d AND mask 20)) n \<noteq> feedback_parity (drop_bit 20 d) 0 GENERATOR n)"
  by (simp add: rs1024_linear_def rs1024_step_def feedback_bit mask_eq_exp_minus_1
      del: push_bit_and)

lemma GENERATOR_bits: "g \<in> set GENERATOR \<Longrightarrow> bit g n \<Longrightarrow> n < 30"
  by (rule word_below_bit [of g]) (auto simp: GENERATOR_def)

lemma feedback_parity_bits: "feedback_parity t i gs n \<Longrightarrow> \<exists>g\<in>set gs. bit g n"
  by (induction gs arbitrary: i) auto

lemma rs1024_linear_below: "rs1024_linear d < 2 ^ 30"
proof (rule word_below_bits)
  fix n assume "bit (rs1024_linear d) n"
  then consider "bit (push_bit 10 (d AND mask 20)) n" | "feedback_parity (drop_bit 20 d) 0 GENERATOR n"
    by (auto simp: rs1024_linear_bits)
  then show "n < 30"
    by cases (auto simp: word_bits simp del: push_bit_and dest!: feedback_parity_bits GENERATOR_bits)
qed simp

lemma rs1024_step_below: "v < 2 ^ 10 \<Longrightarrow> rs1024_step c v < 2 ^ 30"
proof (rule word_below_bits)
  fix n assume v: "v < 2 ^ 10" and "bit (rs1024_step c v) n"
  then have "bit (rs1024_linear c) n \<or> bit v n"
    by (auto simp: rs1024_step_value [of c v] rs1024_linear_def bit_xor_iff)
  then show "n < 30"
    using word_below_bit [OF rs1024_linear_below [of c], of n] word_below_bit [OF v, of n] by auto
qed simp

lemma rs1024_linear_xor: "rs1024_linear (a XOR b) = rs1024_linear a XOR rs1024_linear b"
  using rs1024_step_xor [of a b 0 0] by (simp add: rs1024_linear_def)

lemma rs1024_fold_difference:
  "foldl rs1024_step (c XOR d) vs = foldl rs1024_step c vs XOR (rs1024_linear ^^ length vs) d"
  by (induction vs arbitrary: c d) (simp_all add: rs1024_step_difference funpow_swap1)

lemma rs1024_linear_iter_nonzero:
  "d < 2 ^ 30 \<Longrightarrow> d \<noteq> 0 \<Longrightarrow> (rs1024_linear ^^ n) d \<noteq> 0 \<and> (rs1024_linear ^^ n) d < 2 ^ 30"
  by (induction n) (auto simp del: power_numeral simp add: rs1024_linear_below dest: rs1024_linear_zero)

text \<open>
  The state after the customization string, and the difference between the two strings the
  code uses: both are constants.
\<close>

definition rs1024_start :: "bytes \<Rightarrow> u32" where
  "rs1024_start customization = foldl rs1024_step 1 (map ucast customization)"

lemma rs1024_polymod_start:
  "rs1024_polymod customization indices =
     foldl rs1024_step (rs1024_start customization) (map ucast indices)"
  by (simp add: rs1024_polymod_def rs1024_start_def)

lemma list_indices_nth: "list_indices is \<Longrightarrow> k < length is \<Longrightarrow> is ! k < 2 ^ 10"
  by (auto simp: list_indices_def list_all_length word_less_nat_alt)

lemma ucast_u16_inverse: "ucast (ucast (x :: u16) :: u32) = x"
  by (rule bit_eqI) (auto simp: word_bits)

lemma ucast_diff_nonzero: "(x :: u16) \<noteq> y \<Longrightarrow> (ucast x XOR ucast y :: u32) \<noteq> 0"
  unfolding word_xor_eq_0 by (metis ucast_u16_inverse)

lemma ucast_diff_below:
  assumes "(x :: u16) < 2 ^ 10" "(y :: u16) < 2 ^ 10"
  shows "(ucast x XOR ucast y :: u32) < 2 ^ 10"
  by (rule word_below_bits) (use assms [THEN word_below_bit] in \<open>auto simp: word_bits\<close>)

text \<open>Exchanging one word changes the checksum by a difference that is never zero.\<close>

lemma rs1024_polymod_exchange:
  assumes k: "k < length is"
  shows "rs1024_polymod customization (is[k := x]) =
    rs1024_polymod customization is XOR
      (rs1024_linear ^^ (length is - Suc k)) (ucast (is ! k) XOR ucast x)"
proof -
  let ?c = "rs1024_start customization"
  have split: "is = take k is @ is ! k # drop (Suc k) is"
    using k by (rule id_take_nth_drop)
  have step: "rs1024_step c (ucast x) =
      rs1024_step c (ucast (is ! k)) XOR (ucast (is ! k) XOR ucast x)" for c
    by (simp only: rs1024_step_value [of c "ucast x"] rs1024_step_value [of c "ucast (is ! k)"]
        xor.assoc word_xor_cancel)
  show ?thesis
    unfolding rs1024_polymod_start
    by (subst (2) split) (simp add: upd_conv_take_nth_drop [OF k] step rs1024_fold_difference)
qed

lemma rs1024_exchange_detected:
  assumes "k < length is" "list_indices is" "x < 2 ^ 10" "x \<noteq> is ! k"
  shows "rs1024_polymod customization (is[k := x]) \<noteq> rs1024_polymod customization is"
proof -
  let ?d = "ucast (is ! k) XOR ucast x :: u32"
  have "?d < 2 ^ 10"
    using assms by (intro ucast_diff_below list_indices_nth)
  then have "?d < 2 ^ 30"
    by (rule less_trans) simp
  moreover have "?d \<noteq> 0"
    using assms by (intro ucast_diff_nonzero) auto
  ultimately have "(rs1024_linear ^^ n) ?d \<noteq> 0" for n
    using rs1024_linear_iter_nonzero by blast
  then show ?thesis
    unfolding rs1024_polymod_exchange [OF assms(1)]
    by (simp add: word_xor_eq_self)
qed

section \<open>Creating the checksum\<close>

text \<open>
  The checksum words of the specification: the state after the data and three zero words,
  one bit inverted, cut into three words of ten bits. No code of the repository creates a
  share; the definition is the reference the check of \<open>decode\<close> is compared with.
\<close>

definition rs1024_create :: "bytes \<Rightarrow> u16 list \<Rightarrow> u16 list" where
  "rs1024_create customization data =
     (let p = rs1024_polymod customization (data @ [0, 0, 0]) XOR 1
      in map (\<lambda>s. ucast (drop_bit s p AND mask 10)) [20, 10, 0])"

lemma rs1024_three_words:
  assumes "a < 2 ^ 10" "b < 2 ^ 10"
  shows "rs1024_step (rs1024_step (rs1024_step c a) b) v =
    rs1024_step (rs1024_step (rs1024_step c 0) 0) 0 XOR
      (push_bit 20 a XOR push_bit 10 b XOR v)"
proof -
  have "drop_bit 20 a = 0" "drop_bit 20 (push_bit 10 a XOR b) = 0"
    using assms [THEN word_below_bit]
    by (auto intro!: bit_eqI simp: word_bits) fastforce+
  then show ?thesis
    by (simp add: rs1024_step_value [of _ a] rs1024_step_value [of _ b] rs1024_step_value [of _ v]
        rs1024_step_difference rs1024_linear_low xor.assoc push_bit_xor)
qed

lemma word_split_30:
  assumes "(p :: u32) < 2 ^ 30"
  shows "push_bit 20 (drop_bit 20 p AND mask 10) XOR push_bit 10 (drop_bit 10 p AND mask 10)
    XOR (p AND mask 10) = p"
proof (rule bit_eqI)
  fix n assume "possible_bit TYPE(u32) n"
  then show "bit (push_bit 20 (drop_bit 20 p AND mask 10) XOR push_bit 10 (drop_bit 10 p AND mask 10)
    XOR (p AND mask 10)) n = bit p n"
    using word_below_bit [OF assms, of n]
    by (cases "n < 10"; cases "n < 20") (auto simp: word_bits simp del: push_bit_and)
qed

lemma rs1024_create_verifies:
  "rs1024_polymod customization (data @ rs1024_create customization data) = 1"
proof -
  define c where "c = foldl rs1024_step (rs1024_start customization) (map ucast data)"
  define zero where "zero = rs1024_polymod customization (data @ [0, 0, 0])"
  define p where "p = zero XOR 1"
  let ?w = "\<lambda>s. drop_bit s p AND mask 10 :: u32"
  have zero: "zero = rs1024_step (rs1024_step (rs1024_step c 0) 0) 0"
    by (simp add: zero_def c_def rs1024_polymod_start)
  have "zero < 2 ^ 30"
    unfolding zero by (rule rs1024_step_below) simp
  then have p: "p < 2 ^ 30"
    unfolding p_def by (intro word_below_bits)
      (use word_below_bit [of zero 30] in \<open>auto simp: bit_xor_iff bit_1_iff\<close>)
  have w: "?w s < 2 ^ 10" for s
    by (rule and_mask_less') simp
  have cast: "ucast (ucast (?w s) :: u16) = ?w s" for s
    by (rule bit_eqI) (auto simp: word_bits)
  have "rs1024_create customization data = map (\<lambda>s. ucast (?w s)) [20, 10, 0]"
    by (simp only: rs1024_create_def Let_def zero_def p_def)
  then have "rs1024_polymod customization (data @ rs1024_create customization data) =
      rs1024_step (rs1024_step (rs1024_step c (?w 20)) (?w 10)) (?w 0)"
    by (simp add: rs1024_polymod_start c_def [symmetric] cast del: drop_bit_0)
  also have "\<dots> = zero XOR p"
    unfolding rs1024_three_words [OF w w] zero [symmetric] using word_split_30 [OF p] by simp
  finally show ?thesis
    by (simp add: p_def word_xor_cancel)
qed

section \<open>The customization strings differ where it matters\<close>

text \<open>
  The flag that chooses the customization string sits in word 1. When exchanging that word
  flips the flag, the difference of the two strings and the difference of the words meet
  after word 1, and they cannot cancel: the former is not the difference of two words.
\<close>

lemma customization_difference:
  "2 ^ 10 \<le> rs1024_linear (rs1024_linear
     (rs1024_start (customization_of False) XOR rs1024_start (customization_of True)))"
  by (simp add: rs1024_start_def customization_of_def as_bytes_def rs1024_step_def rs1024_linear_def
      GENERATOR_def feedback_Cons Let_def)

lemma rs1024_flip_detected:
  assumes len: "Suc 0 < length is" and x: "x < 2 ^ 10" "list_indices is"
  shows "rs1024_polymod (customization_of (\<not> e)) (is[Suc 0 := x])
    \<noteq> rs1024_polymod (customization_of e) is"
proof -
  let ?D = "rs1024_start (customization_of e) XOR rs1024_start (customization_of (\<not> e))"
  let ?d = "ucast (is ! Suc 0) XOR ucast x :: u32"
  let ?n = "length is - 2"
  have start: "rs1024_start (customization_of (\<not> e)) = rs1024_start (customization_of e) XOR ?D"
    by (simp add: word_xor_cancel)
  have n: "(rs1024_linear ^^ length is) ?D = (rs1024_linear ^^ ?n) (rs1024_linear (rs1024_linear ?D))"
  proof -
    have "length is = Suc (Suc ?n)"
      using len by simp
    then show ?thesis
      by (metis comp_apply funpow_Suc_right)
  qed
  have "2 ^ 10 \<le> rs1024_linear (rs1024_linear ?D)"
    using customization_difference by (cases e) (simp_all add: xor.commute)
  moreover have "?d < 2 ^ 10"
    using assms by (intro ucast_diff_below list_indices_nth) auto
  ultimately have ne: "rs1024_linear (rs1024_linear ?D) XOR ?d \<noteq> 0"
    by (auto simp: word_xor_eq_0)
  have "rs1024_linear (rs1024_linear ?D) XOR ?d < 2 ^ 30"
    using word_below_bit [OF rs1024_linear_below [of "rs1024_linear ?D"]] word_below_bit [OF \<open>?d < 2 ^ 10\<close>]
    by (intro word_below_bits) (fastforce simp: bit_xor_iff [of "rs1024_linear _"] simp del: bit_xor_iff)+
  then have nz: "(rs1024_linear ^^ ?n) (rs1024_linear (rs1024_linear ?D) XOR ?d) \<noteq> 0"
    using ne rs1024_linear_iter_nonzero by blast
  have lin: "(rs1024_linear ^^ m) (a XOR b) = (rs1024_linear ^^ m) a XOR (rs1024_linear ^^ m) b" for m a b
    by (induction m) (simp_all add: rs1024_linear_xor)
  have "rs1024_polymod (customization_of (\<not> e)) is =
      rs1024_polymod (customization_of e) is XOR (rs1024_linear ^^ length is) ?D"
    using rs1024_fold_difference [of "rs1024_start (customization_of e)" ?D "map ucast is"]
    by (simp only: rs1024_polymod_start start [symmetric] length_map)
  then have "rs1024_polymod (customization_of (\<not> e)) (is[Suc 0 := x]) =
      rs1024_polymod (customization_of e) is
        XOR ((rs1024_linear ^^ length is) ?D XOR (rs1024_linear ^^ ?n) ?d)"
    by (simp only: rs1024_polymod_exchange [OF len] xor.assoc numeral_2_eq_2)
  then show ?thesis
    using nz by (simp add: word_xor_eq_self n lin [symmetric])
qed

end
