(* ===== verification/Slip39_Encoding.thy ===== *)
theory Slip39_Encoding
  imports Slip39_Checksum
begin

unbundle bit_operations_syntax

text \<open>
  The reference encoder of SLIP-0039, which the repository does not have, and what
  \<open>decode\<close> and \<open>validate\<close> of \<open>src/slip39.rs\<close> do on its shares and on any other text: round
  trip, one spelling per share, detection of an exchanged word, ranges of the fields.
\<close>

section \<open>Packing the metadata\<close>

definition pack_id_exp :: "u16 \<Rightarrow> bool \<Rightarrow> u8 \<Rightarrow> u32" where
  "pack_id_exp i x e = push_bit 5 (ucast i) OR push_bit 4 (of_bool x) OR ucast e"

definition pack_params :: "u8 \<Rightarrow> u8 \<Rightarrow> u8 \<Rightarrow> u8 \<Rightarrow> u8 \<Rightarrow> u32" where
  "pack_params a b c d e = push_bit 16 (ucast a) OR push_bit 12 (ucast b) OR push_bit 8 (ucast c)
     OR push_bit 4 (ucast d) OR ucast e"

definition two_words :: "u32 \<Rightarrow> u16 list" where
  "two_words w = [ucast (drop_bit 10 w), ucast (w AND 0x3FF)]"

definition metadata_words :: "fields \<Rightarrow> u16 list" where
  "metadata_words f =
     two_words (pack_id_exp (share_identifier f) (extendable f) (iteration_exponent f))
     @ two_words (pack_params (group_index f) (group_threshold f - 1) (group_count f - 1)
         (f_member_index f) (f_member_threshold f - 1))"

definition encode_share :: "fields \<Rightarrow> u16 list \<Rightarrow> u16 list" where
  "encode_share f payload =
     (let data = metadata_words f @ payload
      in data @ rs1024_create (customization_of (extendable f)) data)"

text \<open>The fields the format has room for, and a 256-bit value in 26 words with its padding.\<close>

definition fields_in_range :: "fields \<Rightarrow> bool" where
  "fields_in_range f \<longleftrightarrow>
     share_identifier f < 2 ^ 15 \<and> iteration_exponent f < 2 ^ 4 \<and> group_index f < 2 ^ 4
     \<and> group_threshold f - 1 < 2 ^ 4 \<and> group_count f - 1 < 2 ^ 4
     \<and> f_member_index f < 2 ^ 4 \<and> f_member_threshold f - 1 < 2 ^ 4"

definition payload_in_range :: "u16 list \<Rightarrow> bool" where
  "payload_in_range payload \<longleftrightarrow>
     length payload = 26 \<and> list_indices payload \<and> payload ! 0 < 2 ^ 6"

lemma mask_0x3FF: "(0x3FF :: u32) = mask 10"
  by (simp add: mask_eq_exp_minus_1)

lemma mask_0xF: "(0xF :: u32) = mask 4"
  by (simp add: mask_eq_exp_minus_1)

lemma two_words_join:
  assumes "(w :: u32) < 2 ^ 20"
  shows "push_bit 10 (ucast (ucast (drop_bit 10 w) :: u16)) OR ucast (ucast (w AND 0x3FF) :: u16) = w"
proof (rule bit_eqI)
  fix n assume "possible_bit TYPE(u32) n"
  then show "bit (push_bit 10 (ucast (ucast (drop_bit 10 w) :: u16))
      OR ucast (ucast (w AND 0x3FF) :: u16) :: u32) n = bit w n"
    unfolding mask_0x3FF using word_below_bit [OF assms, of n]
    by (cases "n < 10") (auto simp: word_bits simp del: push_bit_and take_bit_and unsigned_and_eq)
qed

lemma two_words_indices:
  assumes "w < 2 ^ 20"
  shows "list_indices (two_words w)"
proof -
  have "(ucast (drop_bit 10 w) :: u16) < 2 ^ 10"
    by (rule word_below_bits) (use word_below_bit [OF assms] in \<open>fastforce simp: word_bits\<close>)+
  moreover have "(ucast (w AND mask 10) :: u16) < 2 ^ 10"
    by (rule word_below_bits) (auto simp: word_bits simp del: take_bit_and unsigned_and_eq)
  ultimately show ?thesis
    by (simp add: two_words_def mask_0x3FF word_less_nat_alt del: take_bit_and unsigned_and_eq)
qed

lemma pack_id_exp_bit:
  assumes "e < 2 ^ 4"
  shows "bit (pack_id_exp i x e) n \<longleftrightarrow>
    n < 32 \<and> (if n < 4 then bit e n else if n = 4 then x else bit i (n - 5))"
  using word_below_bit [OF assms]
  by (force simp: pack_id_exp_def word_bits bit_of_bool_iff dest: bit_imp_le_length split: if_splits)

lemma pack_id_exp_below: "i < 2 ^ 15 \<Longrightarrow> e < 2 ^ 4 \<Longrightarrow> pack_id_exp i x e < 2 ^ 20"
  by (rule word_below_bits)
    (use word_below_bit [of i 15] in \<open>force simp: pack_id_exp_bit split: if_splits\<close>)+

lemma pack_id_exp_fields:
  assumes "e < 2 ^ 4"
  shows "ucast (drop_bit 5 (pack_id_exp i x e)) = i"
    "drop_bit 4 (pack_id_exp i x e) AND 1 = 1 \<longleftrightarrow> x"
    "ucast (pack_id_exp i x e AND 0xF) = e"
proof -
  show "ucast (drop_bit 5 (pack_id_exp i x e)) = i"
    by (rule bit_eqI) (auto simp: word_bits pack_id_exp_bit [OF assms] dest: bit_imp_le_length)
  show "drop_bit 4 (pack_id_exp i x e) AND 1 = 1 \<longleftrightarrow> x"
    by (simp add: low_bit_iff pack_id_exp_bit [OF assms])
  show "ucast (pack_id_exp i x e AND 0xF) = e"
    unfolding mask_0xF using word_below_bit [OF assms]
    by (intro bit_eqI) (auto simp: word_bits pack_id_exp_bit [OF assms] dest: bit_imp_le_length)
qed

lemma pack_params_bit:
  assumes "a < 2 ^ 4" "b < 2 ^ 4" "c < 2 ^ 4" "d < 2 ^ 4" "e < 2 ^ 4"
  shows "bit (pack_params a b c d e) n \<longleftrightarrow> n < 32 \<and>
    (if n < 4 then bit e n else if n < 8 then bit d (n - 4) else if n < 12 then bit c (n - 8)
     else if n < 16 then bit b (n - 12) else bit a (n - 16))"
  using assms [THEN word_below_bit]
  by (force simp: pack_params_def word_bits dest: bit_imp_le_length split: if_splits)

lemma pack_params_below:
  assumes "a < 2 ^ 4" "b < 2 ^ 4" "c < 2 ^ 4" "d < 2 ^ 4" "e < 2 ^ 4"
  shows "pack_params a b c d e < 2 ^ 20"
  by (rule word_below_bits)
    (use word_below_bit [OF assms(1)] in \<open>force simp: pack_params_bit [OF assms] split: if_splits\<close>)+

lemma pack_params_nibbles:
  assumes "a < 2 ^ 4" "b < 2 ^ 4" "c < 2 ^ 4" "d < 2 ^ 4" "e < 2 ^ 4"
  shows "ucast (drop_bit 16 (pack_params a b c d e) AND 0xF) = a"
    "ucast (drop_bit 12 (pack_params a b c d e) AND 0xF) = b"
    "ucast (drop_bit 8 (pack_params a b c d e) AND 0xF) = c"
    "ucast (drop_bit 4 (pack_params a b c d e) AND 0xF) = d"
    "ucast (drop_bit 0 (pack_params a b c d e) AND 0xF) = e"
  unfolding mask_0xF
  by (rule bit_eqI; use assms [THEN word_below_bit] in
      \<open>force simp: word_bits pack_params_bit [OF assms] dest: bit_imp_le_length\<close>)+

section \<open>Round trip\<close>

lemma list_indices_append [simp]: "list_indices (xs @ ys) \<longleftrightarrow> list_indices xs \<and> list_indices ys"
  by (simp add: list_indices_def)

lemma metadata_words_indices: "fields_in_range f \<Longrightarrow> list_indices (metadata_words f)"
  unfolding metadata_words_def fields_in_range_def list_indices_append
  by (intro conjI two_words_indices pack_id_exp_below pack_params_below) blast+

lemma length_metadata_words: "length (metadata_words f) = 4"
  by (simp add: metadata_words_def two_words_def)

lemma rs1024_create_indices: "list_indices (rs1024_create customization data)"
proof -
  have "(ucast (w AND mask 10) :: u16) < 2 ^ 10" for w :: u32
    by (rule word_below_bits) (auto simp: word_bits simp del: unsigned_and_eq)
  then show ?thesis
    by (simp add: rs1024_create_def Let_def word_less_nat_alt del: unsigned_and_eq)
qed

lemma fields_of_encoded:
  assumes f: "fields_in_range f" and p: "payload_in_range payload"
  shows "fields_of_indices (encode_share f payload) = Inr f"
proof -
  let ?is = "encode_share f payload"
  let ?id = "pack_id_exp (share_identifier f) (extendable f) (iteration_exponent f)"
  let ?pa = "pack_params (group_index f) (group_threshold f - 1) (group_count f - 1)
         (f_member_index f) (f_member_threshold f - 1)"
  from p obtain v vs where v: "payload = v # vs" "v < 2 ^ 6"
    by (cases payload) (auto simp: payload_in_range_def)
  have nths: "?is ! 0 = ucast (drop_bit 10 ?id)" "?is ! 1 = ucast (?id AND 0x3FF)"
    "?is ! 2 = ucast (drop_bit 10 ?pa)" "?is ! 3 = ucast (?pa AND 0x3FF)" "?is ! 4 = v"
    by (simp_all add: encode_share_def Let_def metadata_words_def two_words_def v eval_nat_numeral)
  have id: "push_bit 10 (ucast (?is ! 0)) OR ucast (?is ! 1) = ?id"
    and pa: "push_bit 10 (ucast (?is ! 2)) OR ucast (?is ! 3) = ?pa"
    unfolding nths using f
    by (simp_all only: two_words_join pack_id_exp_below pack_params_below fields_in_range_def)
  have pad: "drop_bit 6 (?is ! 4) = 0"
    unfolding nths using word_below_bit [OF v(2)] by (intro bit_eqI) (fastforce simp: word_bits)
  have chk: "rs1024_polymod (customization_of (extendable f)) ?is = 1"
    by (simp only: encode_share_def Let_def rs1024_create_verifies)
  show ?thesis
    unfolding fields_of_indices_def Let_def id pa
    using f by (simp add: pad chk [unfolded One_nat_def] pack_id_exp_fields pack_params_nibbles fields_in_range_def del: drop_bit_0)
qed


lemma encode_share_shape:
  assumes "fields_in_range f" "payload_in_range payload"
  shows "length (encode_share f payload) = 33" "list_indices (encode_share f payload)"
  using assms metadata_words_indices [of f]
  by (simp_all add: encode_share_def Let_def length_metadata_words payload_in_range_def
      rs1024_create_indices) (simp add: rs1024_create_def Let_def)

section \<open>Every accepted share is an encoding\<close>

lemma two_words_of_join:
  assumes "a < 2 ^ 10" "b < 2 ^ 10"
  shows "two_words (push_bit 10 (ucast a) OR ucast b) = [a, b]"
    "push_bit 10 (ucast a) OR ucast b < (2 ^ 20 :: u32)"
proof -
  have "ucast (drop_bit 10 (push_bit 10 (ucast a) OR ucast b :: u32)) = a"
    by (rule bit_eqI) (use assms [THEN word_below_bit] in \<open>fastforce simp: word_bits\<close>)
  moreover have "ucast ((push_bit 10 (ucast a) OR ucast b) AND mask 10 :: u32) = b"
    by (rule bit_eqI) (use assms [THEN word_below_bit] in
        \<open>fastforce simp: word_bits simp del: take_bit_and unsigned_and_eq\<close>)
  ultimately show "two_words (push_bit 10 (ucast a) OR ucast b) = [a, b]"
    by (simp add: two_words_def mask_0x3FF)
  show "push_bit 10 (ucast a) OR ucast b < (2 ^ 20 :: u32)"
    by (rule word_below_bits) (use assms [THEN word_below_bit] in \<open>fastforce simp: word_bits\<close>)+
qed

lemma low_nibble_below: "(ucast (w AND 0xF :: u32) :: u8) < 2 ^ 4"
  unfolding mask_0xF by (rule word_below_bits) (auto simp: word_bits simp del: take_bit_and unsigned_and_eq)

lemma pack_unpack_id_exp:
  assumes "w < 2 ^ 20"
  shows "pack_id_exp (ucast (drop_bit 5 w)) (drop_bit 4 w AND 1 = 1) (ucast (w AND 0xF)) = w"
    "(ucast (drop_bit 5 w) :: u16) < 2 ^ 15"
proof -
  show "pack_id_exp (ucast (drop_bit 5 w)) (drop_bit 4 w AND 1 = 1) (ucast (w AND 0xF)) = w"
  proof (rule bit_eqI)
    fix n assume "possible_bit TYPE(u32) n"
    then show "bit (pack_id_exp (ucast (drop_bit 5 w)) (drop_bit 4 w AND 1 = 1) (ucast (w AND 0xF))) n
        = bit w n"
      unfolding pack_id_exp_bit [OF low_nibble_below]
      using word_below_bit [OF assms, of n]
      by (auto simp: low_bit_iff mask_0xF word_bits simp del: take_bit_and unsigned_and_eq)
  qed
  show "(ucast (drop_bit 5 w) :: u16) < 2 ^ 15"
    by (rule word_below_bits) (use word_below_bit [OF assms] in \<open>fastforce simp: word_bits\<close>)+
qed

lemma pack_unpack_params:
  assumes "w < 2 ^ 20"
  shows "pack_params (ucast (drop_bit 16 w AND 0xF)) (ucast (drop_bit 12 w AND 0xF))
    (ucast (drop_bit 8 w AND 0xF)) (ucast (drop_bit 4 w AND 0xF)) (ucast (w AND 0xF)) = w"
proof (rule bit_eqI)
  fix n assume "possible_bit TYPE(u32) n"
  then show "bit (pack_params (ucast (drop_bit 16 w AND 0xF)) (ucast (drop_bit 12 w AND 0xF))
    (ucast (drop_bit 8 w AND 0xF)) (ucast (drop_bit 4 w AND 0xF)) (ucast (w AND 0xF))) n = bit w n"
    unfolding pack_params_bit [OF low_nibble_below low_nibble_below low_nibble_below
        low_nibble_below low_nibble_below]
    using word_below_bit [OF assms, of n]
    by (auto simp: mask_0xF word_bits simp del: take_bit_and unsigned_and_eq)
qed

definition join_30 :: "u16 \<Rightarrow> u16 \<Rightarrow> u16 \<Rightarrow> u32" where
  "join_30 a b c = push_bit 20 (ucast a) XOR push_bit 10 (ucast b) XOR ucast c"

lemma join_30_bit:
  assumes "a < 2 ^ 10" "b < 2 ^ 10" "c < 2 ^ 10"
  shows "bit (join_30 a b c) n \<longleftrightarrow>
    (if n < 10 then bit c n else if n < 20 then bit b (n - 10) else bit a (n - 20))"
proof -
  have c: "bit c n \<Longrightarrow> n < 10" and b: "bit b (n - 10) \<Longrightarrow> n - 10 < 10" and a: "bit a (n - 20) \<Longrightarrow> n - 20 < 10"
    using word_below_bit [OF assms(3), of n] word_below_bit [OF assms(2), of "n - 10"]
      word_below_bit [OF assms(1), of "n - 20"] by simp_all
  show ?thesis
    using a b c by (auto simp: join_30_def word_bits)
qed

lemma join_30_inject:
  assumes "a < 2 ^ 10" "b < 2 ^ 10" "c < 2 ^ 10" "d < 2 ^ 10" "e < 2 ^ 10" "f < 2 ^ 10"
    and eq: "join_30 a b c = join_30 d e f"
  shows "a = d \<and> b = e \<and> c = f"
proof -
  have bits: "bit (join_30 a b c) n = bit (join_30 d e f) n" for n
    by (simp add: eq)
  note bits = bits [unfolded join_30_bit [OF assms(1-3)] join_30_bit [OF assms(4-6)]]
  have "bit c n = bit f n" for n
    using bits [of n] word_below_bit [OF assms(3)] word_below_bit [OF assms(6)] by (cases "n < 10") auto
  moreover have "bit b n = bit e n" for n
    using bits [of "n + 10"] word_below_bit [OF assms(2)] word_below_bit [OF assms(5)]
    by (cases "n < 10") auto
  moreover have "bit a n = bit d n" for n
    using bits [of "n + 20"] word_below_bit [OF assms(1)] word_below_bit [OF assms(4)]
    by (cases "n < 10") auto
  ultimately show ?thesis
    by (simp add: bit_eq_iff)
qed

lemma rs1024_join:
  assumes "list_indices [a, b, c]"
  shows "rs1024_polymod customization (data @ [a, b, c]) =
    rs1024_polymod customization (data @ [0, 0, 0]) XOR join_30 a b c"
proof -
  have cast: "(ucast i :: u32) < 2 ^ 10" if "unat (i :: u16) < 1024" for i
    by (rule word_below_bits)
      (use word_below_bit [of i 10] that in \<open>auto simp: word_bits word_less_nat_alt\<close>)
  have "(ucast a :: u32) < 2 ^ 10" "(ucast b :: u32) < 2 ^ 10"
    using assms by (simp_all only: list_indices_simps cast)
  note words = rs1024_three_words [OF this, where v = "ucast c"]
  show ?thesis
    by (simp add: rs1024_polymod_start words join_30_def)
qed

lemma rs1024_create_unique:
  assumes "rs1024_polymod customization (data @ [a, b, c]) = 1" "list_indices [a, b, c]"
  shows "[a, b, c] = rs1024_create customization data"
proof -
  obtain d e f where c: "rs1024_create customization data = [d, e, f]"
    by (simp add: rs1024_create_def Let_def)
  have def: "list_indices [d, e, f]"
    using rs1024_create_indices [of customization data] by (simp add: c)
  have "rs1024_polymod customization (data @ [0, 0, 0]) XOR join_30 a b c =
      rs1024_polymod customization (data @ [0, 0, 0]) XOR join_30 d e f"
    using assms rs1024_create_verifies [of customization data]
    by (simp only: c rs1024_join [OF assms(2)] rs1024_join [OF def])
  then have "join_30 a b c = join_30 d e f"
    by (metis word_xor_cancel)
  then have "a = d \<and> b = e \<and> c = f"
    using assms(2) def by (intro join_30_inject) (auto simp: word_less_nat_alt)
  then show ?thesis
    by (simp add: c)
qed

lemma length_33:
  assumes "length is = 33"
  obtains i0 i1 i2 i3 payload a b c
  where "is = i0 # i1 # i2 # i3 # payload @ [a, b, c]" "length payload = 26"
proof -
  obtain i0 i1 i2 i3 r where r: "is = i0 # i1 # i2 # i3 # r" "length r = 29"
    using assms by (auto simp: length_Suc_conv eval_nat_numeral)
  then have "length (drop 26 r) = 3"
    by simp
  then obtain a b c where "drop 26 r = [a, b, c]"
    by (auto simp: length_Suc_conv numeral_3_eq_3 simp del: length_drop)
  moreover have "r = take 26 r @ drop 26 r"
    by simp
  ultimately have "r = take 26 r @ [a, b, c]"
    by simp
  moreover have "length (take 26 r) = 26"
    using r(2) by simp
  ultimately show ?thesis
    using that r(1) by metis
qed

lemma accepted_is_encoding:
  assumes len: "length is = 33" and idx: "list_indices is" and f: "fields_of_indices is = Inr f"
  shows "\<exists>payload. payload_in_range payload \<and> fields_in_range f \<and> is = encode_share f payload"
proof -
  obtain i0 i1 i2 i3 payload a b c where
    "is": "is = i0 # i1 # i2 # i3 # payload @ [a, b, c]" and pl: "length payload = 26"
    using length_33 [OF len] by metis
  define id where "id = (push_bit 10 (ucast i0) OR ucast i1 :: u32)"
  define pa where "pa = (push_bit 10 (ucast i2) OR ucast i3 :: u32)"
  have lt: "i0 < 2 ^ 10" "i1 < 2 ^ 10" "i2 < 2 ^ 10" "i3 < 2 ^ 10"
    using idx by (auto simp: "is" word_less_nat_alt)
  note id = two_words_of_join [OF lt(1,2), folded id_def] pack_unpack_id_exp
  note pa = two_words_of_join [OF lt(3,4), folded pa_def] pack_unpack_params
  have poly: "rs1024_polymod (customization_of (extendable f)) is = 1" and pad: "drop_bit 6 (is ! 4) = 0"
    and feq: "f = \<lparr>share_identifier = ucast (drop_bit 5 id), extendable = (drop_bit 4 id AND 1 = 1),
                    iteration_exponent = ucast (id AND 0xF),
                    group_index = ucast (drop_bit 16 pa AND 0xF),
                    group_threshold = ucast (drop_bit 12 pa AND 0xF) + 1,
                    group_count = ucast (drop_bit 8 pa AND 0xF) + 1,
                    f_member_index = ucast (drop_bit 4 pa AND 0xF),
                    f_member_threshold = ucast (drop_bit 0 pa AND 0xF) + 1\<rparr>"
    using f by (auto simp: fields_of_indices_def Let_def "is" id_def pa_def split: if_splits)
  have meta: "metadata_words f = [i0, i1, i2, i3]"
    using id pa by (simp add: metadata_words_def feq)
  have "fields_in_range f"
    using id pack_unpack_id_exp(2) low_nibble_below unfolding feq fields_in_range_def by simp
  moreover have "payload_in_range payload"
  proof -
    have nth: "is ! 4 = payload ! 0"
      using pl by (simp add: "is" nth_append)
    have "payload ! 0 < 2 ^ 6"
    proof (rule word_below_bits)
      fix n assume n: "bit (payload ! 0) n"
      show "n < 6"
      proof (rule ccontr)
        assume "\<not> n < 6"
        with n have "bit (drop_bit 6 (payload ! 0)) (n - 6)"
          by (simp add: bit_drop_bit_eq)
        with pad nth show False
          by simp
      qed
    qed simp
    then show ?thesis
      using idx pl by (simp add: payload_in_range_def "is")
  qed
  moreover have "is = encode_share f payload"
    using rs1024_create_unique [of "customization_of (extendable f)" "[i0, i1, i2, i3] @ payload" a b c]
      poly idx by (simp add: encode_share_def meta Let_def "is")
  ultimately show ?thesis by blast
qed

section \<open>What decoding and validation promise\<close>

lemma decode_total: "decode m = Inl Malformed \<or> (\<exists>f. decode m = Inr f)"
  by (auto simp: decode_def fields_of_indices_def Let_def split: option.splits)

lemma extendable_flag:
  assumes "fields_of_indices is = Inr f"
  shows "extendable f \<longleftrightarrow> bit (is ! 1) 4" and "rs1024_polymod (customization_of (extendable f)) is = 1"
  using assms by (auto simp: fields_of_indices_def Let_def low_bit_iff word_bits split: if_splits)

lemma fields_of_exchanged:
  assumes f: "fields_of_indices is = Inr f" and g: "fields_of_indices (is[k := x]) = Inr g"
    and "k < length is" "length is = 33" "list_indices is" "x < 2 ^ 10" "x \<noteq> is ! k"
  shows False
proof (cases "extendable g = extendable f")
  case True
  then show False
    using rs1024_exchange_detected [OF assms(3,5-), of "customization_of (extendable f)"]
      extendable_flag(2) [OF f] extendable_flag(2) [OF g] by simp
next
  case False
  then have "k = Suc 0"
    using extendable_flag(1) [OF f] extendable_flag(1) [OF g] assms(4) by (cases "k = 1") auto
  then show False
    using False rs1024_flip_detected [of "is" x "extendable f"] assms
      extendable_flag(2) [OF f] extendable_flag(2) [OF g] by simp
qed

definition example_fields :: fields where
  "example_fields = \<lparr>share_identifier = 7945, extendable = False, iteration_exponent = 0,
     group_index = 0, group_threshold = 1, group_count = 1, f_member_index = 3,
     f_member_threshold = 2\<rparr>"

definition example_payload :: "u16 list" where
  "example_payload = 63 # replicate 25 1023"

lemma example_in_range: "fields_in_range example_fields" "payload_in_range example_payload"
  by (simp_all add: example_fields_def fields_in_range_def example_payload_def
      payload_in_range_def list_indices_def list_all_iff)

lemma decode_iff_encoding:
  "decode m = Inr f \<longleftrightarrow>
     fields_in_range f
     \<and> (\<exists>payload. payload_in_range payload \<and> m = mnemonic_of (encode_share f payload))"
proof
  assume "decode m = Inr f"
  then show "fields_in_range f
     \<and> (\<exists>payload. payload_in_range payload \<and> m = mnemonic_of (encode_share f payload))"
    unfolding decode_iff using accepted_is_encoding by blast
qed (auto simp: decode_iff intro: encode_share_shape fields_of_encoded)

text \<open>
  C24: Decoding accepts nothing else: a text decodes to some metadata exactly when it is the
  mnemonic the encoder gives for that metadata, in range, and some 256-bit value. So decoding inverts
  the encoding, every accepted share has one spelling, its padding is zero and its checksum is the one
  the specification computes.
\<close>
theorem slip39_decode_accepts:
  "decode m = Inr f \<longleftrightarrow>
     fields_in_range f
     \<and> (\<exists>payload. payload_in_range payload \<and> m = mnemonic_of (encode_share f payload))"
  by (rule decode_iff_encoding)

text \<open>
  C26: One word copied wrongly is always noticed: exchanging any single word of an accepted
  share for any other word of the list gives a malformed share, the word that carries the
  flag selecting the checksum customization included.
\<close>
theorem slip39_exchange_detected:
  assumes "decode (mnemonic_of is) = Inr f" "list_indices is" "length is = 33"
    and "k < 33" "x < 1024" "x \<noteq> is ! k"
  shows "decode (mnemonic_of (is[k := x])) = Inl Malformed"
proof -
  have idx: "list_indices (is[k := x])"
    using assms by (auto simp: list_indices_def list_all_length nth_list_update word_less_nat_alt)
  have same: "fields_of_indices js = Inr g" if "decode (mnemonic_of js) = Inr g"
    "list_indices js" "length js = 33" for js g
    using that by (auto simp: decode_iff) (metis mnemonic_inj)
  have "decode (mnemonic_of (is[k := x])) \<noteq> Inr g" for g
    using fields_of_exchanged [of "is" f k x g] same [OF assms(1-3)] same [OF _ idx, of g] assms by auto
  then show ?thesis
    using decode_total by blast
qed

definition example_indices :: "u16 list" where
  "example_indices = encode_share example_fields example_payload"

theorem slip39_exchange_detected_witness:
  "decode (mnemonic_of (example_indices[1 := 0])) = Inl Malformed"
proof (rule slip39_exchange_detected)
  show "decode (mnemonic_of example_indices) = Inr example_fields"
    unfolding decode_iff example_indices_def
    using encode_share_shape [OF example_in_range] fields_of_encoded [OF example_in_range] by blast
  show "list_indices example_indices" "length example_indices = 33"
    unfolding example_indices_def by (rule encode_share_shape [OF example_in_range])+
  show "0 \<noteq> example_indices ! 1"
    by (simp add: example_indices_def encode_share_def Let_def metadata_words_def two_words_def
        pack_id_exp_def example_fields_def)
qed simp_all


text \<open>
  The member index and threshold of a valid share are within the ranges the enrollment relies on.
\<close>

lemma validate_bounds:
  assumes "validate m = Inr s"
  shows "sh_member_index s \<le> 15 \<and> 2 \<le> sh_member_threshold s \<and> sh_member_threshold s \<le> 16"
proof -
  obtain f where "decode m = Inr f" "2 \<le> f_member_threshold f"
    and s: "s = \<lparr>sh_member_index = f_member_index f, sh_member_threshold = f_member_threshold f\<rparr>"
    using assms by (auto simp: validate_def result_iff in_profile_def split: if_splits)
  then have "f_member_index f < 16" "f_member_threshold f - 1 < 16" "2 \<le> f_member_threshold f"
    by (auto simp: decode_iff_encoding fields_in_range_def)
  then show ?thesis
    unfolding s by (auto simp: word_less_nat_alt word_le_nat_alt unat_sub_if')
qed

end
