(* ===== verification/Slip39_Vectors.thy ===== *)
theory Slip39_Vectors
  imports Slip39_Encoding
begin

unbundle bit_operations_syntax

text \<open>
  Shares from \<open>src/tests/fixtures/slip39\<close> (the second of the first set in \<open>onym-generated.json\<close>, cases 21
  and 45 of \<open>official-decoded.json\<close>), each as the positions of its words in the list. The model computes
  what the fixtures record of the reference implementation.
\<close>

section \<open>From words to positions\<close>

lemma decode_mnemonic:
  assumes "length is = 33" "list_indices is"
  shows "decode (mnemonic_of is) = fields_of_indices is"
proof -
  have only: "fields_of_indices is = Inr f" if "decode (mnemonic_of is) = Inr f" for f
    using that assms by (auto simp: decode_iff dest: mnemonic_inj)
  have "fields_of_indices is = Inl Malformed \<or> (\<exists>f. fields_of_indices is = Inr f)"
    by (simp add: fields_of_indices_def Let_def)
  then show ?thesis
  proof
    assume "fields_of_indices is = Inl Malformed"
    then show ?thesis
      using decode_total [of "mnemonic_of is"] only by auto
  next
    assume "\<exists>f. fields_of_indices is = Inr f"
    then show ?thesis
      using assms unfolding decode_iff by (metis decode_iff)
  qed
qed

section \<open>The vectors\<close>

definition shared_indices :: "u16 list" where
  "shared_indices =
     [542, 512, 0, 17, 44, 108, 828, 207, 46, 986, 799, 1021, 899, 486, 485, 604, 454, 836, 69, 525, 169,
     684, 613, 636, 446, 514, 616, 103, 728, 75, 122, 104, 758]"

definition bad_checksum_indices :: "u16 list" where
  "bad_checksum_indices =
     [911, 640, 0, 0, 53, 882, 1019, 582, 265, 225, 2, 1004, 91, 278, 380, 508, 781, 109, 122, 217, 39,
     421, 515, 927, 636, 78, 663, 120, 564, 530, 97, 214, 543]"

definition extendable_indices :: "u16 list" where
  "extendable_indices =
     [1002, 48, 0, 33, 54, 751, 99, 875, 1012, 633, 157, 153, 23, 577, 656, 45, 696, 54, 367, 36, 211,
     581, 328, 608, 602, 665, 997, 29, 128, 959, 849, 539, 555]"

lemma vectors_shape:
  "list_all (\<lambda>is. length is = 33 \<and> list_indices is)
     [shared_indices, bad_checksum_indices, extendable_indices]"
  by (simp add: shared_indices_def bad_checksum_indices_def extendable_indices_def)

text \<open>
  A share of the profile is valid; one with the extendable flag is well formed, under the other
  customization of the checksum, but outside the profile; a wrong checksum is malformed.
\<close>

lemma shared_fields:
  "and_then (fields_of_indices shared_indices) (\<lambda>f. Inr (share_identifier f, in_profile f, f_member_index f,
     f_member_threshold f)) = Inr (17360, True, 1, 2)"
  by code_simp

lemma extendable_fields:
  "and_then (fields_of_indices extendable_indices) (\<lambda>f. Inr (share_identifier f, extendable f, f_member_index f,
     f_member_threshold f)) = Inr (32065, True, 2, 2)"
  by code_simp

lemma bad_checksum_refused: "\<not> is_ok (fields_of_indices bad_checksum_indices)"
  by code_simp

lemma vectors_validated:
  "validate (mnemonic_of shared_indices) = Inr \<lparr>sh_member_index = 1, sh_member_threshold = 2\<rparr>"
  "validate (mnemonic_of extendable_indices) = Inl Unsupported"
  "validate (mnemonic_of bad_checksum_indices) = Inl Malformed"
proof -
  have decoded: "decode (mnemonic_of is) = fields_of_indices is"
    if "is \<in> {shared_indices, bad_checksum_indices, extendable_indices}" for "is"
    using that vectors_shape by (intro decode_mnemonic) auto
  show "validate (mnemonic_of shared_indices) = Inr \<lparr>sh_member_index = 1, sh_member_threshold = 2\<rparr>"
    "validate (mnemonic_of extendable_indices) = Inl Unsupported"
    using shared_fields extendable_fields
    by (auto simp: validate_def decoded in_profile_def result_iff)
  show "validate (mnemonic_of bad_checksum_indices) = Inl Malformed"
    using decode_total [of "mnemonic_of bad_checksum_indices"] bad_checksum_refused
    by (auto simp: validate_def decoded is_ok_iff)
qed

end
