(* ===== verification/Externals.thy ===== *)
theory Externals
  imports Trustee_Prelude
begin

text \<open>
  The third-party code the sources call, as parameters. \<open>json\<close> is \<open>serde_json::Value\<close>, whose
  constructors the sources match on; every function of a crate is a field of the record
  \<open>extern\<close>, an argument of each definition that reaches it. The predicates \<open>*_laws\<close> state
  documented behaviour of the crates and are named hypotheses where a theorem needs them.
\<close>

section \<open>serde_json values\<close>

text \<open>
  A number is a \<open>u64\<close>, a negative \<open>i64\<close> or an \<open>f64\<close> (its 64 bits). An object is a list of
  members: in document order in what the reader hands a visitor, in key order in a \<open>Value\<close>.
\<close>

datatype json =
    JNull
  | JBool bool
  | JU64 u64
  | JI64 i64
  | JF64 u64
  | JString string
  | JArray "json list"
  | JObject "(string \<times> json) list"

section \<open>The parameters\<close>

text \<open>
  Byte arrays of a fixed length are byte lists; \<open>None\<close> is the crate's error. Sealing draws
  its ephemeral key from the operating system: the drawn bytes are its first argument.
\<close>

record extern =
  sha256_digest :: "bytes \<Rightarrow> bytes"
  hex_encode :: "bytes \<Rightarrow> string"
  hex_decode_to_slice :: "nat \<Rightarrow> string \<Rightarrow> bytes option"
  base64_encode :: "bytes \<Rightarrow> string"
  base64_decode :: "string \<Rightarrow> bytes option"
  rfc3339_parse :: "string \<Rightarrow> i64 option"
  rfc3339_format :: "i64 \<Rightarrow> string option"
  json_read :: "bytes \<Rightarrow> json option"
  json_write :: "json \<Rightarrow> bytes"
  kem_private_key_ok :: "bytes \<Rightarrow> bool"
  kem_public_key :: "bytes \<Rightarrow> bytes"
  kem_public_key_ok :: "bytes \<Rightarrow> bool"
  kem_encapped_key_ok :: "bytes \<Rightarrow> bool"
  single_shot_seal :: "bytes \<Rightarrow> bytes \<Rightarrow> bytes \<Rightarrow> bytes \<Rightarrow> (bytes \<times> bytes) option"
  single_shot_open :: "bytes \<Rightarrow> bytes \<Rightarrow> bytes \<Rightarrow> bytes \<Rightarrow> bytes option"
  ed25519_public_key :: "bytes \<Rightarrow> bytes"
  ed25519_point_ok :: "bytes \<Rightarrow> bool"
  ed25519_is_weak :: "bytes \<Rightarrow> bool"
  ed25519_verify_strict :: "bytes \<Rightarrow> bytes \<Rightarrow> bytes \<Rightarrow> bool"
  ed25519_sign :: "bytes \<Rightarrow> bytes \<Rightarrow> bytes"

section \<open>UTF-8\<close>

text \<open>
  The texts a Rust \<open>String\<close> can hold (the table of \<open>core::str::from_utf8\<close>). The model's
  strings are byte lists; the laws about text are stated for these only.
\<close>

definition in_bytes :: "nat \<Rightarrow> nat \<Rightarrow> char \<Rightarrow> bool" where
  "in_bytes lo hi c \<longleftrightarrow> lo \<le> of_char c \<and> of_char c \<le> hi"

definition utf8_second :: "char \<Rightarrow> char \<Rightarrow> bool" where
  "utf8_second a b \<longleftrightarrow>
     (if in_bytes 0xE0 0xE0 a then in_bytes 0xA0 0xBF b
      else if in_bytes 0xED 0xED a then in_bytes 0x80 0x9F b
      else if in_bytes 0xF0 0xF0 a then in_bytes 0x90 0xBF b
      else if in_bytes 0xF4 0xF4 a then in_bytes 0x80 0x8F b
      else in_bytes 0x80 0xBF b)"

definition utf8_width :: "char \<Rightarrow> nat" where
  "utf8_width a =
     (if in_bytes 0 0x7F a then 1 else if in_bytes 0xC2 0xDF a then 2
      else if in_bytes 0xE0 0xEF a then 3 else if in_bytes 0xF0 0xF4 a then 4 else 0)"

fun utf8_valid :: "string \<Rightarrow> bool" where
  "utf8_valid [] \<longleftrightarrow> True"
| "utf8_valid [a] \<longleftrightarrow> utf8_width a = 1"
| "utf8_valid [a, b] \<longleftrightarrow>
     utf8_width a = 1 \<and> utf8_valid [b] \<or> utf8_width a = 2 \<and> utf8_second a b"
| "utf8_valid [a, b, c] \<longleftrightarrow>
     utf8_width a = 1 \<and> utf8_valid [b, c]
     \<or> utf8_width a = 2 \<and> utf8_second a b \<and> utf8_valid [c]
     \<or> utf8_width a = 3 \<and> utf8_second a b \<and> in_bytes 0x80 0xBF c"
| "utf8_valid (a # b # c # d # s) \<longleftrightarrow>
     utf8_width a = 1 \<and> utf8_valid (b # c # d # s)
     \<or> utf8_width a = 2 \<and> utf8_second a b \<and> utf8_valid (c # d # s)
     \<or> utf8_width a = 3 \<and> utf8_second a b \<and> in_bytes 0x80 0xBF c \<and> utf8_valid (d # s)
     \<or> utf8_width a = 4 \<and> utf8_second a b \<and> in_bytes 0x80 0xBF c \<and> in_bytes 0x80 0xBF d
        \<and> utf8_valid s"

definition ascii :: "string \<Rightarrow> bool" where
  "ascii = list_all (in_bytes 0 0x7F)"

lemma ascii_simps [simp]:
  "ascii []" "ascii (c # s) \<longleftrightarrow> in_bytes 0 0x7F c \<and> ascii s" "ascii (s @ t) \<longleftrightarrow> ascii s \<and> ascii t"
  by (simp_all add: ascii_def)

lemma ascii_width: "in_bytes 0 0x7F c \<Longrightarrow> utf8_width c = 1"
  by (simp add: utf8_width_def)

lemma ascii_utf8: "ascii s \<Longrightarrow> utf8_valid s"
  by (induction s rule: utf8_valid.induct) (simp_all add: ascii_width)

declare utf8_valid.simps [simp del]

lemma utf8_Nil [simp]: "utf8_valid []"
  by (simp add: utf8_valid.simps)

section \<open>Which values a document denotes\<close>

text \<open>Keys in order and distinct at every level, no floats, text in UTF-8.\<close>

fun plain_value :: "json \<Rightarrow> bool" where
  "plain_value (JF64 f) \<longleftrightarrow> False"
| "plain_value (JI64 i) \<longleftrightarrow> - (2 ^ 63) \<le> i \<and> i < 0"
| "plain_value (JString s) \<longleftrightarrow> utf8_valid s"
| "plain_value (JArray vs) \<longleftrightarrow> (\<forall>v\<in>set vs. plain_value v)"
| "plain_value (JObject kvs) \<longleftrightarrow>
     sorted_wrt (<) (map fst kvs) \<and> (\<forall>(k, v)\<in>set kvs. utf8_valid k \<and> plain_value v)"
| "plain_value v \<longleftrightarrow> True"

text \<open>The reader's nesting: it refuses a document of more than 127 levels.\<close>

fun json_depth :: "json \<Rightarrow> nat" where
  "json_depth (JArray vs) = Suc (foldr max (map json_depth vs) 0)"
| "json_depth (JObject kvs) = Suc (foldr max (map (\<lambda>(k, v). json_depth v) kvs) 0)"
| "json_depth v = 0"

text \<open>What the reader hands out: text in UTF-8 and numbers in range, members in any order.\<close>

fun readable :: "json \<Rightarrow> bool" where
  "readable (JI64 i) \<longleftrightarrow> - (2 ^ 63) \<le> i \<and> i < 0"
| "readable (JString s) \<longleftrightarrow> utf8_valid s"
| "readable (JArray vs) \<longleftrightarrow> list_all readable vs"
| "readable (JObject kvs) \<longleftrightarrow> list_all (\<lambda>(k, v). utf8_valid k \<and> readable v) kvs"
| "readable v \<longleftrightarrow> True"

section \<open>Laws\<close>

definition json_laws :: "extern \<Rightarrow> bool" where
  "json_laws x \<longleftrightarrow>
     (\<forall>v. plain_value v \<longrightarrow> json_depth v \<le> 127 \<longrightarrow> json_read x (json_write x v) = Some v)
     \<and> (\<forall>raw t. json_read x raw = Some t \<longrightarrow> readable t \<and> json_depth t \<le> 127)"

definition hex_laws :: "extern \<Rightarrow> bool" where
  "hex_laws x \<longleftrightarrow>
     (\<forall>b. length (hex_encode x b) = 2 * length b
        \<and> list_all (\<lambda>c. byte_in CHR ''0'' CHR ''9'' c \<or> byte_in CHR ''a'' CHR ''f'' c) (hex_encode x b)
        \<and> hex_decode_to_slice x (length b) (hex_encode x b) = Some b)
     \<and> (\<forall>n t b. hex_decode_to_slice x n t = Some b \<longrightarrow> length b = n)
     \<and> (\<forall>n t b. hex_decode_to_slice x n t = Some b
          \<longrightarrow> list_all (\<lambda>c. byte_in CHR ''0'' CHR ''9'' c \<or> byte_in CHR ''a'' CHR ''f'' c) t
          \<longrightarrow> hex_encode x b = t)"

text \<open>Strict decoding: the encoding of a byte string is its only spelling, and it is ASCII.\<close>

definition base64_laws :: "extern \<Rightarrow> bool" where
  "base64_laws x \<longleftrightarrow>
     (\<forall>b t. base64_decode x t = Some b \<longleftrightarrow> base64_encode x b = t)
     \<and> (\<forall>b. ascii (base64_encode x b))"

text \<open>
  The formatting of an instant is ASCII and reads back as the instant; it exists for the years 0
  to 9999 only.
\<close>

definition time_laws :: "extern \<Rightarrow> bool" where
  "time_laws x \<longleftrightarrow>
     (\<forall>s t. rfc3339_format x s = Some t \<longrightarrow>
        rfc3339_parse x t = Some s \<and> ascii t \<and> - 62167219200 \<le> s \<and> s \<le> 253402300799)"

text \<open>
  RFC 9180: what is sealed to a public key opens with its private key under the same
  \<open>info\<close>; the encapsulated key has 32 bytes and the tag 16.
\<close>

definition hpke_laws :: "extern \<Rightarrow> bool" where
  "hpke_laws x \<longleftrightarrow>
     (\<forall>e sk i p enc ct. single_shot_seal x e (kem_public_key x sk) i p = Some (enc, ct) \<longrightarrow>
        length enc = 32 \<and> 16 \<le> length ct \<and> kem_encapped_key_ok x enc
        \<and> single_shot_open x sk enc i ct = Some p)"

text \<open>RFC 9180 with X25519: any 32 bytes are a private key, clamped when it is used.\<close>

definition private_key_laws :: "extern \<Rightarrow> bool" where
  "private_key_laws x \<longleftrightarrow> (\<forall>b. length b = 32 \<longrightarrow> kem_private_key_ok x b)"

text \<open>RFC 8032: a signature verifies under the public key of the key that made it.\<close>

definition ed25519_laws :: "extern \<Rightarrow> bool" where
  "ed25519_laws x \<longleftrightarrow>
     (\<forall>k m. length (ed25519_sign x k m) = 64
        \<and> ed25519_point_ok x (ed25519_public_key x k)
        \<and> ed25519_verify_strict x (ed25519_public_key x k) m (ed25519_sign x k m))"

end
