(* ===== verification/Crypto.thy ===== *)
theory Crypto
  imports Externals
begin

text \<open>
  \<open>src/crypto.rs\<close>: the fixed suite around the primitives of the crates. A sealed value is the
  encapsulated key followed by the ciphertext with its tag. \<open>seal\<close> takes the bytes the
  operating system gives as its first argument.
\<close>

datatype crypto_error = CryptoError

definition ENC_LEN :: nat where
  "ENC_LEN = 32"

definition TAG_LEN :: nat where
  "TAG_LEN = 16"

definition seal :: "extern \<Rightarrow> bytes \<Rightarrow> bytes \<Rightarrow> bytes \<Rightarrow> bytes \<Rightarrow> crypto_error + bytes" where
  "seal x entropy recipient info plaintext =
     (if \<not> kem_public_key_ok x recipient then Inl CryptoError
      else
        (case single_shot_seal x entropy recipient info plaintext of
           None \<Rightarrow> Inl CryptoError
         | Some (enc, ciphertext) \<Rightarrow> Inr (enc @ ciphertext)))"

definition open_sealed :: "extern \<Rightarrow> bytes \<Rightarrow> bytes \<Rightarrow> bytes \<Rightarrow> crypto_error + bytes" where
  "open_sealed x key info sealed =
     (if length sealed < ENC_LEN + TAG_LEN then Inl CryptoError
      else
        (let enc = take ENC_LEN sealed; ciphertext = drop ENC_LEN sealed
         in if \<not> kem_encapped_key_ok x enc then Inl CryptoError
            else ok_or CryptoError (single_shot_open x key enc info ciphertext)))"

definition hpke_private_key :: "extern \<Rightarrow> bytes \<Rightarrow> crypto_error + bytes" where
  "hpke_private_key x key = (if kem_private_key_ok x key then Inr key else Inl CryptoError)"

definition hpke_public_key :: "extern \<Rightarrow> bytes \<Rightarrow> bytes" where
  "hpke_public_key x key = kem_public_key x key"

definition verify :: "extern \<Rightarrow> bytes \<Rightarrow> bytes \<Rightarrow> bytes \<Rightarrow> crypto_error + unit" where
  "verify x public_key message sig =
     (if \<not> ed25519_point_ok x public_key then Inl CryptoError
      else ensure (ed25519_verify_strict x public_key message sig) CryptoError)"

definition is_usable_verifying_key :: "extern \<Rightarrow> bytes \<Rightarrow> bool" where
  "is_usable_verifying_key x public_key \<longleftrightarrow>
     ed25519_point_ok x public_key \<and> \<not> ed25519_is_weak x public_key"

definition sign :: "extern \<Rightarrow> bytes \<Rightarrow> bytes \<Rightarrow> bytes" where
  "sign x key message = ed25519_sign x key message"

definition sha256 :: "extern \<Rightarrow> bytes \<Rightarrow> bytes" where
  [simp]: "sha256 x bytes = sha256_digest x bytes"

lemma verify_Inr:
  "verify x k m s = Inr u \<longleftrightarrow> ed25519_point_ok x k \<and> ed25519_verify_strict x k m s"
  by (cases u) (simp add: verify_def result_iff)

lemma seal_opens:
  assumes "hpke_laws x" "seal x e (hpke_public_key x key) info p = Inr sealed"
  shows "open_sealed x key info sealed = Inr p"
  using assms
  by (auto simp: seal_def open_sealed_def hpke_public_key_def hpke_laws_def ENC_LEN_def TAG_LEN_def
      Let_def split: if_splits option.splits) fastforce+

lemma sign_verifies:
  "ed25519_laws x \<Longrightarrow> verify x (ed25519_public_key x key) m (sign x key m) = Inr ()"
  by (simp add: verify_Inr sign_def ed25519_laws_def)

lemma sign_length: "ed25519_laws x \<Longrightarrow> length (sign x key m) = 64"
  by (simp add: sign_def ed25519_laws_def)

end
