(* ===== verification/Json.thy ===== *)
theory Json
  imports Crypto
begin

text \<open>
  Canonical JSON of \<open>src/wire.rs\<close>: the visitor that refuses duplicate keys, \<open>parse\<close>,
  \<open>canonical\<close>, the structural removal of a member, and what serde's derived \<open>Deserialize\<close>
  and \<open>Serialize\<close> do for the structures of the binding.
\<close>

section \<open>The visitor of \<open>reject_duplicate_keys\<close>\<close>

text \<open>
  \<open>visit_seq\<close> and \<open>visit_map\<close> are the two loops; \<open>seen\<close> is the \<open>BTreeSet\<close>. Every other
  visit method accepts.
\<close>

function (sequential)
  visit :: "json \<Rightarrow> bool" and
  visit_seq :: "json list \<Rightarrow> bool" and
  visit_map :: "string set \<Rightarrow> (string \<times> json) list \<Rightarrow> bool"
where
  "visit (JArray vs) = visit_seq vs"
| "visit (JObject kvs) = visit_map {} kvs"
| "visit v = True"
| "visit_seq [] = True"
| "visit_seq (v # vs) = (visit v \<and> visit_seq vs)"
| "visit_map seen [] = True"
| "visit_map seen ((k, v) # kvs) =
     (if k \<in> seen then False else visit v \<and> visit_map (insert k seen) kvs)"
  by pat_completeness auto
termination
  by (relation "measure (\<lambda>x. case x of
        Inl v \<Rightarrow> size v
      | Inr (Inl vs) \<Rightarrow> size_list size vs
      | Inr (Inr (seen, kvs)) \<Rightarrow> size_list (size_prod (\<lambda>_. 0) size) kvs)") auto

section \<open>Values: maps with the keys in order\<close>

text \<open>\<open>BTreeMap::insert\<close>: the order of the keys is kept, a key already there gets the new value.\<close>

fun btree_insert :: "string \<Rightarrow> 'a \<Rightarrow> (string \<times> 'a) list \<Rightarrow> (string \<times> 'a) list" where
  "btree_insert k v [] = [(k, v)]"
| "btree_insert k v ((k', v') # kvs) =
     (if k < k' then (k, v) # (k', v') # kvs
      else if k = k' then (k, v) # kvs
      else (k', v') # btree_insert k v kvs)"

definition btree_of :: "(string \<times> 'a) list \<Rightarrow> (string \<times> 'a) list" where
  "btree_of kvs = foldl (\<lambda>m (k, v). btree_insert k v m) [] kvs"

definition btree_remove :: "string \<Rightarrow> (string \<times> 'a) list \<Rightarrow> (string \<times> 'a) list" where
  "btree_remove k kvs = filter (\<lambda>(k', v). k' \<noteq> k) kvs"

fun to_value :: "json \<Rightarrow> json" where
  "to_value (JArray vs) = JArray (map to_value vs)"
| "to_value (JObject kvs) = JObject (btree_of (map (\<lambda>(k, v). (k, to_value v)) kvs))"
| "to_value v = v"

text \<open>The \<open>json!\<close> object macro and \<open>serde_json::to_value\<close> of a structure.\<close>

definition json_object :: "(string \<times> json) list \<Rightarrow> json" where
  "json_object kvs = JObject (btree_of kvs)"

section \<open>Operations\<close>

fun is_object :: "json \<Rightarrow> bool" where
  "is_object (JObject kvs) = True"
| "is_object v = False"

definition from_slice :: "extern \<Rightarrow> bytes \<Rightarrow> json option" where
  "from_slice x raw = map_option to_value (json_read x raw)"

definition reject_duplicate_keys :: "extern \<Rightarrow> bytes \<Rightarrow> unit option" where
  "reject_duplicate_keys x raw =
     (case json_read x raw of
        None \<Rightarrow> None
      | Some document \<Rightarrow> if visit document then Some () else None)"

definition parse :: "extern \<Rightarrow> bytes \<Rightarrow> json option" where
  "parse x raw =
     (case reject_duplicate_keys x raw of
        None \<Rightarrow> None
      | Some _ \<Rightarrow>
          (case from_slice x raw of
             None \<Rightarrow> None
           | Some v \<Rightarrow> if is_object v then Some v else None))"

definition canonical :: "extern \<Rightarrow> json \<Rightarrow> bytes" where
  "canonical x v = json_write x v"

definition digest :: "extern \<Rightarrow> bytes \<Rightarrow> string" where
  "digest x bs = ''sha256:'' @ hex_encode x (sha256 x bs)"

text \<open>\<open>take\<close> gives the member taken and what is left; \<open>None\<close> leaves the value as it was.\<close>

fun take_field :: "string \<Rightarrow> json \<Rightarrow> (json \<times> json) option" where
  "take_field k (JObject kvs) =
     (case map_of kvs k of
        None \<Rightarrow> None
      | Some v \<Rightarrow> Some (v, JObject (btree_remove k kvs)))"
| "take_field k v = None"

definition take_string :: "string \<Rightarrow> json \<Rightarrow> (string \<times> json) option" where
  "take_string k v =
     (case take_field k v of
        Some (JString t, rest) \<Rightarrow> Some (t, rest)
      | _ \<Rightarrow> None)"

text \<open>\<open>value[key] = v\<close> and \<open>value[key]\<close> on an object (indexing a missing key reads null).\<close>

fun set_field :: "string \<Rightarrow> json \<Rightarrow> json \<Rightarrow> json" where
  "set_field k v (JObject kvs) = JObject (btree_insert k v kvs)"
| "set_field k v w = w"

fun index_field :: "json \<Rightarrow> string \<Rightarrow> json" where
  "index_field (JObject kvs) k = (case map_of kvs k of None \<Rightarrow> JNull | Some v \<Rightarrow> v)"
| "index_field v k = JNull"

section \<open>Derived deserialization\<close>

fun as_str :: "json \<Rightarrow> string option" where
  "as_str (JString s) = Some s"
| "as_str v = None"

fun as_u64 :: "json \<Rightarrow> u64 option" where
  "as_u64 (JU64 n) = Some n"
| "as_u64 v = None"

fun as_vec :: "(json \<Rightarrow> 'a option) \<Rightarrow> json \<Rightarrow> 'a list option" where
  "as_vec decode (JArray vs) = those (map decode vs)"
| "as_vec decode v = None"

text \<open>
  A structure with \<open>deny_unknown_fields\<close> and no defaults: an object with exactly the named
  members, or, as serde's derived visitor also takes a sequence, an array of that many
  elements. The values come in the order of the declaration.
\<close>

fun struct_fields :: "string list \<Rightarrow> json \<Rightarrow> json list option" where
  "struct_fields names (JObject kvs) =
     (if list_all (\<lambda>(k, v). k \<in> set names) kvs then those (map (map_of kvs) names) else None)"
| "struct_fields names (JArray vs) = (if length vs = length names then Some vs else None)"
| "struct_fields names v = None"

section \<open>Duplicate keys\<close>

fun unique_keys :: "json \<Rightarrow> bool" where
  "unique_keys (JArray vs) \<longleftrightarrow> (\<forall>v\<in>set vs. unique_keys v)"
| "unique_keys (JObject kvs) \<longleftrightarrow>
     distinct (map fst kvs) \<and> (\<forall>(k, v)\<in>set kvs. unique_keys v)"
| "unique_keys v \<longleftrightarrow> True"

lemma visit_unique:
  "visit v \<longleftrightarrow> unique_keys v"
  "visit_seq vs \<longleftrightarrow> (\<forall>v\<in>set vs. unique_keys v)"
  "visit_map seen kvs \<longleftrightarrow> seen \<inter> fst ` set kvs = {} \<and> distinct (map fst kvs)
     \<and> (\<forall>(k, v)\<in>set kvs. unique_keys v)"
  by (induction v and vs and seen kvs rule: visit_visit_seq_visit_map.induct) auto

section \<open>Ordered maps\<close>

definition ordered :: "(string \<times> 'a) list \<Rightarrow> bool" where
  "ordered kvs \<longleftrightarrow> sorted_wrt (<) (map fst kvs)"

lemma ordered_simps [simp]:
  "ordered []"
  "ordered ((k, v) # kvs) \<longleftrightarrow> (\<forall>k'\<in>fst ` set kvs. k < k') \<and> ordered kvs"
  by (auto simp: ordered_def)

lemma btree_insert_keys: "fst ` set (btree_insert k v kvs) = insert k (fst ` set kvs)"
  by (induction k v kvs rule: btree_insert.induct) (auto split: if_splits)

lemma btree_insert_ordered: "ordered kvs \<Longrightarrow> ordered (btree_insert k v kvs)"
  by (induction k v kvs rule: btree_insert.induct) (auto simp: btree_insert_keys)

lemma btree_insert_map_of: "map_of (btree_insert k v kvs) = (map_of kvs)(k \<mapsto> v)" if "ordered kvs"
  using that by (induction k v kvs rule: btree_insert.induct) (auto simp: fun_upd_twist)

lemma btree_fold:
  assumes "ordered m"
  shows "ordered (foldl (\<lambda>m (k, v). btree_insert k v m) m kvs)"
    "map_of (foldl (\<lambda>m (k, v). btree_insert k v m) m kvs) = map_of m ++ map_of (rev kvs)"
  using assms
  by (induction kvs arbitrary: m)
    (auto simp: btree_insert_ordered btree_insert_map_of map_add_def fun_eq_iff split: option.splits)

lemma btree_of_ordered [simp]: "ordered (btree_of kvs)"
  by (simp add: btree_of_def btree_fold)

lemma map_of_btree_of: "map_of (btree_of kvs) = map_of (rev kvs)"
  by (simp add: btree_of_def btree_fold)

lemma ordered_distinct: "ordered kvs \<Longrightarrow> distinct (map fst kvs)"
  unfolding ordered_def
proof (induction kvs)
  case (Cons p kvs)
  then show ?case by (cases p) auto
qed simp

lemma map_of_btree_of_distinct: "distinct (map fst kvs) \<Longrightarrow> map_of (btree_of kvs) = map_of kvs"
proof -
  assume "distinct (map fst kvs)"
  then have "map_of (rev kvs) = map_of kvs"
    by (subst map_of_inject_set) (simp_all flip: rev_map)
  then show ?thesis
    by (simp add: map_of_btree_of)
qed

lemma ordered_eq:
  "ordered kvs \<Longrightarrow> ordered lvs \<Longrightarrow> map_of kvs = map_of lvs \<Longrightarrow> kvs = lvs"
proof (induction kvs arbitrary: lvs)
  case Nil
  then show ?case by (cases lvs) (auto simp: fun_eq_iff split: if_splits)
next
  case (Cons p kvs)
  obtain k v where p: "p = (k, v)" by force
  have dom: "fst ` set (p # kvs) = fst ` set lvs"
    using Cons.prems(3) by (metis dom_map_of_conv_image_fst)
  obtain l w lvs' where lvs: "lvs = (l, w) # lvs'"
    using dom by (cases lvs) auto
  have kl: "k = l"
    using dom Cons.prems(1,2) p lvs by (auto dest: order_less_trans) (metis (no_types, lifting) image_iff insertCI insertE not_less_iff_gr_or_eq order_less_trans)
  then have vw: "v = w"
    using Cons.prems(3) p lvs by (metis map_of_Cons_code(2) option.inject)
  have "map_of kvs = map_of lvs'"
  proof
    fix q
    have "map_of kvs k = None" "map_of lvs' k = None"
      using Cons.prems(1,2) p lvs kl by (auto simp: map_of_eq_None_iff)
    then show "map_of kvs q = map_of lvs' q"
      using fun_cong [OF Cons.prems(3), of q] p lvs kl by (auto split: if_splits)
  qed
  then show ?case
    using Cons.IH Cons.prems p lvs kl vw by auto
qed

lemma btree_of_ordered_id: "ordered kvs \<Longrightarrow> btree_of kvs = kvs"
  by (rule ordered_eq) (simp_all add: map_of_btree_of_distinct ordered_distinct)

lemma map_of_btree_remove: "map_of (btree_remove k kvs) q = (if q = k then None else map_of kvs q)"
  by (induction kvs) (auto simp: btree_remove_def)

lemma btree_remove_ordered: "ordered kvs \<Longrightarrow> ordered (btree_remove k kvs)"
  by (induction kvs) (auto simp: btree_remove_def)

section \<open>What parsing and canonical bytes promise\<close>

fun ordered_value :: "json \<Rightarrow> bool" where
  "ordered_value (JArray vs) \<longleftrightarrow> (\<forall>v\<in>set vs. ordered_value v)"
| "ordered_value (JObject kvs) \<longleftrightarrow> ordered kvs \<and> (\<forall>(k, v)\<in>set kvs. ordered_value v)"
| "ordered_value v \<longleftrightarrow> True"

lemma plain_ordered: "plain_value v \<Longrightarrow> ordered_value v"
  by (induction v) (fastforce simp: ordered_def)+

lemma to_value_ordered_id: "ordered_value v \<Longrightarrow> to_value v = v"
proof (induction v)
  case (JArray vs)
  then show ?case by (simp add: map_idI)
next
  case (JObject kvs)
  have "map (\<lambda>(k, v). (k, to_value v)) kvs = kvs"
    using JObject by (intro map_idI) (fastforce simp: snds.simps)
  then show ?case
    using JObject by (simp add: btree_of_ordered_id)
qed auto

lemma btree_of_values: "(k, v) \<in> set (btree_of kvs) \<Longrightarrow> (k, v) \<in> set kvs"
proof -
  assume "(k, v) \<in> set (btree_of kvs)"
  then have "map_of (btree_of kvs) k = Some v"
    by (simp add: ordered_distinct)
  then show ?thesis
    by (auto simp: map_of_btree_of dest: map_of_SomeD)
qed

lemma to_value_ordered: "ordered_value (to_value t)"
  by (induction t) (fastforce dest: btree_of_values simp: snds.simps)+

lemma ordered_unique: "ordered_value v \<Longrightarrow> unique_keys v"
  by (induction v) (fastforce simp: ordered_distinct)+

lemma is_object_iff: "is_object v \<longleftrightarrow> (\<exists>kvs. v = JObject kvs)"
  by (cases v) auto

lemma is_object_to_value [simp]: "is_object (to_value t) \<longleftrightarrow> is_object t"
  by (cases t) auto

lemma parse_iff:
  "parse x raw = Some v \<longleftrightarrow>
     (\<exists>t. json_read x raw = Some t \<and> unique_keys t \<and> is_object t \<and> v = to_value t)"
  by (auto simp: parse_def reject_duplicate_keys_def from_slice_def visit_unique split: option.splits)

lemma parse_object: "parse x raw = Some v \<Longrightarrow> is_object v \<and> ordered_value v"
  by (auto simp: parse_iff to_value_ordered)

lemma canonical_reads:
  "json_laws x \<Longrightarrow> plain_value v \<Longrightarrow> json_depth v \<le> 127 \<Longrightarrow> json_read x (canonical x v) = Some v"
  by (simp add: json_laws_def canonical_def)

lemma parse_canonical:
  assumes "json_laws x" "plain_value v" "json_depth v \<le> 127" "is_object v"
  shows "parse x (canonical x v) = Some v"
  using assms canonical_reads [OF assms(1-3)] plain_ordered [OF assms(2)]
  by (auto simp: parse_iff ordered_unique to_value_ordered_id intro!: exI [of _ v])

lemma canonical_inject:
  assumes "json_laws x" "plain_value v" "plain_value w" "json_depth v \<le> 127" "json_depth w \<le> 127"
  shows "canonical x v = canonical x w \<longleftrightarrow> v = w"
  using canonical_reads [OF assms(1,2,4)] canonical_reads [OF assms(1,3,5)] by (metis option.inject)

text \<open>A flat array of text and numbers, the shape of every canonical tuple.\<close>

fun scalar :: "json \<Rightarrow> bool" where
  "scalar (JString s) \<longleftrightarrow> utf8_valid s"
| "scalar (JU64 n) \<longleftrightarrow> True"
| "scalar v \<longleftrightarrow> False"

lemma scalar_plain: "scalar v \<Longrightarrow> plain_value v \<and> json_depth v = 0"
  by (cases v) auto

lemma depth_scalars: "list_all scalar vs \<Longrightarrow> foldr max (map json_depth vs) 0 = 0"
  by (induction vs) (auto dest: scalar_plain)

lemma canonical_tuple_inject:
  assumes "json_laws x" "list_all scalar vs" "list_all scalar ws"
  shows "canonical x (JArray vs) = canonical x (JArray ws) \<longleftrightarrow> vs = ws"
  using assms depth_scalars [OF assms(2)] depth_scalars [OF assms(3)]
  by (subst canonical_inject) (auto simp: list_all_iff dest: scalar_plain)

section \<open>Members taken and structures read\<close>

lemma take_string_iff:
  "take_string k v = Some (t, rest) \<longleftrightarrow>
     (\<exists>kvs. v = JObject kvs \<and> map_of kvs k = Some (JString t) \<and> rest = JObject (btree_remove k kvs))"
  by (cases v) (auto simp: take_string_def split: option.splits json.splits)

lemma take_string_object: "take_string k v = Some (t, rest) \<Longrightarrow> is_object rest"
  by (auto simp: take_string_iff)

lemma as_str_iff [simp]: "as_str v = Some s \<longleftrightarrow> v = JString s"
  by (cases v) auto

lemma as_u64_iff [simp]: "as_u64 v = Some n \<longleftrightarrow> v = JU64 n"
  by (cases v) auto

lemma those_iff: "those xs = Some ys \<longleftrightarrow> xs = map Some ys"
  by (induction xs arbitrary: ys) (auto split: option.splits)

lemma struct_fields_object:
  "struct_fields names (JObject kvs) = Some vs \<longleftrightarrow>
     fst ` set kvs \<subseteq> set names \<and> map (map_of kvs) names = map Some vs"
  by (auto simp: those_iff list_all_iff)

lemma struct_fields_length: "struct_fields names v = Some vs \<Longrightarrow> length vs = length names"
  by (cases v) (auto simp: those_iff dest: arg_cong [of _ _ length] split: if_splits)

end
