(* ===== verification/Encodings.thy ===== *)
theory Encodings
  imports Json
begin

text \<open>
  The field encodings of \<open>src/wire.rs\<close>: hex, digests, component identifiers, base64,
  signatures, sequences, timestamps and durations, and what each accepts.
\<close>

section \<open>Encodings\<close>

definition MAX_SAFE_INTEGER :: u64 where
  "MAX_SAFE_INTEGER = push_bit 53 1 - 1"

definition lowercase_hex :: "char \<Rightarrow> bool" where
  "lowercase_hex c \<longleftrightarrow> byte_in CHR ''0'' CHR ''9'' c \<or> byte_in CHR ''a'' CHR ''f'' c"

definition hex_bytes :: "extern \<Rightarrow> nat \<Rightarrow> string \<Rightarrow> bytes option" where
  "hex_bytes x n text =
     (let lowercase = list_all lowercase_hex text
      in if lowercase \<and> length text = 2 * n then hex_decode_to_slice x n text else None)"

definition hex32 :: "extern \<Rightarrow> string \<Rightarrow> bytes option" where
  "hex32 x text = hex_bytes x 32 text"

definition is_digest :: "extern \<Rightarrow> string \<Rightarrow> bool" where
  "is_digest x text \<longleftrightarrow>
     Option.bind (strip_prefix ''sha256:'' text) (hex32 x) \<noteq> None"

definition component_char :: "char \<Rightarrow> bool" where
  "component_char c \<longleftrightarrow>
     byte_in CHR ''a'' CHR ''z'' c \<or> byte_in CHR ''0'' CHR ''9'' c \<or> c = CHR ''-''"

definition is_component_id :: "string \<Rightarrow> bool" where
  "is_component_id text \<longleftrightarrow>
     (case strip_prefix ''onym:component:'' text of
        None \<Rightarrow> False
      | Some i \<Rightarrow> 1 \<le> length i \<and> length i \<le> 64 \<and> list_all component_char i)"

definition base64 :: "extern \<Rightarrow> string \<Rightarrow> bytes option" where
  "base64 x text = base64_decode x text"

definition signature :: "extern \<Rightarrow> string \<Rightarrow> bytes option" where
  "signature x text =
     Option.bind (base64 x text) (\<lambda>b. if length b = 64 then Some b else None)"

definition sequence :: "u64 \<Rightarrow> u64 option" where
  "sequence v = (if 1 \<le> v \<and> v \<le> MAX_SAFE_INTEGER then Some v else None)"

definition format_timestamp :: "extern \<Rightarrow> i64 \<Rightarrow> string option" where
  "format_timestamp x unix_seconds = rfc3339_format x unix_seconds"

definition timestamp :: "extern \<Rightarrow> string \<Rightarrow> i64 option" where
  "timestamp x text =
     Option.bind (rfc3339_parse x text) (\<lambda>seconds.
     Option.bind (format_timestamp x seconds) (\<lambda>formatted.
       if formatted = text then Some seconds else None))"

section \<open>Durations\<close>

definition is_ascii_digit :: "char \<Rightarrow> bool" where
  "is_ascii_digit c \<longleftrightarrow> byte_in CHR ''0'' CHR ''9'' c"

definition decimal :: "string \<Rightarrow> int" where
  "decimal ds = foldl (\<lambda>n c. 10 * n + (int (of_char c) - 48)) 0 ds"

text \<open>\<open>Display\<close> of an unsigned number.\<close>

fun decimal_text :: "nat \<Rightarrow> string" where
  "decimal_text n =
     (if n < 10 then [char_of (48 + n)]
      else decimal_text (n div 10) @ [char_of (48 + n mod 10)])"

declare decimal_text.simps [simp del]

text \<open>\<open>str::parse::<i64>\<close> on digits: an error when there are none or the number is too large.\<close>

definition parse_i64 :: "string \<Rightarrow> i64 option" where
  "parse_i64 ds =
     (if ds \<noteq> [] \<and> list_all is_ascii_digit ds \<and> in_i64 (decimal ds) then Some (decimal ds)
      else None)"

text \<open>
  The inner loop of \<open>duration\<close>, over the units of one part. The state is what is left of the
  part, the seconds and the number of components.
\<close>

fun duration_units ::
  "(char \<times> i64) list \<Rightarrow> string \<Rightarrow> i64 \<Rightarrow> nat \<Rightarrow> (string \<times> i64 \<times> nat) option" where
  "duration_units [] part seconds components = Some (part, seconds, components)"
| "duration_units ((unit, scale) # units) part seconds components =
     (case split_once unit part of
        None \<Rightarrow> duration_units units part seconds components
      | Some (digits, rest) \<Rightarrow>
          if digits = [] \<or> 6 < length digits \<or> \<not> list_all is_ascii_digit digits then None
          else
            (case parse_i64 digits of
               None \<Rightarrow> None
             | Some n \<Rightarrow>
                 duration_units units rest (i64_add seconds (i64_mul n scale)) (components + 1)))"

fun duration_parts ::
  "(string \<times> (char \<times> i64) list) list \<Rightarrow> i64 \<Rightarrow> nat \<Rightarrow> (i64 \<times> nat) option" where
  "duration_parts [] seconds components = Some (seconds, components)"
| "duration_parts ((part, units) # parts) seconds components =
     (case duration_units units part seconds components of
        None \<Rightarrow> None
      | Some (rest, seconds, components) \<Rightarrow>
          if rest \<noteq> [] then None else duration_parts parts seconds components)"

definition date_units :: "(char \<times> i64) list" where
  "date_units = [(CHR ''D'', 86400)]"

definition time_units :: "(char \<times> i64) list" where
  "time_units = [(CHR ''H'', 3600), (CHR ''M'', 60), (CHR ''S'', 1)]"

definition duration :: "string \<Rightarrow> i64 option" where
  "duration text =
     Option.bind (strip_prefix ''P'' text) (\<lambda>body.
     Option.bind
       (case split_once CHR ''T'' body of
          Some (date, time) \<Rightarrow> if time = [] then None else Some (date, time)
        | None \<Rightarrow> Some (body, [])) (\<lambda>(date, time).
     Option.bind (duration_parts [(date, date_units), (time, time_units)] 0 0)
       (\<lambda>(seconds, components). if 0 < components then Some seconds else None)))"

section \<open>One spelling per value\<close>

lemma hex_bytes_iff:
  assumes "hex_laws x"
  shows "hex_bytes x n t = Some b \<longleftrightarrow> length b = n \<and> t = hex_encode x b"
proof
  assume "hex_bytes x n t = Some b"
  then have "list_all lowercase_hex t" "hex_decode_to_slice x n t = Some b"
    by (auto simp: hex_bytes_def Let_def split: if_splits)
  then show "length b = n \<and> t = hex_encode x b"
    using assms unfolding hex_laws_def lowercase_hex_def by blast
next
  assume "length b = n \<and> t = hex_encode x b"
  then show "hex_bytes x n t = Some b"
    using assms unfolding hex_laws_def lowercase_hex_def [symmetric]
    by (clarsimp simp: hex_bytes_def)
qed

lemma hex32_iff:
  "hex_laws x \<Longrightarrow> hex32 x t = Some b \<longleftrightarrow> length b = 32 \<and> t = hex_encode x b"
  by (simp add: hex32_def hex_bytes_iff)

lemma hex32_text:
  "hex32 x t = Some b \<Longrightarrow> length t = 64 \<and> list_all lowercase_hex t"
  by (auto simp: hex32_def hex_bytes_def Let_def split: if_splits)

lemma is_digest_iff: "is_digest x t \<longleftrightarrow> (\<exists>h b. t = ''sha256:'' @ h \<and> hex32 x h = Some b)"
  by (auto simp: is_digest_def bind_eq_Some_conv simp flip: not_None_eq)

lemma char_le_of_char: "(c :: char) \<le> d \<longleftrightarrow> of_char c \<le> (of_char d :: nat)"
  by (simp add: less_eq_char_def)

lemma lowercase_hex_ascii: "lowercase_hex c \<Longrightarrow> in_bytes 0 0x7F c"
  by (auto simp: lowercase_hex_def byte_in_def in_bytes_def char_le_of_char)

lemma hex32_ascii: "hex32 x t = Some b \<Longrightarrow> ascii t"
  by (auto dest!: hex32_text simp: ascii_def list_all_iff lowercase_hex_ascii)

lemma is_digest_ascii: "is_digest x t \<Longrightarrow> ascii t"
  by (auto simp: is_digest_iff in_bytes_def dest: hex32_ascii)

lemma component_char_ascii: "component_char c \<Longrightarrow> in_bytes 0 0x7F c"
  by (auto simp: component_char_def byte_in_def in_bytes_def char_le_of_char)

lemma is_component_id_ascii: "is_component_id t \<Longrightarrow> ascii t"
  by (auto simp: is_component_id_def in_bytes_def ascii_def list_all_iff
      dest: component_char_ascii [unfolded in_bytes_def] split: option.splits)

lemma hex_encode_ascii: "hex_laws x \<Longrightarrow> ascii (hex_encode x b)"
  by (auto simp: hex_laws_def ascii_def list_all_iff lowercase_hex_def [symmetric]
      intro!: lowercase_hex_ascii)

lemma digest_ascii: "hex_laws x \<Longrightarrow> ascii (digest x b)"
  by (simp add: digest_def hex_encode_ascii in_bytes_def)

lemma signature_iff:
  "base64_laws x \<Longrightarrow> signature x t = Some b \<longleftrightarrow> length b = 64 \<and> t = base64_encode x b"
  by (auto simp: signature_def base64_def base64_laws_def bind_eq_Some_conv)

lemma sequence_iff: "sequence v = Some w \<longleftrightarrow> w = v \<and> 1 \<le> unat v \<and> unat v < 2 ^ 53"
  by (auto simp: sequence_def MAX_SAFE_INTEGER_def word_le_nat_alt)

lemma timestamp_iff:
  "time_laws x \<Longrightarrow> timestamp x t = Some s \<longleftrightarrow> format_timestamp x s = Some t"
  by (auto simp: timestamp_def format_timestamp_def time_laws_def bind_eq_Some_conv)

section \<open>The grammar of durations\<close>

text \<open>
  A component is absent or one to six digits before its unit; \<open>spell\<close> writes the components
  of one part in the order of its units, \<open>amount\<close> adds them up.
\<close>

fun component_ok :: "string option \<Rightarrow> bool" where
  "component_ok None \<longleftrightarrow> True"
| "component_ok (Some ds) \<longleftrightarrow> ds \<noteq> [] \<and> length ds \<le> 6 \<and> list_all is_ascii_digit ds"

fun spell :: "(char \<times> i64) list \<Rightarrow> string option list \<Rightarrow> string" where
  "spell ((unit, scale) # units) (Some ds # cs) = ds @ unit # spell units cs"
| "spell ((unit, scale) # units) (None # cs) = spell units cs"
| "spell units cs = []"

fun amount :: "(char \<times> i64) list \<Rightarrow> string option list \<Rightarrow> int" where
  "amount ((unit, scale) # units) (Some ds # cs) = decimal ds * scale + amount units cs"
| "amount ((unit, scale) # units) (None # cs) = amount units cs"
| "amount units cs = 0"

definition given :: "string option list \<Rightarrow> nat" where
  "given cs = length (filter (\<lambda>c. c \<noteq> None) cs)"

lemma given_simps [simp]:
  "given [] = 0" "given (None # cs) = given cs" "given (Some ds # cs) = Suc (given cs)"
  by (simp_all add: given_def)

definition units_ok :: "(char \<times> i64) list \<Rightarrow> bool" where
  "units_ok units \<longleftrightarrow> distinct (map fst units) \<and> list_all (\<lambda>(u, scale). \<not> is_ascii_digit u \<and> 0 < scale) units"

lemma digit_value: "is_ascii_digit c \<Longrightarrow> 0 \<le> int (of_char c) - 48 \<and> int (of_char c) - 48 \<le> 9"
  by (auto simp: is_ascii_digit_def byte_in_def char_le_of_char)

lemma decimal_snoc: "decimal (ds @ [c]) = 10 * decimal ds + (int (of_char c) - 48)"
  by (simp add: decimal_def)

lemma digit_char: "n < 10 \<Longrightarrow> is_ascii_digit (char_of (48 + n)) \<and> of_char (char_of (48 + n)) = (48 + n :: nat)"
  by (simp add: is_ascii_digit_def byte_in_def char_le_of_char)

lemma decimal_text_digits: "list_all is_ascii_digit (decimal_text n) \<and> decimal_text n \<noteq> []"
proof (induction n rule: decimal_text.induct)
  case (1 n)
  then show ?case
    using digit_char [of n] digit_char [of "n mod 10"]
    by (cases "n < 10") (simp_all add: decimal_text.simps [of n])
qed

lemma decimal_of_text: "decimal (decimal_text n) = int n"
proof (induction n rule: decimal_text.induct)
  case (1 n)
  show ?case
  proof (cases "n < 10")
    case True
    then show ?thesis
      using digit_char [of n] by (simp add: decimal_text.simps [of n] decimal_def)
  next
    case False
    have "int (of_char (char_of (48 + n mod 10))) = 48 + int (n mod 10)"
      using digit_char [of "n mod 10"] by simp
    then show ?thesis
      using 1 False by (simp add: decimal_text.simps [of n] decimal_snoc zmod_int zdiv_int)
  qed
qed

lemma decimal_text_inject: "decimal_text m = decimal_text n \<longleftrightarrow> m = n"
  by (metis decimal_of_text of_nat_eq_iff)

lemma decimal_bound: "list_all is_ascii_digit ds \<Longrightarrow> 0 \<le> decimal ds \<and> decimal ds < 10 ^ length ds"
proof (induction ds rule: rev_induct)
  case Nil
  then show ?case by (simp add: decimal_def)
next
  case (snoc c ds)
  then show ?case
    using digit_value [of c] by (simp add: decimal_snoc)
qed

lemma component_bound:
  assumes "component_ok (Some ds)"
  shows "0 \<le> decimal ds" "decimal ds \<le> 999999"
proof -
  have *: "0 \<le> decimal ds" "decimal ds < 10 ^ length ds" "length ds \<le> 6"
    using assms decimal_bound [of ds] by auto
  have "(10 :: int) ^ length ds \<le> 10 ^ 6"
    by (rule power_increasing) (use *(3) in auto)
  then show "0 \<le> decimal ds" "decimal ds \<le> 999999"
    using * by auto
qed

lemma parse_component: "component_ok (Some ds) \<Longrightarrow> parse_i64 ds = Some (decimal ds)"
  using component_bound [of ds] by (auto simp: parse_i64_def in_i64_def)

lemma component_no_unit: "component_ok (Some ds) \<Longrightarrow> \<not> is_ascii_digit u \<Longrightarrow> u \<notin> set ds"
  by (auto simp: list_all_iff)

lemma spell_unit:
  "u \<in> set (spell units cs) \<Longrightarrow> list_all component_ok cs \<Longrightarrow> \<not> is_ascii_digit u \<Longrightarrow> u \<in> fst ` set units"
  by (induction units cs rule: spell.induct) (auto dest: component_no_unit simp del: component_ok.simps)

lemma units_ok_Cons:
  "units_ok ((u, scale) # units) \<longleftrightarrow>
     units_ok units \<and> u \<notin> fst ` set units \<and> \<not> is_ascii_digit u \<and> 0 < scale"
  by (auto simp: units_ok_def)

lemma amount_bound:
  assumes "units_ok units" "length cs = length units" "list_all component_ok cs"
  shows "0 \<le> amount units cs \<and> amount units cs \<le> 999999 * sum_list (map snd units)"
  using assms
proof (induction units cs rule: spell.induct)
  case (1 u scale units ds cs)
  then have IH: "0 \<le> amount units cs \<and> amount units cs \<le> 999999 * sum_list (map snd units)"
    by (simp add: units_ok_Cons)
  have "0 \<le> decimal ds * scale \<and> decimal ds * scale \<le> 999999 * scale"
    using component_bound [of ds] 1(2,4) by (auto simp: units_ok_Cons)
  with IH show ?case by (simp add: distrib_left)
next
  case (2 u scale units cs)
  then have "0 \<le> amount units cs \<and> amount units cs \<le> 999999 * sum_list (map snd units)" "0 < scale"
    by (simp_all add: units_ok_Cons)
  then show ?case by simp
qed auto

lemma duration_units_spell:
  assumes "units_ok units" "length cs = length units" "list_all component_ok cs"
    and "0 \<le> s" "s + 999999 * sum_list (map snd units) < 2 ^ 63"
  shows "duration_units units (spell units cs) s k = Some ([], s + amount units cs, k + given cs)"
  using assms
proof (induction units cs arbitrary: s k rule: spell.induct)
  case (1 u scale units ds cs)
  have d: "component_ok (Some ds)" and u: "\<not> is_ascii_digit u" "0 < scale" "units_ok units"
    using 1 by (auto simp: units_ok_Cons)
  have split: "split_once u (ds @ u # spell units cs) = Some (ds, spell units cs)"
    using component_no_unit [OF d u(1)] by (simp add: split_once_Some)
  have b: "0 \<le> decimal ds * scale" "decimal ds * scale \<le> 999999 * scale"
    using component_bound [OF d] u(2) by auto
  have rest: "0 \<le> sum_list (map snd units)"
    using u(3) by (intro sum_list_nonneg) (auto simp: units_ok_def list_all_iff)
  have exact: "i64_add s (i64_mul (decimal ds) scale) = s + decimal ds * scale"
    using b rest 1(5,6) by (simp add: i64_exact in_i64_def distrib_left)
  have "duration_units units (spell units cs) (s + decimal ds * scale) (k + 1)
      = Some ([], s + decimal ds * scale + amount units cs, k + 1 + given cs)"
    by (rule 1(1)) (use 1(3-6) b u(3) in \<open>auto simp: distrib_left\<close>)
  then show ?case
    using d by (simp add: split parse_component [OF d] exact)
next
  case (2 u scale units cs)
  have "u \<notin> set (spell units cs)"
    using 2 spell_unit [of u units cs] by (auto simp: units_ok_Cons)
  then have "split_once u (spell units cs) = None"
    by (simp add: split_once_None)
  moreover have "duration_units units (spell units cs) s k = Some ([], s + amount units cs, k + given cs)"
    by (rule 2(1)) (use 2(2-6) in \<open>auto simp: units_ok_Cons distrib_left\<close>)
  ultimately show ?case by simp
qed auto

lemma duration_units_read:
  assumes "duration_units units part s k = Some ([], s', k')"
  shows "\<exists>cs. length cs = length units \<and> list_all component_ok cs \<and> part = spell units cs"
  using assms
proof (induction units part s k rule: duration_units.induct)
  case (2 u scale units part s k)
  show ?case
  proof (cases "split_once u part")
    case None
    then obtain cs where "length cs = length units" "list_all component_ok cs" "part = spell units cs"
      using 2 by auto
    then show ?thesis
      by (intro exI [of _ "None # cs"]) simp
  next
    case (Some p)
    obtain ds rest where p: "p = (ds, rest)" by force
    have d: "component_ok (Some ds)"
      using "2.prems" Some p by (simp split: if_splits)
    have ok: "\<not> (ds = [] \<or> 6 < length ds \<or> \<not> list_all is_ascii_digit ds)"
      using d by simp
    have "duration_units units rest (i64_add s (i64_mul (decimal ds) scale)) (k + 1) = Some ([], s', k')"
      using "2.prems" ok by (simp add: Some p parse_component [OF d])
    then obtain cs where "length cs = length units" "list_all component_ok cs" "rest = spell units cs"
      using "2.IH"(2) [OF Some p [symmetric] ok parse_component [OF d]] by blast
    moreover have "part = ds @ u # rest"
      using Some p by (simp add: split_once_Some)
    ultimately show ?thesis
      using d by (intro exI [of _ "Some ds # cs"]) simp
  qed
qed auto


lemma units_are_ok: "units_ok date_units" "units_ok time_units"
  by (simp_all add: units_ok_def date_units_def time_units_def is_ascii_digit_def byte_in_def
      char_le_of_char)

lemma spell_Nil: "length cs = length units \<Longrightarrow> spell units cs = [] \<longleftrightarrow> given cs = 0"
  by (induction units cs rule: spell.induct) auto

lemma parts_iff:
  "duration_parts [(date, date_units), (time, time_units)] 0 0 = Some (n, k) \<longleftrightarrow>
     (\<exists>day clock. length clock = 3 \<and> list_all component_ok (day # clock)
        \<and> date = spell date_units [day] \<and> time = spell time_units clock
        \<and> n = amount date_units [day] + amount time_units clock \<and> k = given (day # clock))"
    (is "?read \<longleftrightarrow> ?written")
proof -
  have date: "duration_units date_units (spell date_units [day]) 0 0
      = Some ([], amount date_units [day], given [day])" if "component_ok day" for day
    using duration_units_spell [OF units_are_ok(1), of "[day]" 0 0] that
    by (simp add: date_units_def)
  have time: "duration_units time_units (spell time_units clock) (amount date_units [day]) k
      = Some ([], amount date_units [day] + amount time_units clock, k + given clock)"
    if "component_ok day" "length clock = 3" "list_all component_ok clock" for day clock k
    using duration_units_spell [OF units_are_ok(2), of clock "amount date_units [day]" k] that
      amount_bound [OF units_are_ok(1), of "[day]"]
    by (simp add: date_units_def time_units_def)
  have add: "given [day] + given clock = given (day # clock)" for day clock
    by (cases day) simp_all
  show ?thesis
  proof
    assume ?read
    then obtain s k1 s2 where
      d: "duration_units date_units date 0 0 = Some ([], s, k1)" and
      t: "duration_units time_units time s k1 = Some ([], n, k)"
      by (auto split: option.splits if_splits)
    obtain day where day: "component_ok day" "date = spell date_units [day]"
      using duration_units_read [OF d] by (auto simp: date_units_def length_Suc_conv)
    obtain clock where clock: "length clock = 3" "list_all component_ok clock" "time = spell time_units clock"
    proof -
      have "length time_units = 3"
        by (simp add: time_units_def)
      then show ?thesis
        using duration_units_read [OF t] that by auto
    qed
    have "s = amount date_units [day]" "k1 = given [day]"
      using date [OF day(1)] d day(2) by simp_all
    then have "n = amount date_units [day] + amount time_units clock" "k = given (day # clock)"
      using time [OF day(1) clock(1,2), of k1] t clock(3) add by auto
    then show ?written
      using day clock by (intro exI [of _ day] exI [of _ clock]) simp
  next
    assume ?written
    then obtain day clock where w: "length clock = 3" "list_all component_ok (day # clock)"
      "date = spell date_units [day]" "time = spell time_units clock"
      "n = amount date_units [day] + amount time_units clock" "k = given (day # clock)"
      by blast
    then show ?read
      using date [of day] time [of day clock "given [day]"] add [of day clock] by simp
  qed
qed

lemma spell_no_T:
  "list_all component_ok cs \<Longrightarrow> units = date_units \<or> units = time_units \<Longrightarrow> CHR ''T'' \<notin> set (spell units cs)"
  using spell_unit [of "CHR ''T''" units cs]
  by (auto simp: date_units_def time_units_def is_ascii_digit_def byte_in_def char_le_of_char)

text \<open>The text of a duration: the days, then the time after a \<open>T\<close> when there is any.\<close>

definition duration_text :: "string option \<Rightarrow> string option list \<Rightarrow> string" where
  "duration_text day clock =
     ''P'' @ spell date_units [day]
     @ (if given clock = 0 then [] else CHR ''T'' # spell time_units clock)"

lemma duration_iff:
  "duration text = Some n \<longleftrightarrow>
     (\<exists>day clock. length clock = 3 \<and> list_all component_ok (day # clock)
        \<and> 0 < given (day # clock) \<and> text = duration_text day clock
        \<and> n = amount date_units [day] + amount time_units clock)"
    (is "?read \<longleftrightarrow> ?written")
proof
  assume ?read
  then obtain body date time k where body: "text = CHR ''P'' # body" "0 < k"
    and split: "(case split_once CHR ''T'' body of
          Some (date, time) \<Rightarrow> if time = [] then None else Some (date, time)
        | None \<Rightarrow> Some (body, [])) = Some (date, time)"
    and parts: "duration_parts [(date, date_units), (time, time_units)] 0 0 = Some (n, k)"
    by (auto simp: duration_def bind_eq_Some_conv split: if_splits)
  obtain day clock where w: "length clock = 3" "list_all component_ok (day # clock)"
      "date = spell date_units [day]" "time = spell time_units clock"
      "n = amount date_units [day] + amount time_units clock" "k = given (day # clock)"
    using parts unfolding parts_iff by blast
  have "time = [] \<longleftrightarrow> given clock = 0"
    using w(1,4) by (simp add: spell_Nil time_units_def)
  moreover have "body = (if time = [] then date else date @ CHR ''T'' # time)"
    using split by (auto simp: split_once_Some split: option.splits if_splits)
  ultimately have "text = duration_text day clock"
    using w body by (simp add: duration_text_def)
  with w body show ?written by blast
next
  assume ?written
  then obtain day clock where w: "length clock = 3" "list_all component_ok (day # clock)"
      "0 < given (day # clock)" "text = duration_text day clock"
      "n = amount date_units [day] + amount time_units clock"
    by blast
  let ?date = "spell date_units [day]" and ?time = "spell time_units clock"
  have Nil: "?time = [] \<longleftrightarrow> given clock = 0"
    using w(1) by (simp add: spell_Nil time_units_def)
  have noT: "CHR ''T'' \<notin> set ?date"
    using spell_no_T [of "[day]" date_units] w(2) by simp
  have parts: "duration_parts [(?date, date_units), (?time, time_units)] 0 0 = Some (n, given (day # clock))"
    unfolding parts_iff using w by blast
  show ?read
  proof (cases "given clock = 0")
    case True
    then show ?thesis
      using w noT Nil parts
      by (simp add: duration_def duration_text_def split_once_None [THEN iffD2] del: duration_parts.simps)
  next
    case False
    then have "split_once CHR ''T'' (?date @ CHR ''T'' # ?time) = Some (?date, ?time)"
      using noT by (simp add: split_once_Some)
    then show ?thesis
      using w Nil parts False
      by (simp add: duration_def duration_text_def del: duration_parts.simps)
  qed
qed

lemma duration_bound:
  assumes "duration text = Some n"
  shows "0 \<le> n \<and> n \<le> 999999 * 90061"
proof -
  obtain day clock where w: "length clock = 3" "list_all component_ok (day # clock)"
      "n = amount date_units [day] + amount time_units clock"
    using assms unfolding duration_iff by blast
  then show ?thesis
    using amount_bound [OF units_are_ok(1), of "[day]"] amount_bound [OF units_are_ok(2), of clock]
    by (simp add: date_units_def time_units_def)
qed

end
