(* ===== verification/Codes.thy ===== *)
theory Codes
  imports Trustee_Prelude
begin

text \<open>
  The error codes of \<open>src/wire.rs\<close> (\<open>Code\<close>), their wire names, and the HTTP status classes
  \<open>src/main.rs\<close> answers them with.
\<close>

datatype code =
    UnsupportedProfile
  | InvalidManifest
  | InvalidPolicy
  | InvalidEnrollment
  | EnrollmentPending
  | EnrollmentExpired
  | EnrollmentRevoked
  | StaleEnrollmentSequence
  | ArtifactMismatch
  | InvalidDestination
  | BootstrapUnavailable
  | InvalidCandidateFactor
  | RecoveryCoolingDown
  | RecoveryRateLimited
  | RecoveryVetoed
  | RecoveryRefused
  | RecoveryExpired
  | InsufficientContributions
  | InvalidContribution
  | PaymentRequired
  | ServiceLapsed
  | ExportUnavailable
  | TemporarilyUnavailable
  | InvalidRequest
  | RequestConflict

type_synonym 'a outcome = "code + 'a"

fun code_as_str :: "code \<Rightarrow> string" where
  "code_as_str UnsupportedProfile = ''unsupported_profile''"
| "code_as_str InvalidManifest = ''invalid_manifest''"
| "code_as_str InvalidPolicy = ''invalid_policy''"
| "code_as_str InvalidEnrollment = ''invalid_enrollment''"
| "code_as_str EnrollmentPending = ''enrollment_pending''"
| "code_as_str EnrollmentExpired = ''enrollment_expired''"
| "code_as_str EnrollmentRevoked = ''enrollment_revoked''"
| "code_as_str StaleEnrollmentSequence = ''stale_enrollment_sequence''"
| "code_as_str ArtifactMismatch = ''artifact_mismatch''"
| "code_as_str InvalidDestination = ''invalid_destination''"
| "code_as_str BootstrapUnavailable = ''bootstrap_unavailable''"
| "code_as_str InvalidCandidateFactor = ''invalid_candidate_factor''"
| "code_as_str RecoveryCoolingDown = ''recovery_cooling_down''"
| "code_as_str RecoveryRateLimited = ''recovery_rate_limited''"
| "code_as_str RecoveryVetoed = ''recovery_vetoed''"
| "code_as_str RecoveryRefused = ''recovery_refused''"
| "code_as_str RecoveryExpired = ''recovery_expired''"
| "code_as_str InsufficientContributions = ''insufficient_contributions''"
| "code_as_str InvalidContribution = ''invalid_contribution''"
| "code_as_str PaymentRequired = ''payment_required''"
| "code_as_str ServiceLapsed = ''service_lapsed''"
| "code_as_str ExportUnavailable = ''export_unavailable''"
| "code_as_str TemporarilyUnavailable = ''temporarily_unavailable''"
| "code_as_str InvalidRequest = ''invalid_request''"
| "code_as_str RequestConflict = ''request_conflict''"

text \<open>
  The codes are an enumeration of the library, so that a statement about all of them is
  decided by evaluation.
\<close>

instantiation code :: enum
begin

definition enum_code :: "code list" where
  "enum_code = [UnsupportedProfile, InvalidManifest, InvalidPolicy, InvalidEnrollment,
     EnrollmentPending, EnrollmentExpired, EnrollmentRevoked, StaleEnrollmentSequence,
     ArtifactMismatch, InvalidDestination, BootstrapUnavailable, InvalidCandidateFactor,
     RecoveryCoolingDown, RecoveryRateLimited, RecoveryVetoed, RecoveryRefused,
     RecoveryExpired, InsufficientContributions, InvalidContribution, PaymentRequired,
     ServiceLapsed, ExportUnavailable, TemporarilyUnavailable, InvalidRequest,
     RequestConflict]"

definition enum_all_code :: "(code \<Rightarrow> bool) \<Rightarrow> bool" where
  "enum_all_code P \<longleftrightarrow> list_all P enum_class.enum"

definition enum_ex_code :: "(code \<Rightarrow> bool) \<Rightarrow> bool" where
  "enum_ex_code P \<longleftrightarrow> list_ex P enum_class.enum"

lemma enum_code_complete: "c \<in> set (enum_class.enum :: code list)"
  by (cases c) (simp_all add: enum_code_def)

instance
proof
  show univ: "UNIV = set (enum_class.enum :: code list)"
    using enum_code_complete by auto
  show "distinct (enum_class.enum :: code list)"
    by (simp add: enum_code_def)
  show "enum_class.enum_all P \<longleftrightarrow> Ball UNIV P" for P :: "code \<Rightarrow> bool"
    by (simp add: enum_all_code_def univ list_all_iff)
  show "enum_class.enum_ex P \<longleftrightarrow> Bex UNIV P" for P :: "code \<Rightarrow> bool"
    by (simp add: enum_ex_code_def univ list_ex_iff)
qed

end

interpretation code_names: named_enum "enum_class.enum :: code list" code_as_str
  by unfold_locales (rule enum_code_complete, simp add: enum_code_def)

section \<open>HTTP status classes\<close>

datatype status_code =
    BAD_REQUEST
  | PAYMENT_REQUIRED
  | CONFLICT
  | TOO_MANY_REQUESTS
  | NOT_IMPLEMENTED
  | SERVICE_UNAVAILABLE

fun status_u16 :: "status_code \<Rightarrow> nat" where
  "status_u16 BAD_REQUEST = 400"
| "status_u16 PAYMENT_REQUIRED = 402"
| "status_u16 CONFLICT = 409"
| "status_u16 TOO_MANY_REQUESTS = 429"
| "status_u16 NOT_IMPLEMENTED = 501"
| "status_u16 SERVICE_UNAVAILABLE = 503"

fun http_status :: "code \<Rightarrow> status_code" where
  "http_status InvalidRequest = BAD_REQUEST"
| "http_status UnsupportedProfile = BAD_REQUEST"
| "http_status InvalidManifest = BAD_REQUEST"
| "http_status InvalidPolicy = BAD_REQUEST"
| "http_status InvalidEnrollment = BAD_REQUEST"
| "http_status ArtifactMismatch = BAD_REQUEST"
| "http_status InvalidDestination = BAD_REQUEST"
| "http_status InvalidCandidateFactor = BAD_REQUEST"
| "http_status InvalidContribution = BAD_REQUEST"
| "http_status RequestConflict = CONFLICT"
| "http_status EnrollmentPending = CONFLICT"
| "http_status EnrollmentExpired = CONFLICT"
| "http_status EnrollmentRevoked = CONFLICT"
| "http_status StaleEnrollmentSequence = CONFLICT"
| "http_status RecoveryCoolingDown = CONFLICT"
| "http_status RecoveryVetoed = CONFLICT"
| "http_status RecoveryRefused = CONFLICT"
| "http_status RecoveryExpired = CONFLICT"
| "http_status InsufficientContributions = CONFLICT"
| "http_status ServiceLapsed = CONFLICT"
| "http_status RecoveryRateLimited = TOO_MANY_REQUESTS"
| "http_status PaymentRequired = PAYMENT_REQUIRED"
| "http_status BootstrapUnavailable = NOT_IMPLEMENTED"
| "http_status ExportUnavailable = NOT_IMPLEMENTED"
| "http_status TemporarilyUnavailable = SERVICE_UNAVAILABLE"

lemma code_as_str_eq [simp]: "code_as_str c = code_as_str d \<longleftrightarrow> c = d"
  by (rule code_names.name_injective)

end
