(* ===== verification/Local_State.thy ===== *)
theory Local_State
  imports Codes
begin

text \<open>
  \<open>src/state.rs\<close>: the local states of an enrollment and of a session, the admission of a
  session and the release predicate, with time passed in. The policy an admission reads is
  \<open>TrusteePolicy\<close> of \<open>src/wire.rs\<close>.
\<close>

section \<open>Data\<close>

datatype enrollment_status = Accepted | Superseded | Revoked | Closed

datatype session_status = CoolingDown | Released | Finalized | Cancelled | Vetoed | Refused

definition enrollment_status_ALL :: "enrollment_status list" where
  "enrollment_status_ALL = [Accepted, Superseded, Revoked, Closed]"

fun enrollment_status_name :: "enrollment_status \<Rightarrow> string" where
  "enrollment_status_name Accepted = ''accepted''"
| "enrollment_status_name Superseded = ''superseded''"
| "enrollment_status_name Revoked = ''revoked''"
| "enrollment_status_name Closed = ''closed''"

definition enrollment_status_from_name :: "string \<Rightarrow> enrollment_status option" where
  "enrollment_status_from_name = from_name_in enrollment_status_ALL enrollment_status_name"

definition session_status_ALL :: "session_status list" where
  "session_status_ALL = [CoolingDown, Released, Finalized, Cancelled, Vetoed, Refused]"

fun session_status_name :: "session_status \<Rightarrow> string" where
  "session_status_name CoolingDown = ''cooling_down''"
| "session_status_name Released = ''released''"
| "session_status_name Finalized = ''finalized''"
| "session_status_name Cancelled = ''cancelled''"
| "session_status_name Vetoed = ''vetoed''"
| "session_status_name Refused = ''refused''"

definition session_status_from_name :: "string \<Rightarrow> session_status option" where
  "session_status_from_name = from_name_in session_status_ALL session_status_name"

interpretation enrollment_names: named_enum enrollment_status_ALL enrollment_status_name
proof
  show "v \<in> set enrollment_status_ALL" for v
    by (cases v) (simp_all add: enrollment_status_ALL_def)
qed (simp add: enrollment_status_ALL_def)

interpretation session_names: named_enum session_status_ALL session_status_name
proof
  show "v \<in> set session_status_ALL" for v
    by (cases v) (simp_all add: session_status_ALL_def)
qed (simp add: session_status_ALL_def)

record enrollment_state =
  es_status :: enrollment_status
  es_sequence :: u64
  es_expires_at :: i64

record session_state =
  ss_status :: session_status
  ss_sequence :: u64
  ss_cooldown_ends_at :: i64
  ss_expires_at :: i64

record admission =
  adm_cooldown_ends_at :: i64
  adm_expires_at :: i64

datatype release_action = Emit | Resend

record trustee_policy =
  factor_key :: bytes
  cooldown_secs :: i64
  session_lifetime_secs :: i64
  maximum_attempts :: u32

section \<open>Operations\<close>

definition usable :: "enrollment_state \<Rightarrow> i64 \<Rightarrow> unit outcome" where
  "usable enrollment now =
     (case es_status enrollment of
        Revoked \<Rightarrow> Inl EnrollmentRevoked
      | Closed \<Rightarrow> Inl EnrollmentRevoked
      | Superseded \<Rightarrow> Inl StaleEnrollmentSequence
      | Accepted \<Rightarrow>
          (if es_expires_at enrollment \<le> now then Inl EnrollmentExpired else Inr ()))"

definition admit ::
  "enrollment_state \<Rightarrow> trustee_policy \<Rightarrow> u32 \<Rightarrow> i64 \<Rightarrow> i64 \<Rightarrow> i64 \<Rightarrow> i64 \<Rightarrow> admission outcome" where
  "admit enrollment policy attempts_used requested_at expires_at now skew_secs =
     and_then (usable enrollment now) (\<lambda>_.
     if maximum_attempts policy \<le> attempts_used then Inl RecoveryRateLimited
     else if skew_secs < i64_abs (i64_sub requested_at now) then Inl InvalidRequest
     else if expires_at \<le> now then Inl RecoveryExpired
     else
       (let cooldown_ends_at = i64_add now (cooldown_secs policy);
            within_bounds = cooldown_ends_at < expires_at
              \<and> expires_at \<le> i64_add now (session_lifetime_secs policy)
              \<and> expires_at \<le> es_expires_at enrollment
        in if \<not> within_bounds then Inl RecoveryRefused
           else Inr \<lparr>adm_cooldown_ends_at = cooldown_ends_at, adm_expires_at = expires_at\<rparr>))"

definition release ::
  "enrollment_state \<Rightarrow> session_state \<Rightarrow> i64 \<Rightarrow> i64 \<Rightarrow> release_action outcome" where
  "release enrollment session now clock_floor =
     (if now < clock_floor then Inl TemporarilyUnavailable
      else and_then (usable enrollment now) (\<lambda>_.
        if ss_sequence session \<noteq> es_sequence enrollment then Inl StaleEnrollmentSequence
        else and_then
          (case ss_status session of
             CoolingDown \<Rightarrow> Inr ()
           | Released \<Rightarrow> Inr ()
           | Vetoed \<Rightarrow> Inl RecoveryVetoed
           | Cancelled \<Rightarrow> Inl RecoveryRefused
           | Refused \<Rightarrow> Inl RecoveryRefused
           | Finalized \<Rightarrow> Inl RecoveryRefused) (\<lambda>_.
        if ss_expires_at session \<le> now then Inl RecoveryExpired
        else if now < ss_cooldown_ends_at session then Inl RecoveryCoolingDown
        else Inr (case ss_status session of Released \<Rightarrow> Resend | _ \<Rightarrow> Emit))))"

section \<open>What the states decide\<close>

definition session_live :: "session_status \<Rightarrow> bool" where
  "session_live st \<longleftrightarrow> st = CoolingDown \<or> st = Released"

lemma usable_Inr [result_iff]:
  "usable e now = Inr u \<longleftrightarrow> es_status e = Accepted \<and> now < es_expires_at e"
  by (cases u) (auto simp: usable_def split: enrollment_status.splits)

lemma usable_Inl:
  "usable e now = Inl c \<longleftrightarrow>
     (case es_status e of
        Accepted \<Rightarrow> es_expires_at e \<le> now \<and> c = EnrollmentExpired
      | Superseded \<Rightarrow> c = StaleEnrollmentSequence
      | _ \<Rightarrow> c = EnrollmentRevoked)"
  by (auto simp: usable_def split: enrollment_status.splits)

lemma release_Inr:
  "release e s now clock_floor = Inr r \<longleftrightarrow>
     clock_floor \<le> now \<and> es_status e = Accepted \<and> now < es_expires_at e
     \<and> ss_sequence s = es_sequence e
     \<and> ss_cooldown_ends_at s \<le> now \<and> now < ss_expires_at s
     \<and> (ss_status s = CoolingDown \<and> r = Emit
        \<or> ss_status s = Released \<and> r = Resend)"
  by (cases "ss_status s") (auto simp: release_def result_iff)

lemma admit_Inr:
  "admit e p used requested expires now skew = Inr a \<longleftrightarrow>
     es_status e = Accepted \<and> now < es_expires_at e
     \<and> used < maximum_attempts p
     \<and> i64_abs (i64_sub requested now) \<le> skew
     \<and> now < expires
     \<and> i64_add now (cooldown_secs p) < expires
     \<and> expires \<le> i64_add now (session_lifetime_secs p)
     \<and> expires \<le> es_expires_at e
     \<and> a = \<lparr>adm_cooldown_ends_at = i64_add now (cooldown_secs p), adm_expires_at = expires\<rparr>"
  by (auto simp: admit_def Let_def result_iff not_le not_less split: if_splits)

lemma release_mono_time:
  assumes "release e s now clock_floor = Inr r"
    and "now \<le> later" "later < es_expires_at e" "later < ss_expires_at s"
  shows "release e s later later_floor = Inr r \<longleftrightarrow> later_floor \<le> later"
  using assms by (auto simp: release_Inr)

end
