(* ===== verification/Objects.thy ===== *)
theory Objects
  imports Encodings Crypto Local_State "HOL-Library.Monad_Syntax"
begin

text \<open>
  The objects of the wire binding (\<open>src/wire.rs\<close>): what a trustee reads, with serde's derived
  decoding, the canonical tuples that are sealed, signed or digested, the signed requests, and
  the receipts a trustee writes.
\<close>

section \<open>Constants\<close>

definition SEAT :: string where
  "SEAT = ''identity.recovery-trustee''"
definition BINDING_VERSION :: string where
  "BINDING_VERSION = ''draft-1''"
definition RECOVERY_PROFILE_ID :: string where
  "RECOVERY_PROFILE_ID = ''onym:recovery-profile:trustee-v1''"
definition IMPLEMENTATION_PROFILE_ID :: string where
  "IMPLEMENTATION_PROFILE_ID = ''onym:recovery-implementation:shamir-trustees-slip39-v1''"
definition RECOVERY_MODE :: string where
  "RECOVERY_MODE = ''secret-restoration''"
definition ENCRYPTION_SUITE :: string where
  "ENCRYPTION_SUITE = ''hpke-base-x25519-hkdf-sha256-aes-256-gcm''"
definition PROOF_SUITE :: string where
  "PROOF_SUITE = ''ed25519''"
definition ARTIFACT_AEAD :: string where
  "ARTIFACT_AEAD = ''aes-256-gcm''"
definition FACTOR_ED25519_SESSION :: string where
  "FACTOR_ED25519_SESSION = ''onym:recovery-factor:ed25519-session-v1:''"
definition NOTICE_HOLDER_POLL :: string where
  "NOTICE_HOLDER_POLL = ''onym:recovery-notice:holder-poll-v1''"
definition VETO_AUTHORIZATION_KEY :: string where
  "VETO_AUTHORIZATION_KEY = ''onym:recovery-veto:authorization-key-v1''"
definition LAPSE_NONE :: string where
  "LAPSE_NONE = ''onym:recovery-lapse:none-v1''"
definition ENROLLMENT_INFO :: string where
  "ENROLLMENT_INFO = ''onym-shamir-enrollment-v1''"
definition RECOVERY_INFO :: string where
  "RECOVERY_INFO = ''onym-shamir-recovery-contribution-v1''"
definition DESTINATION_KEYS :: string where
  "DESTINATION_KEYS = ''onym-recovery-destination-keys-v1''"
definition FACTOR_EVIDENCE :: string where
  "FACTOR_EVIDENCE = ''onym-recovery-factor-ed25519-session-v1''"
definition STORAGE_CLASS :: string where
  "STORAGE_CLASS = ''onym:recovery-storage:sqlite-software-keys-v1''"

section \<open>Digests and canonical tuples\<close>

definition key_digest :: "extern \<Rightarrow> bytes \<Rightarrow> string" where
  "key_digest x key = digest x key"

definition destination_keys_digest :: "extern \<Rightarrow> json \<Rightarrow> string" where
  "destination_keys_digest x destination =
     digest x (canonical x (JArray [JString DESTINATION_KEYS, destination]))"

definition factor_message :: "extern \<Rightarrow> string \<Rightarrow> string \<Rightarrow> string \<Rightarrow> bytes" where
  "factor_message x session_commitment component_id slot =
     canonical x (JArray (map JString [FACTOR_EVIDENCE, session_commitment, component_id, slot]))"

section \<open>The enrollment context\<close>

record enrollment_context =
  ctx_implementation_profile_id :: string
  ctx_enrollment_id :: string
  ctx_enrollment_sequence :: u64
  ctx_policy_digest :: string
  ctx_artifact_id :: string
  ctx_artifact_digest :: string
  ctx_trustee_component_id :: string
  ctx_slot :: string
  ctx_trustee_challenge :: string
  ctx_authorization_key_digest :: string

definition context_fields :: "string list" where
  "context_fields = [''implementationProfileId'', ''enrollmentId'', ''enrollmentSequence'',
     ''policyDigest'', ''artifactId'', ''artifactDigest'', ''trusteeComponentId'', ''slot'',
     ''trusteeChallenge'', ''authorizationKeyDigest'']"

definition context_of_json :: "json \<Rightarrow> enrollment_context option" where
  "context_of_json v = do {
     fs \<leftarrow> struct_fields context_fields v;
     implementation_profile_id \<leftarrow> as_str (fs ! 0);
     enrollment_id \<leftarrow> as_str (fs ! 1);
     enrollment_sequence \<leftarrow> as_u64 (fs ! 2);
     policy_digest \<leftarrow> as_str (fs ! 3);
     artifact_id \<leftarrow> as_str (fs ! 4);
     artifact_digest \<leftarrow> as_str (fs ! 5);
     trustee_component_id \<leftarrow> as_str (fs ! 6);
     slot \<leftarrow> as_str (fs ! 7);
     trustee_challenge \<leftarrow> as_str (fs ! 8);
     authorization_key_digest \<leftarrow> as_str (fs ! 9);
     Some \<lparr>ctx_implementation_profile_id = implementation_profile_id,
           ctx_enrollment_id = enrollment_id,
           ctx_enrollment_sequence = enrollment_sequence,
           ctx_policy_digest = policy_digest,
           ctx_artifact_id = artifact_id,
           ctx_artifact_digest = artifact_digest,
           ctx_trustee_component_id = trustee_component_id,
           ctx_slot = slot,
           ctx_trustee_challenge = trustee_challenge,
           ctx_authorization_key_digest = authorization_key_digest\<rparr>
   }"

definition is_well_formed :: "extern \<Rightarrow> enrollment_context \<Rightarrow> bool" where
  "is_well_formed x c \<longleftrightarrow>
     hex32 x (ctx_enrollment_id c) \<noteq> None
     \<and> sequence (ctx_enrollment_sequence c) \<noteq> None
     \<and> is_digest x (ctx_policy_digest c)
     \<and> hex32 x (ctx_artifact_id c) \<noteq> None
     \<and> is_digest x (ctx_artifact_digest c)
     \<and> is_component_id (ctx_trustee_component_id c)
     \<and> hex32 x (ctx_slot c) \<noteq> None
     \<and> hex32 x (ctx_trustee_challenge c) \<noteq> None
     \<and> is_digest x (ctx_authorization_key_digest c)"

definition context_info :: "extern \<Rightarrow> enrollment_context \<Rightarrow> bytes" where
  "context_info x c = canonical x (JArray [
     JString ENROLLMENT_INFO,
     JString (ctx_implementation_profile_id c),
     JString (ctx_enrollment_id c),
     JU64 (ctx_enrollment_sequence c),
     JString (ctx_policy_digest c),
     JString (ctx_artifact_id c),
     JString (ctx_artifact_digest c),
     JString (ctx_trustee_component_id c),
     JString (ctx_slot c),
     JString (ctx_trustee_challenge c),
     JString (ctx_authorization_key_digest c)])"

definition recovery_info :: "extern \<Rightarrow> string \<Rightarrow> enrollment_context \<Rightarrow> string \<Rightarrow> string \<Rightarrow> bytes" where
  "recovery_info x session_id c destination_digest expires_at = canonical x (JArray [
     JString RECOVERY_INFO,
     JString session_id,
     JString (ctx_enrollment_id c),
     JU64 (ctx_enrollment_sequence c),
     JString (ctx_policy_digest c),
     JString (ctx_artifact_id c),
     JString (ctx_artifact_digest c),
     JString (ctx_trustee_component_id c),
     JString (ctx_slot c),
     JString destination_digest,
     JString expires_at])"

section \<open>The share envelope\<close>

record policy_fields =
  pf_candidate_factors :: "string list"
  pf_cooldown :: string
  pf_session_lifetime :: string
  pf_maximum_attempts :: u64
  pf_notifications :: "string list"
  pf_holder_veto :: string
  pf_lapse_policy :: string

definition policy_names :: "string list" where
  "policy_names = [''candidateFactors'', ''cooldown'', ''sessionLifetime'', ''maximumAttempts'',
     ''notifications'', ''holderVeto'', ''lapsePolicy'']"

definition policy_of_json :: "json \<Rightarrow> policy_fields option" where
  "policy_of_json v = do {
     fs \<leftarrow> struct_fields policy_names v;
     candidate_factors \<leftarrow> as_vec as_str (fs ! 0);
     cooldown \<leftarrow> as_str (fs ! 1);
     session_lifetime \<leftarrow> as_str (fs ! 2);
     attempts \<leftarrow> as_u64 (fs ! 3);
     notifications \<leftarrow> as_vec as_str (fs ! 4);
     holder_veto \<leftarrow> as_str (fs ! 5);
     lapse_policy \<leftarrow> as_str (fs ! 6);
     Some \<lparr>pf_candidate_factors = candidate_factors, pf_cooldown = cooldown,
           pf_session_lifetime = session_lifetime, pf_maximum_attempts = attempts,
           pf_notifications = notifications, pf_holder_veto = holder_veto,
           pf_lapse_policy = lapse_policy\<rparr>
   }"

record share_envelope =
  env_version :: u64
  env_implementation_profile_id :: string
  env_enrollment_id :: string
  env_enrollment_sequence :: u64
  env_policy_digest :: string
  env_identity_binding_commitment :: string
  env_artifact_digest :: string
  env_artifact_id :: string
  env_recovery_mode :: string
  env_trustee_component_id :: string
  env_slot :: string
  env_trustee_challenge :: string
  env_member_index :: u64
  env_member_threshold :: u64
  env_member_count :: u64
  env_trustee_policy :: policy_fields
  env_slip39_share :: string
  env_created_at :: string
  env_expires_at :: string
  env_authorization_public_key :: string

definition envelope_fields :: "string list" where
  "envelope_fields = [''shareEnvelopeVersion'', ''implementationProfileId'', ''enrollmentId'',
     ''enrollmentSequence'', ''policyDigest'', ''identityBindingCommitment'', ''artifactDigest'',
     ''artifactId'', ''recoveryMode'', ''trusteeComponentId'', ''slot'', ''trusteeChallenge'',
     ''memberIndex'', ''memberThreshold'', ''memberCount'', ''trusteePolicy'', ''slip39Share'',
     ''createdAt'', ''expiresAt'', ''authorizationPublicKey'']"

definition envelope_of_json :: "json \<Rightarrow> share_envelope option" where
  "envelope_of_json v = do {
     fs \<leftarrow> struct_fields envelope_fields v;
     version \<leftarrow> as_u64 (fs ! 0);
     implementation_profile_id \<leftarrow> as_str (fs ! 1);
     enrollment_id \<leftarrow> as_str (fs ! 2);
     enrollment_sequence \<leftarrow> as_u64 (fs ! 3);
     policy_digest \<leftarrow> as_str (fs ! 4);
     identity_binding_commitment \<leftarrow> as_str (fs ! 5);
     artifact_digest \<leftarrow> as_str (fs ! 6);
     artifact_id \<leftarrow> as_str (fs ! 7);
     recovery_mode \<leftarrow> as_str (fs ! 8);
     trustee_component_id \<leftarrow> as_str (fs ! 9);
     slot \<leftarrow> as_str (fs ! 10);
     trustee_challenge \<leftarrow> as_str (fs ! 11);
     member_index \<leftarrow> as_u64 (fs ! 12);
     member_threshold \<leftarrow> as_u64 (fs ! 13);
     member_count \<leftarrow> as_u64 (fs ! 14);
     trustee_policy \<leftarrow> policy_of_json (fs ! 15);
     slip39_share \<leftarrow> as_str (fs ! 16);
     created_at \<leftarrow> as_str (fs ! 17);
     expires_at \<leftarrow> as_str (fs ! 18);
     authorization_public_key \<leftarrow> as_str (fs ! 19);
     Some \<lparr>env_version = version,
           env_implementation_profile_id = implementation_profile_id,
           env_enrollment_id = enrollment_id,
           env_enrollment_sequence = enrollment_sequence,
           env_policy_digest = policy_digest,
           env_identity_binding_commitment = identity_binding_commitment,
           env_artifact_digest = artifact_digest,
           env_artifact_id = artifact_id,
           env_recovery_mode = recovery_mode,
           env_trustee_component_id = trustee_component_id,
           env_slot = slot,
           env_trustee_challenge = trustee_challenge,
           env_member_index = member_index,
           env_member_threshold = member_threshold,
           env_member_count = member_count,
           env_trustee_policy = trustee_policy,
           env_slip39_share = slip39_share,
           env_created_at = created_at,
           env_expires_at = expires_at,
           env_authorization_public_key = authorization_public_key\<rparr>
   }"

definition repeats :: "extern \<Rightarrow> share_envelope \<Rightarrow> enrollment_context \<Rightarrow> bool" where
  "repeats x e c \<longleftrightarrow>
     (let authorization_digest =
        map_option (key_digest x) (hex32 x (env_authorization_public_key e))
      in env_implementation_profile_id e = ctx_implementation_profile_id c
         \<and> env_enrollment_id e = ctx_enrollment_id c
         \<and> env_enrollment_sequence e = ctx_enrollment_sequence c
         \<and> env_policy_digest e = ctx_policy_digest c
         \<and> env_artifact_id e = ctx_artifact_id c
         \<and> env_artifact_digest e = ctx_artifact_digest c
         \<and> env_trustee_component_id e = ctx_trustee_component_id c
         \<and> env_slot e = ctx_slot c
         \<and> env_trustee_challenge e = ctx_trustee_challenge c
         \<and> authorization_digest = Some (ctx_authorization_key_digest c))"

section \<open>The protected artifact\<close>

record protected_artifact =
  pa_version :: u64
  pa_implementation_profile_id :: string
  pa_enrollment_id :: string
  pa_enrollment_sequence :: u64
  pa_policy_digest :: string
  pa_identity_binding_commitment :: string
  pa_recovery_mode :: string
  pa_artifact_id :: string
  pa_aead :: string
  pa_nonce :: string
  pa_ciphertext :: string

definition artifact_fields :: "string list" where
  "artifact_fields = [''protectedArtifactVersion'', ''implementationProfileId'', ''enrollmentId'',
     ''enrollmentSequence'', ''policyDigest'', ''identityBindingCommitment'', ''recoveryMode'',
     ''artifactId'', ''protectionParameters'', ''ciphertext'']"

text \<open>\<open>ProtectionParameters\<close> is the pair of its two fields.\<close>

definition protection_of_json :: "json \<Rightarrow> (string \<times> string) option" where
  "protection_of_json v = do {
     fs \<leftarrow> struct_fields [''aead'', ''nonce''] v;
     aead \<leftarrow> as_str (fs ! 0);
     nonce \<leftarrow> as_str (fs ! 1);
     Some (aead, nonce)
   }"

definition artifact_of_json :: "json \<Rightarrow> protected_artifact option" where
  "artifact_of_json v = do {
     fs \<leftarrow> struct_fields artifact_fields v;
     version \<leftarrow> as_u64 (fs ! 0);
     implementation_profile_id \<leftarrow> as_str (fs ! 1);
     enrollment_id \<leftarrow> as_str (fs ! 2);
     enrollment_sequence \<leftarrow> as_u64 (fs ! 3);
     policy_digest \<leftarrow> as_str (fs ! 4);
     identity_binding_commitment \<leftarrow> as_str (fs ! 5);
     recovery_mode \<leftarrow> as_str (fs ! 6);
     artifact_id \<leftarrow> as_str (fs ! 7);
     parameters \<leftarrow> protection_of_json (fs ! 8);
     ciphertext \<leftarrow> as_str (fs ! 9);
     Some \<lparr>pa_version = version,
           pa_implementation_profile_id = implementation_profile_id,
           pa_enrollment_id = enrollment_id,
           pa_enrollment_sequence = enrollment_sequence,
           pa_policy_digest = policy_digest,
           pa_identity_binding_commitment = identity_binding_commitment,
           pa_recovery_mode = recovery_mode,
           pa_artifact_id = artifact_id,
           pa_aead = fst parameters,
           pa_nonce = snd parameters,
           pa_ciphertext = ciphertext\<rparr>
   }"

section \<open>The recovery session\<close>

record destination =
  dst_encryption_suite :: string
  dst_encryption_public_key :: string
  dst_proof_suite :: string
  dst_proof_public_key :: string

definition destination_of_json :: "json \<Rightarrow> destination option" where
  "destination_of_json v = do {
     fs \<leftarrow> struct_fields [''encryptionSuite'', ''encryptionPublicKey'', ''proofSuite'',
            ''proofPublicKey''] v;
     encryption_suite \<leftarrow> as_str (fs ! 0);
     encryption_public_key \<leftarrow> as_str (fs ! 1);
     proof_suite \<leftarrow> as_str (fs ! 2);
     proof_public_key \<leftarrow> as_str (fs ! 3);
     Some \<lparr>dst_encryption_suite = encryption_suite,
           dst_encryption_public_key = encryption_public_key,
           dst_proof_suite = proof_suite,
           dst_proof_public_key = proof_public_key\<rparr>
   }"

record session_core =
  core_session_version :: u64
  core_session_id :: string
  core_enrollment_id :: string
  core_enrollment_sequence :: u64
  core_policy_digest :: string
  core_artifact_id :: string
  core_artifact_digest :: string
  core_destination :: destination
  core_requested_at :: string
  core_expires_at :: string

definition core_fields :: "string list" where
  "core_fields = [''sessionVersion'', ''sessionId'', ''enrollmentId'', ''enrollmentSequence'',
     ''policyDigest'', ''artifactId'', ''artifactDigest'', ''destination'', ''requestedAt'',
     ''expiresAt'']"

definition core_of_json :: "json \<Rightarrow> session_core option" where
  "core_of_json v = do {
     fs \<leftarrow> struct_fields core_fields v;
     version \<leftarrow> as_u64 (fs ! 0);
     session_id \<leftarrow> as_str (fs ! 1);
     enrollment_id \<leftarrow> as_str (fs ! 2);
     enrollment_sequence \<leftarrow> as_u64 (fs ! 3);
     policy_digest \<leftarrow> as_str (fs ! 4);
     artifact_id \<leftarrow> as_str (fs ! 5);
     artifact_digest \<leftarrow> as_str (fs ! 6);
     dest \<leftarrow> destination_of_json (fs ! 7);
     requested_at \<leftarrow> as_str (fs ! 8);
     expires_at \<leftarrow> as_str (fs ! 9);
     Some \<lparr>core_session_version = version,
           core_session_id = session_id,
           core_enrollment_id = enrollment_id,
           core_enrollment_sequence = enrollment_sequence,
           core_policy_digest = policy_digest,
           core_artifact_id = artifact_id,
           core_artifact_digest = artifact_digest,
           core_destination = dest,
           core_requested_at = requested_at,
           core_expires_at = expires_at\<rparr>
   }"

text \<open>\<open>EvidenceFields\<close> is the pair of factor and signature.\<close>

definition evidence_of_json :: "json \<Rightarrow> (string \<times> string) option" where
  "evidence_of_json v = do {
     fs \<leftarrow> struct_fields [''factor'', ''signature''] v;
     factor \<leftarrow> as_str (fs ! 0);
     sig \<leftarrow> as_str (fs ! 1);
     Some (factor, sig)
   }"

end
