(* ===== verification/Requests.thy ===== *)
theory Requests
  imports Objects
begin

text \<open>
  The requests and receipts of \<open>src/wire.rs\<close>: the unsigned requests, \<open>Signed::parse\<close>, the
  contribution before signing, receipts with their optional members, the contract names of the
  local states, and the embedding of a signature.
\<close>

section \<open>Unsigned requests\<close>

record challenge_request =
  cr_request_version :: u64
  cr_component_id :: string
  cr_invitation :: string

definition challenge_request_of_json :: "json \<Rightarrow> challenge_request option" where
  "challenge_request_of_json v = do {
     fs \<leftarrow> struct_fields [''requestVersion'', ''operation'', ''componentId'', ''invitation''] v;
     version \<leftarrow> as_u64 (fs ! 0);
     _ \<leftarrow> as_str (fs ! 1);
     component_id \<leftarrow> as_str (fs ! 2);
     invitation \<leftarrow> as_str (fs ! 3);
     Some \<lparr>cr_request_version = version, cr_component_id = component_id,
           cr_invitation = invitation\<rparr>
   }"

record enroll_request =
  er_request_version :: u64
  er_context :: enrollment_context
  er_trustee_key_id :: string
  er_sealed_envelope :: string
  er_protected_artifact :: json

definition enroll_request_of_json :: "json \<Rightarrow> enroll_request option" where
  "enroll_request_of_json v = do {
     fs \<leftarrow> struct_fields [''requestVersion'', ''operation'', ''context'', ''trusteeKeyId'',
            ''sealedEnvelope'', ''protectedArtifact''] v;
     version \<leftarrow> as_u64 (fs ! 0);
     _ \<leftarrow> as_str (fs ! 1);
     ctx \<leftarrow> context_of_json (fs ! 2);
     trustee_key_id \<leftarrow> as_str (fs ! 3);
     sealed_envelope \<leftarrow> as_str (fs ! 4);
     Some \<lparr>er_request_version = version, er_context = ctx, er_trustee_key_id = trustee_key_id,
           er_sealed_envelope = sealed_envelope, er_protected_artifact = fs ! 5\<rparr>
   }"

record begin_request =
  br_request_version :: u64
  br_session :: json

definition begin_request_of_json :: "json \<Rightarrow> begin_request option" where
  "begin_request_of_json v = do {
     fs \<leftarrow> struct_fields [''requestVersion'', ''operation'', ''session''] v;
     version \<leftarrow> as_u64 (fs ! 0);
     _ \<leftarrow> as_str (fs ! 1);
     Some \<lparr>br_request_version = version, br_session = fs ! 2\<rparr>
   }"

section \<open>Signed requests\<close>

record signed_request =
  sr_request_version :: u64
  sr_operation :: string
  sr_request_id :: string
  sr_component_id :: string
  sr_issued_at :: string
  sr_enrollment_id :: "string option"
  sr_session_id :: "string option"
  sr_by :: "string option"

text \<open>
  \<open>present\<close>: an optional member is absent or a string. A signed request is decoded from the
  object its signature was taken from, so only the map form of the derived visitor is reached.
\<close>

definition required :: "(string \<times> json) list \<Rightarrow> (json \<Rightarrow> 'a option) \<Rightarrow> string \<Rightarrow> 'a option" where
  "required kvs decode k = Option.bind (map_of kvs k) decode"

definition present :: "(string \<times> json) list \<Rightarrow> string \<Rightarrow> string option option" where
  "present kvs k =
     (case map_of kvs k of None \<Rightarrow> Some None | Some v \<Rightarrow> map_option Some (as_str v))"

definition signed_fields :: "string list" where
  "signed_fields = [''requestVersion'', ''operation'', ''requestId'', ''componentId'', ''issuedAt'',
     ''enrollmentId'', ''sessionId'', ''by'']"

fun signed_request_of_json :: "json \<Rightarrow> signed_request option" where
  "signed_request_of_json (JObject kvs) =
     (if \<not> list_all (\<lambda>(k, v). k \<in> set signed_fields) kvs then None
      else do {
        version \<leftarrow> required kvs as_u64 ''requestVersion'';
        operation \<leftarrow> required kvs as_str ''operation'';
        request_id \<leftarrow> required kvs as_str ''requestId'';
        component_id \<leftarrow> required kvs as_str ''componentId'';
        issued_at \<leftarrow> required kvs as_str ''issuedAt'';
        enrollment_id \<leftarrow> present kvs ''enrollmentId'';
        session_id \<leftarrow> present kvs ''sessionId'';
        actor \<leftarrow> present kvs ''by'';
        Some \<lparr>sr_request_version = version, sr_operation = operation, sr_request_id = request_id,
              sr_component_id = component_id, sr_issued_at = issued_at,
              sr_enrollment_id = enrollment_id, sr_session_id = session_id, sr_by = actor\<rparr>
      })"
| "signed_request_of_json v = None"

record signed =
  sg_operation :: string
  sg_request_id :: string
  sg_target :: string
  sg_by :: "string option"
  sg_issued_at :: i64
  sg_message :: bytes
  sg_signature :: bytes
  sg_digest :: string

definition signed_target :: "signed_request \<Rightarrow> string option" where
  "signed_target r =
     (case (sr_enrollment_id r, sr_session_id r, sr_by r) of
        (Some i, None, None) \<Rightarrow>
          if sr_operation r \<in> {''read-enrollment'', ''revoke-enrollment'', ''close-enrollment''}
          then Some i else None
      | (None, Some i, None) \<Rightarrow> if sr_operation r = ''read-recovery'' then Some i else None
      | (None, Some i, Some _) \<Rightarrow> if sr_operation r = ''cancel-recovery'' then Some i else None
      | _ \<Rightarrow> None)"

definition signed_parse :: "extern \<Rightarrow> json \<Rightarrow> string \<Rightarrow> signed option" where
  "signed_parse x v component_id = do {
     let request_digest = digest x (canonical x v);
     (text, rest) \<leftarrow> take_string ''signature'' v;
     sig \<leftarrow> signature x text;
     let message = canonical x rest;
     request \<leftarrow> signed_request_of_json rest;
     target \<leftarrow> signed_target request;
     let well_formed = sr_request_version request = 1
           \<and> sr_component_id request = component_id
           \<and> hex32 x (sr_request_id request) \<noteq> None
           \<and> hex32 x target \<noteq> None;
     issued_at \<leftarrow> timestamp x (sr_issued_at request);
     if \<not> well_formed then None
     else Some \<lparr>sg_operation = sr_operation request,
                sg_request_id = sr_request_id request,
                sg_target = target,
                sg_by = sr_by request,
                sg_issued_at = issued_at,
                sg_message = message,
                sg_signature = sig,
                sg_digest = request_digest\<rparr>
   }"

section \<open>The contribution\<close>

record approval =
  ap_contribution_version :: u64
  ap_session_id :: string
  ap_enrollment_id :: string
  ap_enrollment_sequence :: u64
  ap_policy_digest :: string
  ap_artifact_id :: string
  ap_artifact_digest :: string
  ap_component_id :: string
  ap_slot :: string
  ap_decision :: string
  ap_destination_keys_digest :: string
  ap_sealed_contribution :: string
  ap_decided_at :: string
  ap_expires_at :: string

definition approval_json :: "approval \<Rightarrow> json" where
  "approval_json a = json_object [
     (''contributionVersion'', JU64 (ap_contribution_version a)),
     (''sessionId'', JString (ap_session_id a)),
     (''enrollmentId'', JString (ap_enrollment_id a)),
     (''enrollmentSequence'', JU64 (ap_enrollment_sequence a)),
     (''policyDigest'', JString (ap_policy_digest a)),
     (''artifactId'', JString (ap_artifact_id a)),
     (''artifactDigest'', JString (ap_artifact_digest a)),
     (''componentId'', JString (ap_component_id a)),
     (''slot'', JString (ap_slot a)),
     (''decision'', JString (ap_decision a)),
     (''destinationKeysDigest'', JString (ap_destination_keys_digest a)),
     (''sealedContribution'', JString (ap_sealed_contribution a)),
     (''decidedAt'', JString (ap_decided_at a)),
     (''expiresAt'', JString (ap_expires_at a))]"

section \<open>Receipts\<close>

record notice =
  nt_session_id :: string
  nt_state :: string
  nt_reason :: "string option"
  nt_released :: bool
  nt_cooldown_ends_at :: string
  nt_expires_at :: string

record receipt =
  rc_receipt_version :: u64
  rc_operation :: string
  rc_request_id :: string
  rc_component_id :: string
  rc_implementation_profile_id :: string
  rc_enrollment_id :: string
  rc_enrollment_sequence :: u64
  rc_policy_digest :: string
  rc_old_state :: string
  rc_new_state :: string
  rc_recorded_at :: string
  rc_expires_at :: string
  rc_session_id :: "string option"
  rc_reason :: "string option"
  rc_artifact_id :: "string option"
  rc_artifact_digest :: "string option"
  rc_slot :: "string option"
  rc_sealed_contribution_digest :: "string option"
  rc_storage_class :: "string option"
  rc_cooldown_ends_at :: "string option"
  rc_remaining_attempts :: "u32 option"
  rc_destination_keys_digest :: "string option"
  rc_evidence_digest :: "string option"
  rc_contribution :: "json option"
  rc_sessions :: "notice list option"

text \<open>\<open>skip_serializing_if = "Option::is_none"\<close>: a member that is absent is not written.\<close>

fun member :: "string \<Rightarrow> ('a \<Rightarrow> json) \<Rightarrow> 'a option \<Rightarrow> (string \<times> json) list" where
  "member k f None = []"
| "member k f (Some a) = [(k, f a)]"

definition notice_json :: "notice \<Rightarrow> json" where
  "notice_json n = json_object (
     [(''sessionId'', JString (nt_session_id n)), (''state'', JString (nt_state n))]
     @ member ''reason'' JString (nt_reason n)
     @ [(''released'', JBool (nt_released n)),
        (''cooldownEndsAt'', JString (nt_cooldown_ends_at n)),
        (''expiresAt'', JString (nt_expires_at n))])"

definition receipt_json :: "receipt \<Rightarrow> json" where
  "receipt_json r = json_object (
     [(''receiptVersion'', JU64 (rc_receipt_version r)),
      (''operation'', JString (rc_operation r)),
      (''requestId'', JString (rc_request_id r)),
      (''componentId'', JString (rc_component_id r)),
      (''implementationProfileId'', JString (rc_implementation_profile_id r)),
      (''enrollmentId'', JString (rc_enrollment_id r)),
      (''enrollmentSequence'', JU64 (rc_enrollment_sequence r)),
      (''policyDigest'', JString (rc_policy_digest r)),
      (''oldState'', JString (rc_old_state r)),
      (''newState'', JString (rc_new_state r)),
      (''recordedAt'', JString (rc_recorded_at r)),
      (''expiresAt'', JString (rc_expires_at r))]
     @ member ''sessionId'' JString (rc_session_id r)
     @ member ''reason'' JString (rc_reason r)
     @ member ''artifactId'' JString (rc_artifact_id r)
     @ member ''artifactDigest'' JString (rc_artifact_digest r)
     @ member ''slot'' JString (rc_slot r)
     @ member ''sealedContributionDigest'' JString (rc_sealed_contribution_digest r)
     @ member ''storageClass'' JString (rc_storage_class r)
     @ member ''cooldownEndsAt'' JString (rc_cooldown_ends_at r)
     @ member ''remainingAttempts'' (\<lambda>n. JU64 (ucast n)) (rc_remaining_attempts r)
     @ member ''destinationKeysDigest'' JString (rc_destination_keys_digest r)
     @ member ''evidenceDigest'' JString (rc_evidence_digest r)
     @ member ''contribution'' id (rc_contribution r)
     @ member ''sessions'' (\<lambda>ns. JArray (map notice_json ns)) (rc_sessions r))"

text \<open>\<open>Receipt::default\<close> and \<open>Receipt::about\<close>.\<close>

definition receipt_default :: receipt where
  "receipt_default = \<lparr>
     rc_receipt_version = 0, rc_operation = [], rc_request_id = [], rc_component_id = [],
     rc_implementation_profile_id = [], rc_enrollment_id = [], rc_enrollment_sequence = 0,
     rc_policy_digest = [], rc_old_state = [], rc_new_state = [], rc_recorded_at = [],
     rc_expires_at = [], rc_session_id = None, rc_reason = None, rc_artifact_id = None,
     rc_artifact_digest = None, rc_slot = None, rc_sealed_contribution_digest = None,
     rc_storage_class = None, rc_cooldown_ends_at = None, rc_remaining_attempts = None,
     rc_destination_keys_digest = None, rc_evidence_digest = None, rc_contribution = None,
     rc_sessions = None\<rparr>"

definition receipt_about :: "string \<Rightarrow> enrollment_context \<Rightarrow> string \<Rightarrow> receipt" where
  "receipt_about component_id c operation = receipt_default \<lparr>
     rc_receipt_version := 1,
     rc_operation := operation,
     rc_component_id := component_id,
     rc_implementation_profile_id := ctx_implementation_profile_id c,
     rc_enrollment_id := ctx_enrollment_id c,
     rc_enrollment_sequence := ctx_enrollment_sequence c,
     rc_policy_digest := ctx_policy_digest c\<rparr>"

definition sign_object :: "extern \<Rightarrow> json \<Rightarrow> bytes \<Rightarrow> bytes" where
  "sign_object x v key =
     (let sig = sign x key (canonical x v)
      in canonical x (set_field ''signature'' (JString (base64_encode x sig)) v))"

section \<open>The contract names of the local states\<close>

definition enrollment_state_name :: "enrollment_status \<Rightarrow> i64 \<Rightarrow> i64 \<Rightarrow> string" where
  "enrollment_state_name st expires_at now =
     (case st of
        Accepted \<Rightarrow> if expires_at \<le> now then ''expired'' else ''active''
      | other \<Rightarrow> enrollment_status_name other)"

definition session_state_name :: "session_status \<Rightarrow> i64 \<Rightarrow> i64 \<Rightarrow> i64 \<Rightarrow> string" where
  "session_state_name st cooldown_ends_at expires_at now =
     (if (st = CoolingDown \<or> st = Released) \<and> expires_at \<le> now then ''expired''
      else if st = CoolingDown \<and> now < cooldown_ends_at then ''cooling_down''
      else
        (case st of
           CoolingDown \<Rightarrow> ''collecting''
         | Released \<Rightarrow> ''collecting''
         | Finalized \<Rightarrow> ''finalized''
         | Cancelled \<Rightarrow> ''cancelled''
         | Vetoed \<Rightarrow> ''cancelled''
         | Refused \<Rightarrow> ''refused''))"

definition session_reason :: "session_status \<Rightarrow> string option" where
  "session_reason st =
     (case st of
        Vetoed \<Rightarrow> Some (code_as_str RecoveryVetoed)
      | Refused \<Rightarrow> Some (code_as_str InvalidCandidateFactor)
      | _ \<Rightarrow> None)"

end
