(* ===== verification/Trustee_Core.thy ===== *)
theory Trustee_Core
  imports Requests Slip39
begin

text \<open>
  The protocol core, \<open>src/lib.rs\<close>: the limits and the manifest, the acceptance of a share
  envelope, the check of the protected artifact, the verification of a recovery session and
  of its factor, and the release of a contribution. Nothing here reads a clock or keeps state;
  \<open>usize\<close> is 64 bits wide.
\<close>

section \<open>Data\<close>

record limits =
  lim_skew_secs :: i64
  lim_min_cooldown_secs :: i64
  lim_max_cooldown_secs :: i64
  lim_max_session_lifetime_secs :: i64
  lim_max_attempts :: u32
  lim_max_enrollment_term_secs :: i64
  lim_max_artifact_bytes :: u64

record service =
  svc_endpoint :: string
  svc_trust_domain :: string
  svc_jurisdiction :: string
  svc_contact :: string

record trustee =
  tr_component_id :: string
  tr_hpke_key :: bytes
  tr_signing_key :: bytes
  tr_limits :: limits

record enrollment =
  enr_context :: enrollment_context
  enr_identity_binding_commitment :: string
  enr_member_index :: u8
  enr_member_threshold :: u8
  enr_member_count :: u8
  enr_policy :: trustee_policy
  enr_created_at :: i64
  enr_expires_at :: i64
  enr_authorization_key :: bytes

record evidence =
  ev_factor :: string
  ev_signature :: bytes

record session =
  ses_session_id :: string
  ses_enrollment_id :: string
  ses_enrollment_sequence :: u64
  ses_policy_digest :: string
  ses_artifact_id :: string
  ses_artifact_digest :: string
  ses_destination_key :: bytes
  ses_destination_keys_digest :: string
  ses_proof_key :: bytes
  ses_session_commitment :: string
  ses_requested_at :: i64
  ses_expires_at :: i64
  ses_evidence :: "evidence list"
  ses_canonical :: bytes

record contribution =
  con_canonical :: bytes
  con_sealed_digest :: string

section \<open>Limits and identity\<close>

definition max_request_bytes :: "limits \<Rightarrow> u64" where
  "max_request_bytes l =
     (let n = lim_max_artifact_bytes l
      in (n div 3 + (if 0 < n mod 3 then 1 else 0)) * 4 + 16 * 1024)"

definition public_key :: "extern \<Rightarrow> trustee \<Rightarrow> bytes" where
  "public_key x t = hpke_public_key x (tr_hpke_key t)"

definition key_id :: "extern \<Rightarrow> trustee \<Rightarrow> string" where
  "key_id x t = key_digest x (public_key x t)"

definition operator :: "extern \<Rightarrow> trustee \<Rightarrow> string" where
  "operator x t = ''onym:key:'' @ hex_encode x (ed25519_public_key x (tr_signing_key t))"

section \<open>Sessions and enrollments\<close>

definition binds :: "session \<Rightarrow> enrollment_context \<Rightarrow> bool" where
  "binds s c \<longleftrightarrow>
     ses_enrollment_id s = ctx_enrollment_id c
     \<and> ses_enrollment_sequence s = ctx_enrollment_sequence c
     \<and> ses_policy_digest s = ctx_policy_digest c
     \<and> ses_artifact_id s = ctx_artifact_id c
     \<and> ses_artifact_digest s = ctx_artifact_digest c"

section \<open>Accepting an enrollment\<close>

text \<open>\<open>SecretJson::parse\<close> is \<open>parse\<close>; what its drop wipes is in \<open>Secret_Json\<close>.\<close>

definition verified_envelope ::
  "extern \<Rightarrow> json \<Rightarrow> enrollment_context \<Rightarrow> share_envelope outcome" where
  "verified_envelope x document c =
     and_then (ok_or InvalidEnrollment (take_string ''holderAuthorization'' document))
       (\<lambda>(authorization, tree).
     (let signed_bytes = canonical x tree in
     and_then (ok_or InvalidEnrollment (envelope_of_json tree)) (\<lambda>envelope.
     and_then (ok_or InvalidEnrollment (hex32 x (env_authorization_public_key envelope))) (\<lambda>key.
     and_then (ok_or InvalidEnrollment (signature x authorization)) (\<lambda>sig.
     and_then (map_err (\<lambda>_. InvalidEnrollment) (verify x key signed_bytes sig)) (\<lambda>_.
     if \<not> repeats x envelope c then Inl InvalidEnrollment else Inr envelope))))))"

definition policy ::
  "extern \<Rightarrow> limits \<Rightarrow> policy_fields \<Rightarrow> trustee_policy outcome" where
  "policy x l pf =
     (case pf_candidate_factors pf of
        [factor] \<Rightarrow>
          and_then (ok_or InvalidPolicy
              (Option.bind (Option.bind (strip_prefix FACTOR_ED25519_SESSION factor) (hex32 x))
                (\<lambda>key. if is_usable_verifying_key x key then Some key else None))) (\<lambda>key.
          and_then (ok_or InvalidPolicy (duration (pf_cooldown pf))) (\<lambda>cooldown.
          and_then (ok_or InvalidPolicy (duration (pf_session_lifetime pf))) (\<lambda>lifetime.
          let valid =
                pf_notifications pf = [NOTICE_HOLDER_POLL]
                \<and> pf_holder_veto pf = VETO_AUTHORIZATION_KEY
                \<and> pf_lapse_policy pf = LAPSE_NONE
                \<and> (lim_min_cooldown_secs l \<le> cooldown \<and> cooldown \<le> lim_max_cooldown_secs l)
                \<and> cooldown < lifetime
                \<and> lifetime \<le> lim_max_session_lifetime_secs l
                \<and> (1 \<le> pf_maximum_attempts pf
                   \<and> pf_maximum_attempts pf \<le> ucast (lim_max_attempts l))
          in if \<not> valid then Inl InvalidPolicy
             else Inr \<lparr>factor_key = key, cooldown_secs = cooldown,
                       session_lifetime_secs = lifetime,
                       maximum_attempts = ucast (pf_maximum_attempts pf)\<rparr>)))
      | _ \<Rightarrow> Inl InvalidPolicy)"

fun share_error_code :: "share_error \<Rightarrow> code" where
  "share_error_code Malformed = InvalidEnrollment"
| "share_error_code Unsupported = UnsupportedProfile"

definition admit_envelope ::
  "extern \<Rightarrow> trustee \<Rightarrow> share_envelope \<Rightarrow> enrollment_context \<Rightarrow> i64 \<Rightarrow> enrollment outcome" where
  "admit_envelope x t e c now =
     (if env_version e \<noteq> 1 \<or> env_recovery_mode e \<noteq> RECOVERY_MODE then Inl UnsupportedProfile
      else
        (let index = env_member_index e;
             threshold = env_member_threshold e;
             count = env_member_count e;
             parameters_valid =
               2 \<le> threshold \<and> threshold \<le> count \<and> count \<le> 16 \<and> index < count
         in if \<not> parameters_valid \<or> \<not> is_digest x (env_identity_binding_commitment e)
            then Inl InvalidEnrollment
            else
     and_then (map_err share_error_code (validate (env_slip39_share e))) (\<lambda>share.
     if ucast (sh_member_index share) \<noteq> index \<or> ucast (sh_member_threshold share) \<noteq> threshold
     then Inl InvalidEnrollment
     else
     and_then (ok_or InvalidEnrollment (timestamp x (env_created_at e))) (\<lambda>created_at.
     and_then (ok_or InvalidEnrollment (timestamp x (env_expires_at e))) (\<lambda>expires_at.
     if i64_add now (lim_skew_secs (tr_limits t)) < created_at then Inl InvalidEnrollment
     else if expires_at \<le> now then Inl EnrollmentExpired
     else if i64_add now (lim_max_enrollment_term_secs (tr_limits t)) < expires_at
     then Inl InvalidEnrollment
     else
     and_then (policy x (tr_limits t) (env_trustee_policy e)) (\<lambda>p.
     and_then (ok_or InvalidEnrollment (hex32 x (env_authorization_public_key e))) (\<lambda>key.
     Inr \<lparr>enr_context = c,
          enr_identity_binding_commitment = env_identity_binding_commitment e,
          enr_member_index = sh_member_index share,
          enr_member_threshold = sh_member_threshold share,
          enr_member_count = ucast count,
          enr_policy = p,
          enr_created_at = created_at,
          enr_expires_at = expires_at,
          enr_authorization_key = key\<rparr>)))))))"

definition accept_enrollment ::
  "extern \<Rightarrow> trustee \<Rightarrow> enrollment_context \<Rightarrow> bytes \<Rightarrow> i64 \<Rightarrow> enrollment outcome" where
  "accept_enrollment x t c sealed now =
     (if ctx_implementation_profile_id c \<noteq> IMPLEMENTATION_PROFILE_ID then Inl UnsupportedProfile
      else if \<not> is_well_formed x c \<or> ctx_trustee_component_id c \<noteq> tr_component_id t
      then Inl InvalidEnrollment
      else
     and_then (map_err (\<lambda>_. InvalidEnrollment)
         (open_sealed x (tr_hpke_key t) (context_info x c) sealed)) (\<lambda>plaintext.
     and_then (ok_or InvalidEnrollment (parse x plaintext)) (\<lambda>document.
     and_then (verified_envelope x document c) (\<lambda>envelope.
     admit_envelope x t envelope c now))))"

section \<open>Checking the protected artifact\<close>

definition check_artifact :: "extern \<Rightarrow> trustee \<Rightarrow> enrollment \<Rightarrow> bytes \<Rightarrow> unit outcome" where
  "check_artifact x t en raw =
     and_then (ok_or InvalidEnrollment (parse x raw)) (\<lambda>v.
     and_then (ok_or InvalidEnrollment (take_string ''artifactDigest'' v)) (\<lambda>(claimed, rest).
     let computed = digest x (canonical x rest) in
     and_then (ok_or InvalidEnrollment (artifact_of_json rest)) (\<lambda>a.
     and_then (ok_or InvalidEnrollment (base64 x (pa_ciphertext a))) (\<lambda>ciphertext.
     let well_formed =
           pa_version a = 1
           \<and> pa_aead a = ARTIFACT_AEAD
           \<and> hex_bytes x 12 (pa_nonce a) \<noteq> None
           \<and> (16 \<le> length ciphertext
              \<and> length ciphertext \<le> unat (lim_max_artifact_bytes (tr_limits t)))
     in if \<not> well_formed then Inl InvalidEnrollment
        else
          (let c = enr_context en;
               bound =
                 claimed = computed
                 \<and> computed = ctx_artifact_digest c
                 \<and> pa_implementation_profile_id a = ctx_implementation_profile_id c
                 \<and> pa_enrollment_id a = ctx_enrollment_id c
                 \<and> pa_enrollment_sequence a = ctx_enrollment_sequence c
                 \<and> pa_policy_digest a = ctx_policy_digest c
                 \<and> pa_identity_binding_commitment a = enr_identity_binding_commitment en
                 \<and> pa_recovery_mode a = RECOVERY_MODE
                 \<and> pa_artifact_id a = ctx_artifact_id c
           in if \<not> bound then Inl ArtifactMismatch else Inr ())))))"

section \<open>Verifying a session\<close>

definition evidence_list :: "extern \<Rightarrow> json \<Rightarrow> evidence list option" where
  "evidence_list x v =
     Option.bind (as_vec evidence_of_json v) (\<lambda>items.
       those (map (\<lambda>(factor, sig).
         map_option (\<lambda>s. \<lparr>ev_factor = factor, ev_signature = s\<rparr>) (signature x sig)) items))"

definition verify_session :: "extern \<Rightarrow> bytes \<Rightarrow> bytes \<Rightarrow> session outcome" where
  "verify_session x entropy raw =
     and_then (ok_or InvalidRequest (parse x raw)) (\<lambda>v0.
     let canonical_bytes = canonical x v0 in
     and_then (ok_or InvalidRequest (take_string ''candidateProof'' v0)) (\<lambda>(proof_text, v1).
     let signed_bytes = canonical x v1 in
     and_then (ok_or InvalidRequest (take_field ''candidateEvidence'' v1)) (\<lambda>(evidence_value, v2).
     let session_commitment = digest x (canonical x v2) in
     and_then (ok_or InvalidRequest (core_of_json v2)) (\<lambda>core.
     and_then (ok_or InvalidRequest (evidence_list x evidence_value)) (\<lambda>evidence.
     and_then (ok_or InvalidRequest (timestamp x (core_requested_at core))) (\<lambda>requested_at.
     and_then (ok_or InvalidRequest (timestamp x (core_expires_at core))) (\<lambda>expires_at.
     let well_formed =
           core_session_version core = 1
           \<and> hex32 x (core_session_id core) \<noteq> None
           \<and> hex32 x (core_enrollment_id core) \<noteq> None
           \<and> sequence (core_enrollment_sequence core) \<noteq> None
           \<and> is_digest x (core_policy_digest core)
           \<and> hex32 x (core_artifact_id core) \<noteq> None
           \<and> is_digest x (core_artifact_digest core) in
     if \<not> well_formed then Inl InvalidRequest
     else
     let dest = core_destination core in
     and_then (ok_or InvalidRequest (hex32 x (dst_proof_public_key dest))) (\<lambda>proof_key.
     and_then (ok_or InvalidRequest (signature x proof_text)) (\<lambda>proof.
     and_then (map_err (\<lambda>_. InvalidRequest) (verify x proof_key signed_bytes proof)) (\<lambda>_.
     and_then (ok_or InvalidDestination (hex32 x (dst_encryption_public_key dest)))
       (\<lambda>destination_key.
     let suites_match =
           dst_encryption_suite dest = ENCRYPTION_SUITE \<and> dst_proof_suite dest = PROOF_SUITE in
     if \<not> suites_match
        \<or> \<not> is_ok (seal x entropy destination_key (as_bytes ''onym-destination-check'') [])
     then Inl InvalidDestination
     else Inr
       \<lparr>ses_session_id = core_session_id core,
        ses_enrollment_id = core_enrollment_id core,
        ses_enrollment_sequence = core_enrollment_sequence core,
        ses_policy_digest = core_policy_digest core,
        ses_artifact_id = core_artifact_id core,
        ses_artifact_digest = core_artifact_digest core,
        ses_destination_key = destination_key,
        ses_destination_keys_digest = destination_keys_digest x (index_field v2 ''destination''),
        ses_proof_key = proof_key,
        ses_session_commitment = session_commitment,
        ses_requested_at = requested_at,
        ses_expires_at = expires_at,
        ses_evidence = evidence,
        ses_canonical = canonical_bytes\<rparr>)))))))))))"

definition check_factor :: "extern \<Rightarrow> enrollment \<Rightarrow> session \<Rightarrow> unit outcome" where
  "check_factor x en s =
     (case ses_evidence s of
        [evidence] \<Rightarrow>
          (let factor = factor_key (enr_policy en);
               enrolled = FACTOR_ED25519_SESSION @ hex_encode x factor;
               c = enr_context en;
               message = factor_message x (ses_session_commitment s)
                 (ctx_trustee_component_id c) (ctx_slot c)
           in if ev_factor evidence \<noteq> enrolled
                 \<or> \<not> is_ok (verify x factor message (ev_signature evidence))
              then Inl InvalidCandidateFactor else Inr ())
      | _ \<Rightarrow> Inl InvalidCandidateFactor)"

section \<open>Releasing a contribution\<close>

definition release_contribution ::
  "extern \<Rightarrow> trustee \<Rightarrow> bytes \<Rightarrow> enrollment \<Rightarrow> bytes \<Rightarrow> session \<Rightarrow> i64 \<Rightarrow> contribution outcome" where
  "release_contribution x t entropy en sealed s now =
     (let c = enr_context en in
     if \<not> binds s c then Inl InvalidRequest
     else
     and_then (map_err (\<lambda>_. TemporarilyUnavailable)
         (open_sealed x (tr_hpke_key t) (context_info x c) sealed)) (\<lambda>plaintext.
     and_then (ok_or TemporarilyUnavailable (parse x plaintext)) (\<lambda>document.
     and_then (map_err (\<lambda>_. TemporarilyUnavailable) (verified_envelope x document c)) (\<lambda>_.
     and_then (ok_or TemporarilyUnavailable (format_timestamp x (ses_expires_at s))) (\<lambda>expires_at.
     and_then (ok_or TemporarilyUnavailable (format_timestamp x now)) (\<lambda>decided_at.
     let info = recovery_info x (ses_session_id s) c (ses_destination_keys_digest s) expires_at in
     and_then (map_err (\<lambda>_. InvalidDestination)
         (seal x entropy (ses_destination_key s) info plaintext)) (\<lambda>resealed.
     let ap =
       \<lparr>ap_contribution_version = 1,
        ap_session_id = ses_session_id s,
        ap_enrollment_id = ctx_enrollment_id c,
        ap_enrollment_sequence = ctx_enrollment_sequence c,
        ap_policy_digest = ctx_policy_digest c,
        ap_artifact_id = ctx_artifact_id c,
        ap_artifact_digest = ctx_artifact_digest c,
        ap_component_id = ctx_trustee_component_id c,
        ap_slot = ctx_slot c,
        ap_decision = ''approved'',
        ap_destination_keys_digest = ses_destination_keys_digest s,
        ap_sealed_contribution = base64_encode x resealed,
        ap_decided_at = decided_at,
        ap_expires_at = expires_at\<rparr>
     in Inr \<lparr>con_canonical = sign_object x (approval_json ap) (tr_signing_key t),
            con_sealed_digest = digest x resealed\<rparr>)))))))"

end
