(* ===== verification/Tables.thy ===== *)
theory Tables
  imports Trustee_Prelude
begin

text \<open>
  Tables of the database as lists of rows in insertion order, with the statements the store
  uses: a lookup by key, an insert that a primary key can refuse, an update and a delete of the
  rows a condition selects. The interface \<open>keyed_table\<close> is what the store relies on: its
  interpretations, one per table, are in \<open>Store_Rows\<close>.
\<close>

section \<open>Statements\<close>

definition select_row :: "('r \<Rightarrow> bool) \<Rightarrow> 'r list \<Rightarrow> 'r option" where
  "select_row P t = find P t"

definition insert_row :: "('r \<Rightarrow> 'k) \<Rightarrow> 'r \<Rightarrow> 'r list \<Rightarrow> 'r list option" where
  "insert_row key r t = (if key r \<in> set (map key t) then None else Some (t @ [r]))"

definition update_rows :: "('r \<Rightarrow> bool) \<Rightarrow> ('r \<Rightarrow> 'r) \<Rightarrow> 'r list \<Rightarrow> 'r list" where
  "update_rows P f t = map (\<lambda>r. if P r then f r else r) t"

definition delete_rows :: "('r \<Rightarrow> bool) \<Rightarrow> 'r list \<Rightarrow> 'r list" where
  "delete_rows P t = filter (\<lambda>r. \<not> P r) t"

section \<open>Lookup by key\<close>

definition at_key :: "('r \<Rightarrow> 'k) \<Rightarrow> 'r list \<Rightarrow> 'k \<Rightarrow> 'r option" where
  "at_key key t k = select_row (\<lambda>r. key r = k) t"

lemma select_row_Some:
  "select_row P t = Some r \<Longrightarrow> r \<in> set t \<and> P r"
  by (auto simp: select_row_def find_Some_iff)

lemma select_row_None: "select_row P t = None \<longleftrightarrow> (\<forall>r\<in>set t. \<not> P r)"
  by (auto simp: select_row_def find_None_iff)

lemma at_key_Some: "at_key key t k = Some r \<Longrightarrow> r \<in> set t \<and> key r = k"
  by (auto simp: at_key_def dest: select_row_Some)

lemma at_key_None: "at_key key t k = None \<longleftrightarrow> k \<notin> key ` set t"
  by (auto simp: at_key_def select_row_None)

lemma insert_row_Some [result_iff]:
  "insert_row key r t = Some t' \<longleftrightarrow> key r \<notin> key ` set t \<and> t' = t @ [r]"
  by (auto simp: insert_row_def)

lemma insert_row_None: "insert_row key r t = None \<longleftrightarrow> key r \<in> key ` set t"
  by (auto simp: insert_row_def)

lemma set_update_rows: "set (update_rows P f t) = (\<lambda>r. if P r then f r else r) ` set t"
  by (simp add: update_rows_def)

lemma set_delete_rows [simp]: "set (delete_rows P t) = {r \<in> set t. \<not> P r}"
  by (auto simp: delete_rows_def)

lemma find_append: "find P (xs @ ys) = (case find P xs of None \<Rightarrow> find P ys | Some r \<Rightarrow> Some r)"
  by (induction xs) auto

text \<open>Every row of the first table is still in the second, in the given relation to its old self.\<close>

definition rows_lead :: "('r \<Rightarrow> 'r \<Rightarrow> bool) \<Rightarrow> ('k \<Rightarrow> 'r option) \<Rightarrow> ('k \<Rightarrow> 'r option) \<Rightarrow> bool" where
  "rows_lead R a b \<longleftrightarrow> (\<forall>k r. a k = Some r \<longrightarrow> (\<exists>r'. b k = Some r' \<and> R r r'))"

lemma rows_leadD: "rows_lead R a b \<Longrightarrow> a k = Some r \<Longrightarrow> \<exists>r'. b k = Some r' \<and> R r r'"
  by (simp add: rows_lead_def)

lemma rows_lead_refl: "(\<And>r. R r r) \<Longrightarrow> rows_lead R a a"
  by (simp add: rows_lead_def)

lemma rows_lead_trans:
  assumes "rows_lead R a b" "rows_lead S b c" "\<And>p q r. R p q \<Longrightarrow> S q r \<Longrightarrow> T p r"
  shows "rows_lead T a c"
  unfolding rows_lead_def
proof (intro allI impI)
  fix k p assume "a k = Some p"
  then obtain q where "b k = Some q" "R p q"
    using assms(1) rows_leadD by metis
  moreover from this obtain r where "c k = Some r" "S q r"
    using assms(2) rows_leadD by metis
  ultimately show "\<exists>r. c k = Some r \<and> T p r"
    using assms(3) by blast
qed

text \<open>
  The contract of a table with a primary key: what a lookup finds after each statement, and
  that the key stays a key. An update must leave the key of the rows it changes alone.
\<close>

locale keyed_table =
  fixes key :: "'r \<Rightarrow> 'k" and lookup :: "'r list \<Rightarrow> 'k \<Rightarrow> 'r option"
  assumes lookup_iff: "distinct (map key t) \<Longrightarrow> lookup t k = Some r \<longleftrightarrow> r \<in> set t \<and> key r = k"
    and lookup_None: "lookup t k = None \<longleftrightarrow> k \<notin> key ` set t"
    and lookup_insert: "insert_row key r t = Some t' \<Longrightarrow>
          lookup t' k = (if k = key r then Some r else lookup t k)"
    and lookup_update: "(\<And>r. key (f r) = key r) \<Longrightarrow>
          lookup (update_rows (\<lambda>r. key r = k) f t) l =
            (if l = k then map_option f (lookup t l) else lookup t l)"
begin

lemma insert_keeps_key: "insert_row key r t = Some t' \<Longrightarrow> distinct (map key t) \<Longrightarrow> distinct (map key t')"
  by (auto simp: result_iff)

lemma update_keeps_key:
  "(\<And>r. key (f r) = key r) \<Longrightarrow> map key (update_rows P f t) = map key t"
  by (simp add: update_rows_def)

lemma delete_keeps_key: "distinct (map key t) \<Longrightarrow> distinct (map key (delete_rows P t))"
  by (simp add: delete_rows_def distinct_map_filter)

lemma lookup_in: "lookup t k = Some r \<Longrightarrow> distinct (map key t) \<Longrightarrow> r \<in> set t \<and> key r = k"
  by (simp add: lookup_iff)

lemma row_unique:
  "distinct (map key t) \<Longrightarrow> r \<in> set t \<Longrightarrow> s \<in> set t \<Longrightarrow> key r = key s \<Longrightarrow> r = s"
  using lookup_iff [of t "key s" r] lookup_iff [of t "key s" s] by auto

lemma lookup_old: "insert_row key r t = Some t' \<Longrightarrow> lookup t k = Some s \<Longrightarrow> lookup t' k = Some s"
proof -
  assume ins: "insert_row key r t = Some t'" and old: "lookup t k = Some s"
  then have "k \<noteq> key r"
    using lookup_None [of t "key r"] by (auto simp: result_iff)
  then show ?thesis
    using lookup_insert [OF ins] old by simp
qed

end

lemma at_key_insert:
  "insert_row key r t = Some t' \<Longrightarrow> at_key key t' k = (if k = key r then Some r else at_key key t k)"
proof -
  assume ins: "insert_row key r t = Some t'"
  have "key r \<notin> key ` set t \<Longrightarrow>
      at_key key (t @ [r]) k = (if k = key r then Some r else at_key key t k)"
    by (induction t) (auto simp: at_key_def select_row_def)
  with ins show ?thesis
    by (simp add: result_iff)
qed

lemma at_key_update:
  assumes "\<And>r. key (f r) = key r"
  shows "at_key key (update_rows (\<lambda>r. key r = k) f t) l =
    (if l = k then map_option f (at_key key t l) else at_key key t l)"
  by (induction t) (auto simp: at_key_def select_row_def update_rows_def assms)

lemma at_key_iff: "distinct (map key t) \<Longrightarrow> at_key key t k = Some r \<longleftrightarrow> r \<in> set t \<and> key r = k"
  by (induction t) (auto simp: at_key_def select_row_def image_iff)

lemma at_key_table: "keyed_table key (at_key key)"
  by unfold_locales (simp_all add: at_key_iff at_key_None at_key_insert at_key_update)

end
