(* ===== verification/Store_Rows.thy ===== *)
theory Store_Rows
  imports Trustee_Core Tables
begin

text \<open>
  The state of \<open>src/store.rs\<close>: the tables of its schema as lists of rows, the opening and
  binding of the database, the write transaction with its clock floor, the row lookups, and
  what every signed request goes through (signature, freshness, nonce, recorded outcome). The
  columns hold typed values: a status is stored by its name and \<open>record\<close> as JSON text, and
  both read back as the value written.
\<close>

section \<open>Rows and database\<close>

record invitation_row =
  inv_digest :: string
  inv_expires_at :: i64
  inv_used_at :: "i64 option"

record challenge_row =
  chl_challenge :: string
  chl_invitation :: string
  chl_expires_at :: i64
  chl_used_at :: "i64 option"

record enrollment_row =
  erow_enrollment_id :: string
  erow_sequence :: u64
  erow_status :: enrollment_status
  erow_challenge :: string
  erow_request_digest :: string
  erow_enrollment :: enrollment
  erow_attempts_used :: u32
  erow_stored_at :: i64
  erow_sealed_envelope :: "bytes option"
  erow_protected_artifact :: "bytes option"

record session_row =
  srow_session_id :: string
  srow_enrollment_id :: string
  srow_sequence :: u64
  srow_status :: session_status
  srow_request :: bytes
  srow_proof_key :: bytes
  srow_destination_keys_digest :: string
  srow_cooldown_ends_at :: i64
  srow_expires_at :: i64
  srow_remaining_attempts :: u32
  srow_created_at :: i64
  srow_contribution :: "bytes option"

record nonce_row =
  nr_scope :: string
  nr_request_id :: string
  nr_seen_at :: i64

record outcome_row =
  or_scope :: string
  or_request_id :: string
  or_request_digest :: string
  or_operation :: string
  or_old_state :: string
  or_new_state :: string
  or_recorded_at :: i64

record identity_row =
  id_component_id :: string
  id_operator :: string
  id_trustee_key_id :: string

record db =
  db_version :: nat
  db_high_water :: i64
  db_invitations :: "invitation_row list"
  db_challenges :: "challenge_row list"
  db_enrollments :: "enrollment_row list"
  db_sessions :: "session_row list"
  db_nonces :: "nonce_row list"
  db_outcomes :: "outcome_row list"
  db_identity :: "identity_row option"

text \<open>The primary keys.\<close>

definition enrollment_key :: "enrollment_row \<Rightarrow> string \<times> u64" where
  "enrollment_key r = (erow_enrollment_id r, erow_sequence r)"

definition nonce_key :: "nonce_row \<Rightarrow> string \<times> string" where
  "nonce_key r = (nr_scope r, nr_request_id r)"

definition outcome_key :: "outcome_row \<Rightarrow> string \<times> string" where
  "outcome_key r = (or_scope r, or_request_id r)"

interpretation invitations: keyed_table inv_digest "at_key inv_digest"
  by (rule at_key_table)

interpretation challenges: keyed_table chl_challenge "at_key chl_challenge"
  by (rule at_key_table)

interpretation enrollments: keyed_table enrollment_key "at_key enrollment_key"
  by (rule at_key_table)

interpretation sessions: keyed_table srow_session_id "at_key srow_session_id"
  by (rule at_key_table)

interpretation nonces: keyed_table nonce_key "at_key nonce_key"
  by (rule at_key_table)

interpretation outcomes: keyed_table outcome_key "at_key outcome_key"
  by (rule at_key_table)

section \<open>Opening and binding\<close>

text \<open>
  \<open>None\<close> is the refusal of an unknown schema version. A file just created has version 0 and no
  tables; each migration gives its own tables their first contents.
\<close>

definition SCHEMA_VERSION :: nat where
  "SCHEMA_VERSION = 2"

definition empty_db :: db where
  "empty_db = \<lparr>db_version = 0, db_high_water = 0, db_invitations = [], db_challenges = [],
     db_enrollments = [], db_sessions = [], db_nonces = [], db_outcomes = [], db_identity = None\<rparr>"

definition MIGRATIONS :: "(db \<Rightarrow> db) list" where
  "MIGRATIONS = [
     \<lambda>d. d\<lparr>db_high_water := 0, db_invitations := [], db_challenges := [], db_enrollments := [],
            db_sessions := [], db_nonces := [], db_outcomes := []\<rparr>,
     \<lambda>d. d\<lparr>db_identity := None\<rparr>]"

function setup_store :: "db \<Rightarrow> db option" where
  "setup_store d =
     (if db_version d < length MIGRATIONS
      then setup_store (((MIGRATIONS ! db_version d) d)\<lparr>db_version := db_version d + 1\<rparr>)
      else if db_version d = length MIGRATIONS then Some d
      else None)"
  by pat_completeness auto
termination
  by (relation "measure (\<lambda>d. length MIGRATIONS - db_version d)") auto

declare setup_store.simps [simp del]

definition identity_of :: "extern \<Rightarrow> trustee \<Rightarrow> identity_row" where
  "identity_of x t = \<lparr>id_component_id = tr_component_id t, id_operator = operator x t,
     id_trustee_key_id = key_id x t\<rparr>"

definition bind_store :: "extern \<Rightarrow> trustee \<Rightarrow> db \<Rightarrow> db \<times> bool" where
  "bind_store x t d =
     (let unbound_custody = db_identity d = None \<and> db_enrollments d \<noteq> []
      in if unbound_custody then (d, False)
         else
           (let stored = (case db_identity d of None \<Rightarrow> identity_of x t | Some i \<Rightarrow> i)
            in (d\<lparr>db_identity := Some stored\<rparr>, stored = identity_of x t)))"

section \<open>Transactions\<close>

text \<open>
  The body of a handler gives the error it returns before its commit, which leaves the
  database as it was, or the committed database and what it returns afterwards.
\<close>

type_synonym 'a step = "code + (db \<times> 'a outcome)"

definition run_step :: "db \<Rightarrow> 'a step \<Rightarrow> db \<times> 'a outcome" where
  "run_step d s = (case s of Inl c \<Rightarrow> (d, Inl c) | Inr p \<Rightarrow> p)"

definition transaction :: "i64 \<Rightarrow> db \<Rightarrow> (db \<times> i64) outcome" where
  "transaction now d =
     (if now < db_high_water d then Inl TemporarilyUnavailable
      else Inr (d\<lparr>db_high_water := now\<rparr>, db_high_water d))"

text \<open>
  What the operating system gives: the bytes of a fresh identifier (or a failure), the
  ephemeral key of the trial seal and the one of the release.
\<close>

record entropy =
  ent_id :: "bytes option"
  ent_check :: bytes
  ent_seal :: bytes

definition random_id :: "extern \<Rightarrow> entropy \<Rightarrow> string outcome" where
  "random_id x e = ok_or TemporarilyUnavailable (map_option (hex_encode x) (ent_id e))"

definition time :: "extern \<Rightarrow> i64 \<Rightarrow> string outcome" where
  "time x unix_seconds = ok_or TemporarilyUnavailable (format_timestamp x unix_seconds)"

section \<open>Row lookups\<close>

definition erow_state :: "enrollment_row \<Rightarrow> enrollment_state" where
  "erow_state r = \<lparr>es_status = erow_status r,
     es_sequence = ctx_enrollment_sequence (enr_context (erow_enrollment r)),
     es_expires_at = enr_expires_at (erow_enrollment r)\<rparr>"

definition srow_state :: "session_row \<Rightarrow> session_state" where
  "srow_state r = \<lparr>ss_status = srow_status r, ss_sequence = srow_sequence r,
     ss_cooldown_ends_at = srow_cooldown_ends_at r, ss_expires_at = srow_expires_at r\<rparr>"

definition load_enrollment :: "db \<Rightarrow> string \<Rightarrow> u64 \<Rightarrow> enrollment_row outcome" where
  "load_enrollment d i n =
     ok_or TemporarilyUnavailable (at_key enrollment_key (db_enrollments d) (i, n))"

text \<open>\<open>ORDER BY sequence DESC LIMIT 1\<close> among the rows of one enrollment ID.\<close>

fun latest :: "string \<Rightarrow> enrollment_row option \<Rightarrow> enrollment_row list \<Rightarrow> enrollment_row option" where
  "latest i best [] = best"
| "latest i best (r # rs) =
     latest i
       (if erow_enrollment_id r = i
           \<and> (case best of None \<Rightarrow> True | Some b \<Rightarrow> erow_sequence b < erow_sequence r)
        then Some r else best) rs"

definition load_current_enrollment :: "db \<Rightarrow> string \<Rightarrow> enrollment_row option" where
  "load_current_enrollment d i = latest i None (db_enrollments d)"

definition load_session :: "db \<Rightarrow> string \<Rightarrow> session_row option" where
  "load_session d i = at_key srow_session_id (db_sessions d) i"

definition session_enrollment :: "db \<Rightarrow> session_row \<Rightarrow> enrollment_row outcome" where
  "session_enrollment d s = load_enrollment d (srow_enrollment_id s) (srow_sequence s)"

text \<open>\<open>ORDER BY created_at, session_id\<close>: two stable sorts, the minor key first.\<close>

definition load_sessions :: "db \<Rightarrow> enrollment \<Rightarrow> session_row list" where
  "load_sessions d en =
     (let c = enr_context en
      in sort_key srow_created_at (sort_key srow_session_id
           (filter (\<lambda>s. srow_enrollment_id s = ctx_enrollment_id c
              \<and> srow_sequence s = ctx_enrollment_sequence c) (db_sessions d))))"

definition spend_challenge :: "string \<Rightarrow> string \<Rightarrow> i64 \<Rightarrow> db \<Rightarrow> db" where
  "spend_challenge challenge invitation now d =
     d\<lparr>db_challenges := update_rows (\<lambda>r. chl_challenge r = challenge)
          (\<lambda>r. r\<lparr>chl_used_at := Some now\<rparr>) (db_challenges d),
       db_invitations := update_rows (\<lambda>r. inv_digest r = invitation)
          (\<lambda>r. r\<lparr>inv_used_at := Some now\<rparr>) (db_invitations d)\<rparr>"

section \<open>Signed requests: signature, freshness, replay, idempotency\<close>

datatype scope = Scope_Enrollment string u64 | Scope_Session string

definition scope_of_enrollment :: "enrollment \<Rightarrow> scope" where
  "scope_of_enrollment en =
     Scope_Enrollment (ctx_enrollment_id (enr_context en)) (ctx_enrollment_sequence (enr_context en))"

fun scope_key :: "scope \<Rightarrow> string" where
  "scope_key (Scope_Enrollment i n) = ''enrollment:'' @ i @ '':'' @ decimal_text (unat n)"
| "scope_key (Scope_Session i) = ''session:'' @ i"

definition verify_signature :: "extern \<Rightarrow> signed \<Rightarrow> bytes \<Rightarrow> unit outcome" where
  "verify_signature x sg key =
     map_err (\<lambda>_. InvalidRequest) (verify x key (sg_message sg) (sg_signature sg))"

definition check_fresh :: "signed \<Rightarrow> trustee \<Rightarrow> i64 \<Rightarrow> unit outcome" where
  "check_fresh sg t now =
     (if lim_skew_secs (tr_limits t) < i64_abs (i64_sub (sg_issued_at sg) now)
      then Inl InvalidRequest else Inr ())"

definition spend_nonce :: "scope \<Rightarrow> signed \<Rightarrow> trustee \<Rightarrow> i64 \<Rightarrow> db \<Rightarrow> db outcome" where
  "spend_nonce sc sg t now d =
     (let cutoff = i64_sub now (i64_mul 2 (lim_skew_secs (tr_limits t)));
          kept = delete_rows (\<lambda>r. nr_seen_at r < cutoff) (db_nonces d);
          row = \<lparr>nr_scope = scope_key sc, nr_request_id = sg_request_id sg, nr_seen_at = now\<rparr>
      in case insert_row nonce_key row kept of
           None \<Rightarrow> Inl InvalidRequest
         | Some rows \<Rightarrow> Inr (d\<lparr>db_nonces := rows\<rparr>))"

definition recorded_outcome :: "db \<Rightarrow> scope \<Rightarrow> signed \<Rightarrow> string option" where
  "recorded_outcome d sc sg =
     map_option or_request_digest
       (at_key outcome_key (db_outcomes d) (scope_key sc, sg_request_id sg))"

definition record_outcome ::
  "scope \<Rightarrow> signed \<Rightarrow> string \<Rightarrow> string \<Rightarrow> i64 \<Rightarrow> db \<Rightarrow> db outcome" where
  "record_outcome sc sg old_state new_state now d =
     (let row = \<lparr>or_scope = scope_key sc, or_request_id = sg_request_id sg,
            or_request_digest = sg_digest sg, or_operation = sg_operation sg,
            or_old_state = old_state, or_new_state = new_state, or_recorded_at = now\<rparr>
      in and_then (ok_or TemporarilyUnavailable (insert_row outcome_key row (db_outcomes d)))
           (\<lambda>rows. Inr (d\<lparr>db_outcomes := rows\<rparr>)))"

end
