(* ===== verification/Store.thy ===== *)
theory Store
  imports Store_Rows
begin

text \<open>
  The operations of \<open>src/store.rs\<close>, one definition per handler, in the order of the source.
  Each handler is a \<open>step\<close>: an error before the commit, or the committed database and the
  response built from it; \<open>handle\<close> runs the one a request names.
\<close>

section \<open>Constants\<close>

definition OPERATIONS :: "string list" where
  "OPERATIONS = [''issue-challenge'', ''enroll'', ''read-enrollment'', ''begin-recovery'',
     ''read-recovery'', ''cancel-recovery'', ''revoke-enrollment'', ''close-enrollment'']"

definition REFUSED :: "(string \<times> code) list" where
  "REFUSED = [(''bootstrap-recovery'', BootstrapUnavailable),
     (''export-enrollment'', ExportUnavailable), (''finalize-recovery'', InvalidRequest),
     (''rotate-enrollment'', InvalidRequest)]"

definition CHALLENGE_LIFETIME_SECS :: i64 where
  "CHALLENGE_LIFETIME_SECS = 15 * 60"

definition MAX_OPEN_CHALLENGES :: i64 where
  "MAX_OPEN_CHALLENGES = 4"

section \<open>Invitations and challenges\<close>

definition create_invitation :: "extern \<Rightarrow> entropy \<Rightarrow> i64 \<Rightarrow> i64 \<Rightarrow> db \<Rightarrow> string step" where
  "create_invitation x e lifetime_secs now d =
     and_then (random_id x e) (\<lambda>code_text.
     and_then (transaction now d) (\<lambda>(d, _).
     let row = \<lparr>inv_digest = digest x (as_bytes code_text),
           inv_expires_at = i64_add now lifetime_secs, inv_used_at = None\<rparr> in
     and_then (ok_or TemporarilyUnavailable (insert_row inv_digest row (db_invitations d)))
       (\<lambda>rows. Inr (d\<lparr>db_invitations := rows\<rparr>, Inr code_text))))"

definition invitation_open :: "db \<Rightarrow> string \<Rightarrow> i64 \<Rightarrow> bool" where
  "invitation_open d invitation now \<longleftrightarrow>
     (case at_key inv_digest (db_invitations d) invitation of
        None \<Rightarrow> False
      | Some i \<Rightarrow> inv_used_at i = None \<and> now < inv_expires_at i)"

definition challenge_open :: "challenge_row \<Rightarrow> i64 \<Rightarrow> bool" where
  "challenge_open c now \<longleftrightarrow> chl_used_at c = None \<and> now < chl_expires_at c"

definition open_challenges :: "db \<Rightarrow> string \<Rightarrow> i64 \<Rightarrow> i64 option" where
  "open_challenges d invitation now =
     (if invitation_open d invitation now
      then Some (int (length (filter (\<lambda>c. chl_invitation c = invitation \<and> challenge_open c now)
             (db_challenges d))))
      else None)"

text \<open>The foreign key of \<open>challenges\<close> asks for the invitation's row.\<close>

definition insert_challenge :: "challenge_row \<Rightarrow> db \<Rightarrow> db outcome" where
  "insert_challenge row d =
     (if chl_invitation row \<notin> inv_digest ` set (db_invitations d) then Inl TemporarilyUnavailable
      else and_then (ok_or TemporarilyUnavailable (insert_row chl_challenge row (db_challenges d)))
        (\<lambda>rows. Inr (d\<lparr>db_challenges := rows\<rparr>)))"

definition issue_challenge ::
  "extern \<Rightarrow> trustee \<Rightarrow> entropy \<Rightarrow> json \<Rightarrow> i64 \<Rightarrow> db \<Rightarrow> bytes step" where
  "issue_challenge x t e request now d =
     and_then (ok_or InvalidRequest (challenge_request_of_json request)) (\<lambda>r.
     let well_formed =
           cr_request_version r = 1
           \<and> cr_component_id r = tr_component_id t
           \<and> hex32 x (cr_invitation r) \<noteq> None in
     if \<not> well_formed then Inl InvalidRequest
     else
     let invitation = digest x (as_bytes (cr_invitation r)) in
     and_then (random_id x e) (\<lambda>challenge.
     let expires_at = i64_add now CHALLENGE_LIFETIME_SECS in
     and_then (transaction now d) (\<lambda>(d, _).
     let open_count = open_challenges d invitation now in
     if \<not> (case open_count of None \<Rightarrow> False | Some n \<Rightarrow> n < MAX_OPEN_CHALLENGES)
     then Inl InvalidRequest
     else
     and_then (insert_challenge \<lparr>chl_challenge = challenge, chl_invitation = invitation,
           chl_expires_at = expires_at, chl_used_at = None\<rparr> d) (\<lambda>d.
     Inr (d, and_then (time x expires_at) (\<lambda>expires_text.
       Inr (canonical x (json_object [
         (''challenge'', JString challenge),
         (''componentId'', JString (tr_component_id t)),
         (''expiresAt'', JString expires_text),
         (''trusteeKeyId'', JString (key_id x t))]))))))))"

section \<open>Enrollment\<close>

definition enrollment_receipt ::
  "extern \<Rightarrow> trustee \<Rightarrow> db \<Rightarrow> string \<Rightarrow> bytes \<Rightarrow> bytes \<Rightarrow> bytes outcome" where
  "enrollment_receipt x t d challenge sealed artifact =
     and_then (ok_or TemporarilyUnavailable
         (select_row (\<lambda>r. erow_challenge r = challenge) (db_enrollments d))) (\<lambda>row.
     if erow_sealed_envelope row \<noteq> Some sealed \<or> erow_protected_artifact row \<noteq> Some artifact
     then Inl TemporarilyUnavailable
     else
     let en = erow_enrollment row; c = enr_context en in
     and_then (time x (erow_stored_at row)) (\<lambda>recorded_at.
     and_then (time x (enr_expires_at en)) (\<lambda>expires_at.
     Inr (sign_object x (receipt_json ((receipt_about (tr_component_id t) c ''enroll'') \<lparr>
       rc_request_id := challenge,
       rc_old_state := ''none'',
       rc_new_state := ''active'',
       rc_recorded_at := recorded_at,
       rc_expires_at := expires_at,
       rc_artifact_id := Some (ctx_artifact_id c),
       rc_artifact_digest := Some (ctx_artifact_digest c),
       rc_slot := Some (ctx_slot c),
       rc_sealed_contribution_digest := Some (digest x sealed),
       rc_storage_class := Some STORAGE_CLASS\<rparr>)) (tr_signing_key t)))))"

text \<open>The join of the challenge and its invitation, both unused and unexpired.\<close>

definition open_invitation_of :: "db \<Rightarrow> string \<Rightarrow> i64 \<Rightarrow> string option" where
  "open_invitation_of d challenge now =
     (case at_key chl_challenge (db_challenges d) challenge of
        None \<Rightarrow> None
      | Some c \<Rightarrow>
          if challenge_open c now \<and> invitation_open d (chl_invitation c) now
          then Some (chl_invitation c) else None)"

text \<open>
  The constraints of \<open>enrollments\<close>: the primary key, the unique challenge, and the foreign key
  to the challenge's row.
\<close>

definition insert_enrollment :: "enrollment_row \<Rightarrow> db \<Rightarrow> db outcome" where
  "insert_enrollment row d =
     (if erow_challenge row \<notin> chl_challenge ` set (db_challenges d)
         \<or> erow_challenge row \<in> erow_challenge ` set (db_enrollments d)
      then Inl TemporarilyUnavailable
      else and_then (ok_or TemporarilyUnavailable (insert_row enrollment_key row (db_enrollments d)))
        (\<lambda>rows. Inr (d\<lparr>db_enrollments := rows\<rparr>)))"

text \<open>The answer about an enrollment ID that is taken, for the key that holds it.\<close>

definition existing_code :: "enrollment_row \<Rightarrow> enrollment_context \<Rightarrow> code" where
  "existing_code existing c =
     (case erow_status existing of
        Revoked \<Rightarrow> EnrollmentRevoked
      | Closed \<Rightarrow> EnrollmentRevoked
      | _ \<Rightarrow>
          if ctx_enrollment_sequence c \<le> es_sequence (erow_state existing)
          then StaleEnrollmentSequence else InvalidEnrollment)"

definition enroll :: "extern \<Rightarrow> trustee \<Rightarrow> json \<Rightarrow> i64 \<Rightarrow> db \<Rightarrow> bytes step" where
  "enroll x t request now d0 =
     (let request_digest = digest x (canonical x request) in
     and_then (ok_or InvalidRequest (enroll_request_of_json request)) (\<lambda>r.
     and_then (ok_or InvalidRequest
         (Option.bind (base64 x (er_sealed_envelope r))
           (\<lambda>b. if er_request_version r = 1 then Some b else None))) (\<lambda>sealed.
     let artifact = canonical x (er_protected_artifact r);
         c = er_context r;
         challenge = ctx_trustee_challenge c in
     and_then (transaction now d0) (\<lambda>(d, _).
     case select_row (\<lambda>row. erow_challenge row = challenge) (db_enrollments d) of
       Some recorded \<Rightarrow>
         Inr (d0,
           if erow_request_digest recorded \<noteq> request_digest then Inl RequestConflict
           else if erow_status recorded = Revoked \<or> erow_status recorded = Closed
           then Inl EnrollmentRevoked
           else enrollment_receipt x t d0 challenge sealed artifact)
     | None \<Rightarrow>
     and_then (ok_or InvalidEnrollment (open_invitation_of d challenge now)) (\<lambda>invitation.
     if er_trustee_key_id r \<noteq> key_id x t then Inl InvalidEnrollment
     else
     and_then (accept_enrollment x t c sealed now) (\<lambda>en.
     and_then (check_artifact x t en artifact) (\<lambda>_.
     case load_current_enrollment d (ctx_enrollment_id c) of
       Some existing \<Rightarrow>
         if enr_authorization_key (erow_enrollment existing) \<noteq> enr_authorization_key en
         then Inr (spend_challenge challenge invitation now d, Inl InvalidEnrollment)
         else Inl (existing_code existing c)
     | None \<Rightarrow>
     and_then (insert_enrollment
         \<lparr>erow_enrollment_id = ctx_enrollment_id c,
          erow_sequence = ctx_enrollment_sequence c,
          erow_status = Accepted,
          erow_challenge = challenge,
          erow_request_digest = request_digest,
          erow_enrollment = en,
          erow_attempts_used = 0,
          erow_stored_at = now,
          erow_sealed_envelope = Some sealed,
          erow_protected_artifact = Some artifact\<rparr> d) (\<lambda>d.
     let d = spend_challenge challenge invitation now d
     in Inr (d, enrollment_receipt x t d challenge sealed artifact)))))))))"

section \<open>The holder's poll\<close>

definition notice_of :: "extern \<Rightarrow> i64 \<Rightarrow> session_row \<Rightarrow> notice outcome" where
  "notice_of x now s =
     and_then (time x (srow_cooldown_ends_at s)) (\<lambda>cooldown_ends_at.
     and_then (time x (srow_expires_at s)) (\<lambda>expires_at.
     Inr \<lparr>nt_session_id = srow_session_id s,
          nt_state = session_state_name (srow_status s) (srow_cooldown_ends_at s)
            (srow_expires_at s) now,
          nt_reason = session_reason (srow_status s),
          nt_released = (srow_contribution s \<noteq> None),
          nt_cooldown_ends_at = cooldown_ends_at,
          nt_expires_at = expires_at\<rparr>))"

text \<open>\<open>collect::<Result<Vec<_>, _>>\<close>: the first error, or every value.\<close>

fun collect_results :: "('e + 'a) list \<Rightarrow> 'e + 'a list" where
  "collect_results [] = Inr []"
| "collect_results (r # rs) =
     and_then r (\<lambda>v. and_then (collect_results rs) (\<lambda>vs. Inr (v # vs)))"

definition read_enrollment ::
  "extern \<Rightarrow> trustee \<Rightarrow> signed \<Rightarrow> i64 \<Rightarrow> db \<Rightarrow> bytes step" where
  "read_enrollment x t sg now d =
     and_then (transaction now d) (\<lambda>(d, _).
     and_then (ok_or InvalidRequest (load_current_enrollment d (sg_target sg))) (\<lambda>row.
     let en = erow_enrollment row in
     and_then (verify_signature x sg (enr_authorization_key en)) (\<lambda>_.
     and_then (check_fresh sg t now) (\<lambda>_.
     and_then (spend_nonce (scope_of_enrollment en) sg t now d) (\<lambda>d.
     and_then (collect_results (map (notice_of x now) (load_sessions d en))) (\<lambda>notices.
     Inr (d,
       let state = enrollment_state_name (erow_status row) (enr_expires_at en) now in
       and_then (time x now) (\<lambda>recorded_at.
       and_then (time x (enr_expires_at en)) (\<lambda>expires_at.
       Inr (sign_object x (receipt_json
           ((receipt_about (tr_component_id t) (enr_context en) ''read-enrollment'') \<lparr>
         rc_request_id := sg_request_id sg,
         rc_old_state := state,
         rc_new_state := state,
         rc_recorded_at := recorded_at,
         rc_expires_at := expires_at,
         rc_sessions := Some notices\<rparr>)) (tr_signing_key t)))))))))))"

section \<open>Beginning a recovery\<close>

definition session_receipt_fields ::
  "extern \<Rightarrow> trustee \<Rightarrow> session_row \<Rightarrow> enrollment \<Rightarrow> string \<Rightarrow> receipt outcome" where
  "session_receipt_fields x t s en operation =
     and_then (time x (srow_expires_at s)) (\<lambda>expires_at.
     and_then (time x (srow_cooldown_ends_at s)) (\<lambda>cooldown_ends_at.
     Inr ((receipt_about (tr_component_id t) (enr_context en) operation) \<lparr>
       rc_session_id := Some (srow_session_id s),
       rc_expires_at := expires_at,
       rc_cooldown_ends_at := Some cooldown_ends_at,
       rc_destination_keys_digest := Some (srow_destination_keys_digest s)\<rparr>)))"

definition session_receipt ::
  "extern \<Rightarrow> trustee \<Rightarrow> db \<Rightarrow> string \<Rightarrow> bytes outcome" where
  "session_receipt x t d session_id =
     and_then (ok_or TemporarilyUnavailable (load_session d session_id)) (\<lambda>s.
     and_then (session_enrollment d s) (\<lambda>row.
     and_then (session_receipt_fields x t s (erow_enrollment row) ''begin-recovery'') (\<lambda>r.
     let was_refused = (srow_status s = Refused) in
     and_then (time x (srow_created_at s)) (\<lambda>recorded_at.
     Inr (sign_object x (receipt_json (r \<lparr>
       rc_request_id := session_id,
       rc_old_state := ''none'',
       rc_new_state := (if was_refused then ''refused'' else ''cooling_down''),
       rc_reason := (if was_refused then session_reason (srow_status s) else None),
       rc_recorded_at := recorded_at,
       rc_remaining_attempts := Some (srow_remaining_attempts s),
       rc_evidence_digest := Some (digest x (srow_request s))\<rparr>)) (tr_signing_key t))))))"

text \<open>The constraints of \<open>sessions\<close>: the primary key and the enrollment's row.\<close>

definition insert_session :: "session_row \<Rightarrow> db \<Rightarrow> db outcome" where
  "insert_session row d =
     (if (srow_enrollment_id row, srow_sequence row) \<notin> enrollment_key ` set (db_enrollments d)
      then Inl TemporarilyUnavailable
      else and_then (ok_or TemporarilyUnavailable (insert_row srow_session_id row (db_sessions d)))
        (\<lambda>rows. Inr (d\<lparr>db_sessions := rows\<rparr>)))"

definition begin_recovery ::
  "extern \<Rightarrow> trustee \<Rightarrow> entropy \<Rightarrow> json \<Rightarrow> i64 \<Rightarrow> db \<Rightarrow> bytes step" where
  "begin_recovery x t e request now d0 =
     and_then (ok_or InvalidRequest (begin_request_of_json request)) (\<lambda>r.
     if br_request_version r \<noteq> 1 then Inl InvalidRequest
     else
     and_then (verify_session x (ent_check e) (canonical x (br_session r))) (\<lambda>s.
     and_then (transaction now d0) (\<lambda>(d, _).
     case load_session d (ses_session_id s) of
       Some recorded \<Rightarrow>
         Inr (d0,
           if srow_request recorded \<noteq> ses_canonical s then Inl RequestConflict
           else session_receipt x t d0 (ses_session_id s))
     | None \<Rightarrow>
     and_then (ok_or InvalidRequest
         (Option.bind (load_current_enrollment d (ses_enrollment_id s))
           (\<lambda>row. if binds s (enr_context (erow_enrollment row)) then Some row else None))) (\<lambda>row.
     let en = erow_enrollment row in
     and_then (admit (erow_state row) (enr_policy en) (erow_attempts_used row)
         (ses_requested_at s) (ses_expires_at s) now (lim_skew_secs (tr_limits t))) (\<lambda>adm.
     let st = (case check_factor x en s of Inr _ \<Rightarrow> CoolingDown | Inl _ \<Rightarrow> Refused);
         c = enr_context en;
         d = d\<lparr>db_enrollments := update_rows
               (\<lambda>r. enrollment_key r = (ctx_enrollment_id c, ctx_enrollment_sequence c))
               (\<lambda>r. r\<lparr>erow_attempts_used := erow_attempts_used r + 1\<rparr>) (db_enrollments d)\<rparr> in
     and_then (insert_session
         \<lparr>srow_session_id = ses_session_id s,
          srow_enrollment_id = ctx_enrollment_id c,
          srow_sequence = ctx_enrollment_sequence c,
          srow_status = st,
          srow_request = ses_canonical s,
          srow_proof_key = ses_proof_key s,
          srow_destination_keys_digest = ses_destination_keys_digest s,
          srow_cooldown_ends_at = adm_cooldown_ends_at adm,
          srow_expires_at = adm_expires_at adm,
          srow_remaining_attempts =
            maximum_attempts (enr_policy en) - erow_attempts_used row - 1,
          srow_created_at = now,
          srow_contribution = None\<rparr> d) (\<lambda>d.
     Inr (d, session_receipt x t d (ses_session_id s))))))))"

section \<open>The candidate's poll\<close>

text \<open>
  What the release predicate decides: the first release opens, re-seals and stores the
  contribution, a later one repeats the stored bytes, and a session that is not releasable
  gives nothing. Every other refusal ends the request.
\<close>

definition read_decision ::
  "extern \<Rightarrow> trustee \<Rightarrow> entropy \<Rightarrow> enrollment_row \<Rightarrow> session_row \<Rightarrow> i64 \<Rightarrow> i64 \<Rightarrow> db
     \<Rightarrow> (db \<times> session_status \<times> bytes option) outcome" where
  "read_decision x t e row s now clock_floor d =
     (case release (erow_state row) (srow_state s) now clock_floor of
        Inr Emit \<Rightarrow>
          and_then (ok_or TemporarilyUnavailable (erow_sealed_envelope row)) (\<lambda>sealed.
          and_then (map_err (\<lambda>_. TemporarilyUnavailable)
              (verify_session x (ent_check e) (srow_request s))) (\<lambda>verified.
          and_then (release_contribution x t (ent_seal e) (erow_enrollment row) sealed verified now)
            (\<lambda>con.
          Inr (d\<lparr>db_sessions := update_rows (\<lambda>r. srow_session_id r = srow_session_id s)
                   (\<lambda>r. r\<lparr>srow_status := Released, srow_contribution := Some (con_canonical con)\<rparr>)
                   (db_sessions d)\<rparr>,
               Released, Some (con_canonical con)))))
      | Inr Resend \<Rightarrow> Inr (d, srow_status s, srow_contribution s)
      | Inl c \<Rightarrow>
          if c \<in> {RecoveryCoolingDown, RecoveryVetoed, RecoveryRefused, RecoveryExpired}
          then Inr (d, srow_status s, None)
          else Inl c)"

definition read_recovery ::
  "extern \<Rightarrow> trustee \<Rightarrow> entropy \<Rightarrow> signed \<Rightarrow> i64 \<Rightarrow> db \<Rightarrow> bytes step" where
  "read_recovery x t e sg now d =
     and_then (transaction now d) (\<lambda>(d, clock_floor).
     and_then (ok_or InvalidRequest (load_session d (sg_target sg))) (\<lambda>s.
     and_then (verify_signature x sg (srow_proof_key s)) (\<lambda>_.
     and_then (check_fresh sg t now) (\<lambda>_.
     and_then (spend_nonce (Scope_Session (sg_target sg)) sg t now d) (\<lambda>d.
     and_then (session_enrollment d s) (\<lambda>row.
     let old_state = session_state_name (srow_status s) (srow_cooldown_ends_at s)
           (srow_expires_at s) now in
     and_then (read_decision x t e row s now clock_floor d) (\<lambda>(d, st, con).
     Inr (d,
       let new_state = session_state_name st (srow_cooldown_ends_at s) (srow_expires_at s) now in
       and_then (session_receipt_fields x t s (erow_enrollment row) ''read-recovery'') (\<lambda>r.
       and_then (time x now) (\<lambda>recorded_at.
       and_then
         (case con of
            None \<Rightarrow> Inr None
          | Some bs \<Rightarrow> ok_or TemporarilyUnavailable (map_option Some (parse x bs))) (\<lambda>contribution_value.
       Inr (sign_object x (receipt_json (r \<lparr>
         rc_request_id := sg_request_id sg,
         rc_old_state := old_state,
         rc_new_state := new_state,
         rc_reason := session_reason st,
         rc_recorded_at := recorded_at,
         rc_contribution := contribution_value\<rparr>)) (tr_signing_key t)))))))))))))"

section \<open>Recorded outcomes\<close>

definition outcome_receipt ::
  "extern \<Rightarrow> trustee \<Rightarrow> db \<Rightarrow> scope \<Rightarrow> string \<Rightarrow> bytes outcome" where
  "outcome_receipt x t d sc request_id =
     and_then (ok_or TemporarilyUnavailable
         (at_key outcome_key (db_outcomes d) (scope_key sc, request_id))) (\<lambda>oc.
     and_then
       (case sc of
          Scope_Session session_id \<Rightarrow>
            and_then (ok_or TemporarilyUnavailable (load_session d session_id)) (\<lambda>s.
            and_then (session_enrollment d s) (\<lambda>row.
            and_then (session_receipt_fields x t s (erow_enrollment row) (or_operation oc)) (\<lambda>r.
            Inr (r \<lparr>rc_reason := session_reason (srow_status s)\<rparr>))))
        | Scope_Enrollment enrollment_id n \<Rightarrow>
            and_then (load_enrollment d enrollment_id n) (\<lambda>row.
            and_then (time x (enr_expires_at (erow_enrollment row))) (\<lambda>expires_at.
            Inr ((receipt_about (tr_component_id t) (enr_context (erow_enrollment row))
                    (or_operation oc)) \<lparr>rc_expires_at := expires_at\<rparr>)))) (\<lambda>r.
     and_then (time x (or_recorded_at oc)) (\<lambda>recorded_at.
     Inr (sign_object x (receipt_json (r \<lparr>
       rc_request_id := request_id,
       rc_old_state := or_old_state oc,
       rc_new_state := or_new_state oc,
       rc_recorded_at := recorded_at\<rparr>)) (tr_signing_key t)))))"

definition replayed_outcome ::
  "extern \<Rightarrow> trustee \<Rightarrow> db \<Rightarrow> scope \<Rightarrow> signed \<Rightarrow> string \<Rightarrow> bytes outcome" where
  "replayed_outcome x t d sc sg recorded_digest =
     (if recorded_digest \<noteq> sg_digest sg then Inl RequestConflict
      else outcome_receipt x t d sc (sg_request_id sg))"

section \<open>Cancellation and veto\<close>

fun by_holder_of :: "string option \<Rightarrow> bool outcome" where
  "by_holder_of (Some b) =
     (if b = ''holder'' then Inr True
      else if b = ''candidate'' then Inr False
      else Inl InvalidRequest)"
| "by_holder_of None = Inl InvalidRequest"

definition cancelled_status :: "session_row \<Rightarrow> bool \<Rightarrow> i64 \<Rightarrow> session_status" where
  "cancelled_status s by_holder now =
     (let live = (srow_status s = CoolingDown \<or> srow_status s = Released) \<and> now < srow_expires_at s
      in case (live, by_holder) of
           (True, True) \<Rightarrow> Vetoed
         | (True, False) \<Rightarrow> Cancelled
         | (False, _) \<Rightarrow> srow_status s)"

definition cancel_recovery ::
  "extern \<Rightarrow> trustee \<Rightarrow> signed \<Rightarrow> i64 \<Rightarrow> db \<Rightarrow> bytes step" where
  "cancel_recovery x t sg now d0 =
     and_then (by_holder_of (sg_by sg)) (\<lambda>by_holder.
     let sc = Scope_Session (sg_target sg) in
     and_then (transaction now d0) (\<lambda>(d, _).
     and_then (ok_or InvalidRequest (load_session d (sg_target sg))) (\<lambda>s.
     and_then (session_enrollment d s) (\<lambda>row.
     let key = (if by_holder then enr_authorization_key (erow_enrollment row) else srow_proof_key s) in
     and_then (verify_signature x sg key) (\<lambda>_.
     case recorded_outcome d sc sg of
       Some recorded \<Rightarrow> Inr (d0, replayed_outcome x t d0 sc sg recorded)
     | None \<Rightarrow>
     and_then (check_fresh sg t now) (\<lambda>_.
     let st = cancelled_status s by_holder now;
         d = d\<lparr>db_sessions := update_rows (\<lambda>r. srow_session_id r = sg_target sg)
               (\<lambda>r. r\<lparr>srow_status := st\<rparr>) (db_sessions d)\<rparr>;
         state = (\<lambda>st. session_state_name st (srow_cooldown_ends_at s) (srow_expires_at s) now) in
     and_then (record_outcome sc sg (state (srow_status s)) (state st) now d) (\<lambda>d.
     Inr (d, outcome_receipt x t d sc (sg_request_id sg)))))))))"

section \<open>Revocation and closing\<close>

definition ended_status :: "string \<Rightarrow> enrollment_status \<Rightarrow> enrollment_status" where
  "ended_status operation st =
     (if operation = ''close-enrollment'' \<or> st = Closed then Closed else Revoked)"

definition end_enrollment ::
  "extern \<Rightarrow> trustee \<Rightarrow> signed \<Rightarrow> i64 \<Rightarrow> db \<Rightarrow> bytes step" where
  "end_enrollment x t sg now d0 =
     and_then (transaction now d0) (\<lambda>(d, _).
     and_then (ok_or InvalidRequest (load_current_enrollment d (sg_target sg))) (\<lambda>row.
     let en = erow_enrollment row;
         sc = scope_of_enrollment en in
     and_then (verify_signature x sg (enr_authorization_key en)) (\<lambda>_.
     case recorded_outcome d sc sg of
       Some recorded \<Rightarrow> Inr (d0, replayed_outcome x t d0 sc sg recorded)
     | None \<Rightarrow>
     and_then (check_fresh sg t now) (\<lambda>_.
     let st = ended_status (sg_operation sg) (erow_status row);
         c = enr_context en;
         d = d\<lparr>db_enrollments := update_rows
               (\<lambda>r. enrollment_key r = (ctx_enrollment_id c, ctx_enrollment_sequence c))
               (\<lambda>r. r\<lparr>erow_status := st, erow_sealed_envelope := None,
                      erow_protected_artifact := None\<rparr>) (db_enrollments d)\<rparr>;
         state = (\<lambda>st. enrollment_state_name st (enr_expires_at en) now) in
     and_then (record_outcome sc sg (state (erow_status row)) (state st) now d) (\<lambda>d.
     Inr (d, outcome_receipt x t d sc (sg_request_id sg)))))))"

section \<open>Dispatch\<close>

definition refused_code :: "string \<Rightarrow> code" where
  "refused_code operation =
     (case find (\<lambda>(name, _). name = operation) REFUSED of
        None \<Rightarrow> InvalidRequest
      | Some (_, c) \<Rightarrow> c)"

definition handle_step ::
  "extern \<Rightarrow> trustee \<Rightarrow> entropy \<Rightarrow> bytes \<Rightarrow> i64 \<Rightarrow> db \<Rightarrow> bytes step" where
  "handle_step x t e body now d =
     and_then (ok_or InvalidRequest (parse x body)) (\<lambda>request.
     let operation = (case as_str (index_field request ''operation'') of None \<Rightarrow> [] | Some s \<Rightarrow> s);
         with_signed = (\<lambda>f. and_then
           (ok_or InvalidRequest (signed_parse x request (tr_component_id t))) f)
     in if operation = ''issue-challenge'' then issue_challenge x t e request now d
        else if operation = ''enroll'' then enroll x t request now d
        else if operation = ''read-enrollment'' then
          with_signed (\<lambda>sg. read_enrollment x t sg now d)
        else if operation = ''begin-recovery'' then begin_recovery x t e request now d
        else if operation = ''read-recovery'' then
          with_signed (\<lambda>sg. read_recovery x t e sg now d)
        else if operation = ''cancel-recovery'' then
          with_signed (\<lambda>sg. cancel_recovery x t sg now d)
        else if operation = ''revoke-enrollment'' \<or> operation = ''close-enrollment'' then
          with_signed (\<lambda>sg. end_enrollment x t sg now d)
        else Inl (refused_code operation))"

definition handle ::
  "extern \<Rightarrow> trustee \<Rightarrow> entropy \<Rightarrow> bytes \<Rightarrow> i64 \<Rightarrow> db \<Rightarrow> db \<times> bytes outcome" where
  "handle x t e body now d = run_step d (handle_step x t e body now d)"

end
