(* ===== verification/Store_Steps.thy ===== *)
theory Store_Steps
  imports Store
begin

text \<open>
  The store as a state machine: \<open>store_step\<close> has one rule for each change of the database a
  request can commit, with the guards its handler checks, and every run of \<open>handle\<close> or
  \<open>create_invitation\<close> takes one of them. The invariants and the temporal properties are proved
  of the steps.
\<close>

section \<open>Reads do not see the clock or the nonces\<close>

lemma load_simps [simp]:
  "load_session (d\<lparr>db_high_water := n\<rparr>) i = load_session d i"
  "load_session (d\<lparr>db_nonces := ns\<rparr>) i = load_session d i"
  "load_session (d\<lparr>db_enrollments := es\<rparr>) i = load_session d i"
  "load_enrollment (d\<lparr>db_high_water := n\<rparr>) i q = load_enrollment d i q"
  "load_enrollment (d\<lparr>db_nonces := ns\<rparr>) i q = load_enrollment d i q"
  "load_enrollment (d\<lparr>db_sessions := ss\<rparr>) i q = load_enrollment d i q"
  "load_enrollment (d\<lparr>db_outcomes := os\<rparr>) i q = load_enrollment d i q"
  "session_enrollment (d\<lparr>db_high_water := n\<rparr>) s = session_enrollment d s"
  "session_enrollment (d\<lparr>db_nonces := ns\<rparr>) s = session_enrollment d s"
  "load_current_enrollment (d\<lparr>db_high_water := n\<rparr>) i = load_current_enrollment d i"
  "load_current_enrollment (d\<lparr>db_nonces := ns\<rparr>) i = load_current_enrollment d i"
  "invitation_open (d\<lparr>db_high_water := n\<rparr>) i now = invitation_open d i now"
  "open_challenges (d\<lparr>db_high_water := n\<rparr>) i now = open_challenges d i now"
  "open_invitation_of (d\<lparr>db_high_water := n\<rparr>) ch now = open_invitation_of d ch now"
  "recorded_outcome (d\<lparr>db_high_water := n\<rparr>) sc sg = recorded_outcome d sc sg"
  by (simp_all add: load_session_def load_enrollment_def session_enrollment_def
      load_current_enrollment_def invitation_open_def open_challenges_def open_invitation_of_def
      recorded_outcome_def cong: option.case_cong)

section \<open>The changes a handler commits\<close>

abbreviation begun_row ::
  "enrollment_row \<Rightarrow> session \<Rightarrow> session_status \<Rightarrow> admission \<Rightarrow> i64 \<Rightarrow> session_row" where
  "begun_row row s st adm now \<equiv>
     \<lparr>srow_session_id = ses_session_id s,
      srow_enrollment_id = ctx_enrollment_id (enr_context (erow_enrollment row)),
      srow_sequence = ctx_enrollment_sequence (enr_context (erow_enrollment row)),
      srow_status = st,
      srow_request = ses_canonical s,
      srow_proof_key = ses_proof_key s,
      srow_destination_keys_digest = ses_destination_keys_digest s,
      srow_cooldown_ends_at = adm_cooldown_ends_at adm,
      srow_expires_at = adm_expires_at adm,
      srow_remaining_attempts =
        maximum_attempts (enr_policy (erow_enrollment row)) - erow_attempts_used row - 1,
      srow_created_at = now,
      srow_contribution = None\<rparr>"

abbreviation enrolled_row ::
  "enrollment \<Rightarrow> string \<Rightarrow> i64 \<Rightarrow> bytes \<Rightarrow> bytes \<Rightarrow> enrollment_row" where
  "enrolled_row en request_digest now sealed artifact \<equiv>
     \<lparr>erow_enrollment_id = ctx_enrollment_id (enr_context en),
      erow_sequence = ctx_enrollment_sequence (enr_context en),
      erow_status = Accepted,
      erow_challenge = ctx_trustee_challenge (enr_context en),
      erow_request_digest = request_digest,
      erow_enrollment = en,
      erow_attempts_used = 0,
      erow_stored_at = now,
      erow_sealed_envelope = Some sealed,
      erow_protected_artifact = Some artifact\<rparr>"

abbreviation count_attempt :: "enrollment \<Rightarrow> enrollment_row list \<Rightarrow> enrollment_row list" where
  "count_attempt en \<equiv> update_rows
     (\<lambda>r. enrollment_key r = (ctx_enrollment_id (enr_context en), ctx_enrollment_sequence (enr_context en)))
     (\<lambda>r. r\<lparr>erow_attempts_used := erow_attempts_used r + 1\<rparr>)"

abbreviation end_row :: "enrollment \<Rightarrow> enrollment_status \<Rightarrow> enrollment_row list \<Rightarrow> enrollment_row list" where
  "end_row en st \<equiv> update_rows
     (\<lambda>r. enrollment_key r = (ctx_enrollment_id (enr_context en), ctx_enrollment_sequence (enr_context en)))
     (\<lambda>r. r\<lparr>erow_status := st, erow_sealed_envelope := None, erow_protected_artifact := None\<rparr>)"

abbreviation release_row :: "string \<Rightarrow> bytes \<Rightarrow> session_row list \<Rightarrow> session_row list" where
  "release_row i bs \<equiv> update_rows (\<lambda>r. srow_session_id r = i)
     (\<lambda>r. r\<lparr>srow_status := Released, srow_contribution := Some bs\<rparr>)"

abbreviation set_status :: "string \<Rightarrow> session_status \<Rightarrow> session_row list \<Rightarrow> session_row list" where
  "set_status i st \<equiv> update_rows (\<lambda>r. srow_session_id r = i) (\<lambda>r. r\<lparr>srow_status := st\<rparr>)"

inductive store_step :: "extern \<Rightarrow> trustee \<Rightarrow> i64 \<Rightarrow> db \<Rightarrow> db \<Rightarrow> bool" for x t now where
  step_idle:
    "store_step x t now d d"
| step_invite:
    "db_high_water d \<le> now \<Longrightarrow>
     insert_row inv_digest \<lparr>inv_digest = i, inv_expires_at = until, inv_used_at = None\<rparr>
       (db_invitations d) = Some rows \<Longrightarrow>
     store_step x t now d (d\<lparr>db_high_water := now, db_invitations := rows\<rparr>)"
| step_challenge:
    "db_high_water d \<le> now \<Longrightarrow>
     open_challenges d i now = Some n \<Longrightarrow> n < MAX_OPEN_CHALLENGES \<Longrightarrow>
     insert_row chl_challenge \<lparr>chl_challenge = ch, chl_invitation = i,
       chl_expires_at = i64_add now CHALLENGE_LIFETIME_SECS, chl_used_at = None\<rparr>
       (db_challenges d) = Some rows \<Longrightarrow>
     store_step x t now d (d\<lparr>db_high_water := now, db_challenges := rows\<rparr>)"
| step_burn:
    "db_high_water d \<le> now \<Longrightarrow>
     open_invitation_of d ch now = Some i \<Longrightarrow>
     store_step x t now d (spend_challenge ch i now (d\<lparr>db_high_water := now\<rparr>))"
| step_enroll:
    "db_high_water d \<le> now \<Longrightarrow>
     open_invitation_of d (ctx_trustee_challenge c) now = Some i \<Longrightarrow>
     accept_enrollment x t c sealed now = Inr en \<Longrightarrow>
     check_artifact x t en artifact = Inr () \<Longrightarrow>
     load_current_enrollment d (ctx_enrollment_id c) = None \<Longrightarrow>
     ctx_trustee_challenge c \<notin> erow_challenge ` set (db_enrollments d) \<Longrightarrow>
     enr_context en = c \<Longrightarrow>
     insert_row enrollment_key (enrolled_row en request_digest now sealed artifact)
       (db_enrollments d) = Some rows \<Longrightarrow>
     store_step x t now d
       (spend_challenge (ctx_trustee_challenge c) i now
         (d\<lparr>db_high_water := now, db_enrollments := rows\<rparr>))"
| step_poll:
    "db_high_water d \<le> now \<Longrightarrow>
     check_fresh sg t now = Inr () \<Longrightarrow>
     spend_nonce sc sg t now d = Inr d' \<Longrightarrow>
     store_step x t now d (d'\<lparr>db_high_water := now\<rparr>)"
| step_begin:
    "db_high_water d \<le> now \<Longrightarrow>
     verify_session x entropy raw = Inr s \<Longrightarrow>
     load_session d (ses_session_id s) = None \<Longrightarrow>
     load_current_enrollment d (ses_enrollment_id s) = Some row \<Longrightarrow>
     binds s (enr_context (erow_enrollment row)) \<Longrightarrow>
     admit (erow_state row) (enr_policy (erow_enrollment row)) (erow_attempts_used row)
       (ses_requested_at s) (ses_expires_at s) now (lim_skew_secs (tr_limits t)) = Inr adm \<Longrightarrow>
     st = (case check_factor x (erow_enrollment row) s of Inr _ \<Rightarrow> CoolingDown | Inl _ \<Rightarrow> Refused) \<Longrightarrow>
     (ctx_enrollment_id (enr_context (erow_enrollment row)),
       ctx_enrollment_sequence (enr_context (erow_enrollment row)))
       \<in> enrollment_key ` set (db_enrollments d) \<Longrightarrow>
     insert_row srow_session_id (begun_row row s st adm now) (db_sessions d) = Some rows \<Longrightarrow>
     store_step x t now d
       (d\<lparr>db_high_water := now,
          db_enrollments := count_attempt (erow_enrollment row) (db_enrollments d),
          db_sessions := rows\<rparr>)"
| step_release:
    "db_high_water d \<le> now \<Longrightarrow>
     load_session d i = Some s \<Longrightarrow>
     sg_target sg = i \<Longrightarrow>
     verify_signature x sg (srow_proof_key s) = Inr () \<Longrightarrow>
     session_enrollment d s = Inr row \<Longrightarrow>
     release (erow_state row) (srow_state s) now (db_high_water d) = Inr Emit \<Longrightarrow>
     erow_sealed_envelope row = Some sealed \<Longrightarrow>
     verify_session x entropy (srow_request s) = Inr verified \<Longrightarrow>
     release_contribution x t entropy' (erow_enrollment row) sealed verified now = Inr con \<Longrightarrow>
     check_fresh sg t now = Inr () \<Longrightarrow>
     spend_nonce (Scope_Session i) sg t now d = Inr d' \<Longrightarrow>
     store_step x t now d
       (d'\<lparr>db_high_water := now, db_sessions := release_row i (con_canonical con) (db_sessions d)\<rparr>)"
| step_cancel:
    "db_high_water d \<le> now \<Longrightarrow>
     load_session d i = Some s \<Longrightarrow>
     session_enrollment d s = Inr row \<Longrightarrow>
     verify_signature x sg
       (if by_holder then enr_authorization_key (erow_enrollment row) else srow_proof_key s) = Inr () \<Longrightarrow>
     recorded_outcome d (Scope_Session i) sg = None \<Longrightarrow>
     sg_target sg = i \<Longrightarrow>
     st = cancelled_status s by_holder now \<Longrightarrow>
     record_outcome (Scope_Session i) sg old_state new_state now d = Inr d' \<Longrightarrow>
     store_step x t now d
       (d'\<lparr>db_high_water := now, db_sessions := set_status i st (db_sessions d)\<rparr>)"
| step_end:
    "db_high_water d \<le> now \<Longrightarrow>
     load_current_enrollment d i = Some row \<Longrightarrow>
     verify_signature x sg (enr_authorization_key (erow_enrollment row)) = Inr () \<Longrightarrow>
     record_outcome (scope_of_enrollment (erow_enrollment row)) sg old_state new_state now d = Inr d' \<Longrightarrow>
     store_step x t now d
       (d'\<lparr>db_high_water := now,
           db_enrollments := end_row (erow_enrollment row)
             (ended_status (sg_operation sg) (erow_status row)) (db_enrollments d)\<rparr>)"

inductive_cases store_step_cases: "store_step x t now d d'"

section \<open>Every commit of a handler is a step\<close>

lemma and_then_InrE:
  "and_then r f = Inr y \<Longrightarrow> (\<And>v. r = Inr v \<Longrightarrow> f v = Inr y \<Longrightarrow> P) \<Longrightarrow> P"
  by (cases r) auto

lemmas result_simps = ok_or_Inr map_err_Inr ensure_Inr

lemma transaction_Inr [result_iff]:
  "transaction now d = Inr p \<longleftrightarrow>
     db_high_water d \<le> now \<and> p = (d\<lparr>db_high_water := now\<rparr>, db_high_water d)"
  by (auto simp: transaction_def)

lemma spend_nonce_clock:
  "spend_nonce sc sg t now (d\<lparr>db_high_water := n\<rparr>) = Inr d' \<longleftrightarrow>
     (\<exists>d''. spend_nonce sc sg t now d = Inr d'' \<and> d' = d''\<lparr>db_high_water := n\<rparr>)"
  by (auto simp: spend_nonce_def Let_def split: option.splits)

lemma spend_nonce_frame:
  "spend_nonce sc sg t now d = Inr d' \<Longrightarrow> d' = d\<lparr>db_nonces := db_nonces d'\<rparr>"
  by (auto simp: spend_nonce_def Let_def split: option.splits)

lemma record_outcome_clock:
  "record_outcome sc sg a b now (d\<lparr>db_high_water := n, db_sessions := ss\<rparr>) = Inr d' \<longleftrightarrow>
     (\<exists>d''. record_outcome sc sg a b now d = Inr d''
        \<and> d' = d''\<lparr>db_high_water := n, db_sessions := ss\<rparr>)"
  "record_outcome sc sg a b now (d\<lparr>db_high_water := n, db_enrollments := es\<rparr>) = Inr d' \<longleftrightarrow>
     (\<exists>d''. record_outcome sc sg a b now d = Inr d''
        \<and> d' = d''\<lparr>db_high_water := n, db_enrollments := es\<rparr>)"
  by (auto simp: record_outcome_def Let_def result_iff)

lemma update_rows_keys:
  "(\<And>r. key (f r) = key r) \<Longrightarrow> key ` set (update_rows P f t) = key ` set t"
proof -
  assume "\<And>r. key (f r) = key r"
  then have "map key (update_rows P f t) = map key t"
    by (simp add: update_rows_def)
  then show ?thesis
    by (metis list.set_map)
qed

lemma count_attempt_keys [simp]:
  "enrollment_key ` set (count_attempt en rows) = enrollment_key ` set rows"
  by (rule update_rows_keys) (simp add: enrollment_key_def)

lemma record_outcome_frame:
  "record_outcome sc sg a b now d = Inr d' \<Longrightarrow> d' = d\<lparr>db_outcomes := db_outcomes d'\<rparr>"
  by (auto simp: record_outcome_def Let_def result_iff)

lemma accepted_context: "accept_enrollment x t c sealed now = Inr en \<Longrightarrow> enr_context en = c"
  by (auto simp: accept_enrollment_def admit_envelope_def Let_def result_iff split: if_splits)

lemma create_invitation_steps:
  "create_invitation x e lifetime now d = Inr (d', r) \<Longrightarrow> store_step x t now d d'"
  by (auto simp: create_invitation_def Let_def result_iff simp del: insert_row_Some
      intro!: step_invite)

lemma issue_challenge_steps:
  "issue_challenge x t e request now d = Inr (d', r) \<Longrightarrow> store_step x t now d d'"
  by (auto simp: issue_challenge_def insert_challenge_def Let_def result_iff
      split: if_splits option.splits intro!: step_challenge)

lemma insert_enrollment_Inr:
  "insert_enrollment row d = Inr d' \<longleftrightarrow>
     erow_challenge row \<in> chl_challenge ` set (db_challenges d)
     \<and> erow_challenge row \<notin> erow_challenge ` set (db_enrollments d)
     \<and> (\<exists>rows. insert_row enrollment_key row (db_enrollments d) = Some rows
          \<and> d' = d\<lparr>db_enrollments := rows\<rparr>)"
  unfolding insert_enrollment_def
  by (auto elim!: and_then_InrE simp: result_simps simp del: insert_row_Some)

lemma insert_session_Inr:
  "insert_session row d = Inr d' \<longleftrightarrow>
     (srow_enrollment_id row, srow_sequence row) \<in> enrollment_key ` set (db_enrollments d)
     \<and> (\<exists>rows. insert_row srow_session_id row (db_sessions d) = Some rows
          \<and> d' = d\<lparr>db_sessions := rows\<rparr>)"
  unfolding insert_session_def
  by (auto elim!: and_then_InrE simp: result_simps simp del: insert_row_Some)

lemma select_row_fresh: "select_row (\<lambda>r. f r = k) t = None \<longleftrightarrow> k \<notin> f ` set t"
  by (auto simp: select_row_None)

lemma enroll_steps:
  assumes "enroll x t request now d = Inr (d', r)"
  shows "store_step x t now d d'"
proof -
  note insert_row_Some [simp del] and imageE [rule del] and result_simps [simp]
  show ?thesis
    using assms unfolding enroll_def Let_def
    apply (clarsimp elim!: and_then_InrE split: if_split_asm option.split_asm
        simp: transaction_Inr insert_enrollment_Inr step_idle step_burn select_row_fresh)
     apply (frule accepted_context)
     apply (rule step_enroll)
            apply (assumption | simp)+
    apply (clarsimp simp: step_burn)
    done
qed

lemma read_enrollment_steps:
  assumes "read_enrollment x t sg now d = Inr (d', r)"
  shows "store_step x t now d d'"
  using assms
  unfolding read_enrollment_def Let_def
  by (auto elim!: and_then_InrE simp: result_simps transaction_Inr spend_nonce_clock intro!: step_poll)

lemma begin_recovery_steps:
  assumes "begin_recovery x t e request now d = Inr (d', r)"
  shows "store_step x t now d d'"
proof -
  note insert_row_Some [simp del] and imageE [rule del] and result_simps [simp]
  show ?thesis
    using assms unfolding begin_recovery_def Let_def
    apply (clarsimp elim!: and_then_InrE split: if_split_asm option.split_asm
        simp: transaction_Inr insert_session_Inr step_idle bind_eq_Some_conv)
    apply (rule step_begin)
            apply (assumption | simp)+
    done
qed

text \<open>What a candidate's read decides, case by case.\<close>

lemma read_decision_Inr:
  assumes "read_decision x t e row s now clock_floor d = Inr (d', st, con)"
  shows "(d' = d \<and> st = srow_status s \<and> con = None
        \<and> (\<exists>c. release (erow_state row) (srow_state s) now clock_floor = Inl c
             \<and> c \<in> {RecoveryCoolingDown, RecoveryVetoed, RecoveryRefused, RecoveryExpired}))
    \<or> (d' = d \<and> st = srow_status s \<and> con = srow_contribution s
        \<and> release (erow_state row) (srow_state s) now clock_floor = Inr Resend)
    \<or> (\<exists>sealed verified c.
        release (erow_state row) (srow_state s) now clock_floor = Inr Emit
        \<and> erow_sealed_envelope row = Some sealed
        \<and> verify_session x (ent_check e) (srow_request s) = Inr verified
        \<and> release_contribution x t (ent_seal e) (erow_enrollment row) sealed verified now = Inr c
        \<and> d' = d\<lparr>db_sessions := release_row (srow_session_id s) (con_canonical c) (db_sessions d)\<rparr>
        \<and> st = Released \<and> con = Some (con_canonical c))"
proof (cases "release (erow_state row) (srow_state s) now clock_floor")
  case (Inl c)
  then show ?thesis
    using assms by (auto simp: read_decision_def split: if_splits)
next
  case (Inr a)
  then show ?thesis
    using assms by (cases a) (auto simp: read_decision_def result_iff)
qed

lemma load_session_id: "load_session d i = Some s \<Longrightarrow> srow_session_id s = i"
  by (auto simp: load_session_def dest: at_key_Some)

lemma session_enrollment_nonces:
  "spend_nonce sc sg t now d = Inr d' \<Longrightarrow> session_enrollment d' s = session_enrollment d s"
  by (metis spend_nonce_frame load_simps(9))

lemma sessions_after_nonce:
  "spend_nonce sc sg t now d = Inr d' \<Longrightarrow> db_sessions d' = db_sessions d"
  by (drule spend_nonce_frame) (metis db.select_convs(6) db.surjective db.update_convs(7))

lemma read_recovery_steps:
  assumes "read_recovery x t e sg now d = Inr (d', r)"
  shows "store_step x t now d d'"
proof -
  obtain s d2 row st con where s: "db_high_water d \<le> now" "load_session d (sg_target sg) = Some s"
    "verify_signature x sg (srow_proof_key s) = Inr ()" "check_fresh sg t now = Inr ()"
    "spend_nonce (Scope_Session (sg_target sg)) sg t now d = Inr d2"
    "session_enrollment d s = Inr row"
    "read_decision x t e row s now (db_high_water d) (d2\<lparr>db_high_water := now\<rparr>) = Inr (d', st, con)"
    using assms unfolding read_recovery_def Let_def
    by (auto elim!: and_then_InrE simp: result_simps transaction_Inr spend_nonce_clock
        session_enrollment_nonces)
  note read_decision_Inr [OF s(7)]
  then show ?thesis
  proof (elim disjE conjE exE)
    assume "d' = d2\<lparr>db_high_water := now\<rparr>"
    then show ?thesis
      using step_poll [OF s(1,4,5)] by simp
  next
    assume "d' = d2\<lparr>db_high_water := now\<rparr>"
    then show ?thesis
      using step_poll [OF s(1,4,5)] by simp
  next
    fix sealed verified c
    assume *: "release (erow_state row) (srow_state s) now (db_high_water d) = Inr Emit"
      "erow_sealed_envelope row = Some sealed"
      "verify_session x (ent_check e) (srow_request s) = Inr verified"
      "release_contribution x t (ent_seal e) (erow_enrollment row) sealed verified now = Inr c"
      and d': "d' = d2\<lparr>db_high_water := now, db_sessions := release_row (srow_session_id s)
        (con_canonical c) (db_sessions (d2\<lparr>db_high_water := now\<rparr>))\<rparr>"
    show ?thesis
      using step_release [OF s(1,2) refl s(3,6) * s(4,5)] d' load_session_id [OF s(2)]
      by (simp add: sessions_after_nonce [OF s(5)])
  qed
qed

lemma cancel_recovery_steps:
  assumes "cancel_recovery x t sg now d = Inr (d', r)"
  shows "store_step x t now d d'"
proof -
  note insert_row_Some [simp del] and imageE [rule del] and result_simps [simp]
  show ?thesis
    using assms unfolding cancel_recovery_def  Let_def
    apply (clarsimp elim!: and_then_InrE split: option.split_asm 
        simp: transaction_Inr step_idle record_outcome_clock)
    apply (rule step_cancel)
          apply (assumption | simp)+
    done
qed

lemma end_enrollment_steps:
  assumes "end_enrollment x t sg now d = Inr (d', r)"
  shows "store_step x t now d d'"
proof -
  note insert_row_Some [simp del] and imageE [rule del] and result_simps [simp]
  show ?thesis
    using assms unfolding end_enrollment_def  Let_def
    apply (clarsimp elim!: and_then_InrE split: option.split_asm 
        simp: transaction_Inr step_idle record_outcome_clock)
    apply (rule step_end; (assumption | simp))
    done
qed


lemma handle_step_steps:
  assumes "handle_step x t e body now d = Inr (d', r)"
  shows "store_step x t now d d'"
  using assms
  unfolding handle_step_def Let_def
  by (auto elim!: and_then_InrE split: if_split_asm simp: result_simps
      dest: issue_challenge_steps enroll_steps read_enrollment_steps begin_recovery_steps
        read_recovery_steps cancel_recovery_steps end_enrollment_steps)

lemma run_step_steps:
  assumes "\<And>d' r. s = Inr (d', r) \<Longrightarrow> store_step x t now d d'"
  shows "store_step x t now d (fst (run_step d s))"
  using assms by (cases s) (auto simp: run_step_def step_idle)

lemma handle_steps: "store_step x t now d (fst (handle x t e body now d))"
  unfolding handle_def by (rule run_step_steps) (rule handle_step_steps)

end
