(* ===== verification/Store_Invariant.thy ===== *)
theory Store_Invariant
  imports Store_Steps
begin

text \<open>
  The invariant of the store: the keys of the tables, what the columns of a row say together,
  the link of a session to its enrollment and the count of its attempts, the budget of open
  challenges, and the clock above every recorded time. Each part is preserved by every step.
\<close>

section \<open>Forms of the steps\<close>

lemma spend_nonce_Inr:
  "spend_nonce sc sg t now d = Inr d' \<longleftrightarrow>
     (\<exists>rows. insert_row nonce_key
          \<lparr>nr_scope = scope_key sc, nr_request_id = sg_request_id sg, nr_seen_at = now\<rparr>
          (delete_rows (\<lambda>r. nr_seen_at r < i64_sub now (i64_mul 2 (lim_skew_secs (tr_limits t))))
            (db_nonces d)) = Some rows
        \<and> d' = d\<lparr>db_nonces := rows\<rparr>)"
  by (auto simp: spend_nonce_def Let_def split: option.splits)

lemma record_outcome_Inr:
  "record_outcome sc sg a b now d = Inr d' \<longleftrightarrow>
     (\<exists>rows. insert_row outcome_key
          \<lparr>or_scope = scope_key sc, or_request_id = sg_request_id sg,
           or_request_digest = sg_digest sg, or_operation = sg_operation sg,
           or_old_state = a, or_new_state = b, or_recorded_at = now\<rparr> (db_outcomes d) = Some rows
        \<and> d' = d\<lparr>db_outcomes := rows\<rparr>)"
  by (auto simp: record_outcome_def Let_def result_iff)

lemma in_update_rows: "r' \<in> set (update_rows P f t) \<longleftrightarrow> (\<exists>r\<in>set t. r' = (if P r then f r else r))"
  by (auto simp: set_update_rows)

lemma update_rows_all:
  "\<forall>r\<in>set t. Q r \<Longrightarrow> (\<And>r. r \<in> set t \<Longrightarrow> Q r \<Longrightarrow> P r \<Longrightarrow> Q (f r)) \<Longrightarrow> \<forall>r\<in>set (update_rows P f t). Q r"
  by (auto simp: in_update_rows)

lemma map_update_rows: "(\<And>r. g (f r) = g r) \<Longrightarrow> map g (update_rows P f t) = map g t"
  by (simp add: update_rows_def)

lemma latest_Some:
  "latest i best rs = Some r \<Longrightarrow> best = Some r \<or> r \<in> set rs \<and> erow_enrollment_id r = i"
  by (induction rs arbitrary: best) (fastforce split: if_splits)+

lemma latest_None: "latest i best rs = None \<longleftrightarrow> best = None \<and> (\<forall>r\<in>set rs. erow_enrollment_id r \<noteq> i)"
  by (induction rs arbitrary: best) auto

lemma load_current_Some:
  "load_current_enrollment d i = Some r \<Longrightarrow> r \<in> set (db_enrollments d) \<and> erow_enrollment_id r = i"
  by (auto simp: load_current_enrollment_def dest: latest_Some)

lemma load_current_None:
  "load_current_enrollment d i = None \<longleftrightarrow> i \<notin> erow_enrollment_id ` set (db_enrollments d)"
  by (auto simp: load_current_enrollment_def latest_None)

section \<open>Keys\<close>

definition keys_ok :: "db \<Rightarrow> bool" where
  "keys_ok d \<longleftrightarrow>
     distinct (map inv_digest (db_invitations d))
     \<and> distinct (map chl_challenge (db_challenges d))
     \<and> distinct (map erow_enrollment_id (db_enrollments d))
     \<and> distinct (map erow_challenge (db_enrollments d))
     \<and> distinct (map srow_session_id (db_sessions d))
     \<and> distinct (map nonce_key (db_nonces d))
     \<and> distinct (map outcome_key (db_outcomes d))"

lemma keys_ok_step: "store_step x t now d d' \<Longrightarrow> keys_ok d \<Longrightarrow> keys_ok d'"
  by (induction rule: store_step.induct)
    (auto simp: keys_ok_def spend_nonce_Inr record_outcome_Inr result_iff spend_challenge_def
      map_update_rows load_current_None nonces.delete_keeps_key)

section \<open>Enrollment rows\<close>

text \<open>
  The columns repeat the context, custody is held exactly while the enrollment is accepted,
  and the attempts stay within the policy.
\<close>

definition enrollment_ok :: "enrollment_row \<Rightarrow> bool" where
  "enrollment_ok r \<longleftrightarrow>
     (let c = enr_context (erow_enrollment r)
      in erow_enrollment_id r = ctx_enrollment_id c
         \<and> erow_sequence r = ctx_enrollment_sequence c
         \<and> erow_challenge r = ctx_trustee_challenge c)
     \<and> erow_status r \<noteq> Superseded
     \<and> (erow_sealed_envelope r \<noteq> None \<longleftrightarrow> erow_status r = Accepted)
     \<and> (erow_protected_artifact r \<noteq> None \<longleftrightarrow> erow_status r = Accepted)
     \<and> erow_attempts_used r \<le> maximum_attempts (enr_policy (erow_enrollment r))"

definition enrollments_ok :: "db \<Rightarrow> bool" where
  "enrollments_ok d \<longleftrightarrow> (\<forall>r\<in>set (db_enrollments d). enrollment_ok r)"

lemma enrollment_key_updates [simp]:
  "enrollment_key (r\<lparr>erow_attempts_used := n\<rparr>) = enrollment_key r"
  "enrollment_key (r\<lparr>erow_status := st, erow_sealed_envelope := se, erow_protected_artifact := pa\<rparr>)
     = enrollment_key r"
  by (simp_all add: enrollment_key_def)

lemma enrollment_key_ok:
  "enrollment_ok r \<Longrightarrow> enrollment_key r =
     (ctx_enrollment_id (enr_context (erow_enrollment r)),
      ctx_enrollment_sequence (enr_context (erow_enrollment r)))"
  by (auto simp: enrollment_ok_def enrollment_key_def Let_def)

lemma same_enrollment:
  assumes "keys_ok d" "enrollments_ok d" "r \<in> set (db_enrollments d)" "row \<in> set (db_enrollments d)"
    and "enrollment_key r = (ctx_enrollment_id (enr_context (erow_enrollment row)),
      ctx_enrollment_sequence (enr_context (erow_enrollment row)))"
  shows "r = row"
proof -
  have "erow_enrollment_id r = erow_enrollment_id row"
    using assms by (auto simp: enrollments_ok_def enrollment_ok_def enrollment_key_def Let_def)
  then show ?thesis
    using assms by (auto simp: keys_ok_def distinct_map inj_on_def)
qed

lemma ended_row_ok:
  "enrollment_ok r \<Longrightarrow> enrollment_ok (r\<lparr>erow_status := ended_status op st,
     erow_sealed_envelope := None, erow_protected_artifact := None\<rparr>)"
  by (auto simp: enrollment_ok_def ended_status_def Let_def)

lemma enrollments_ok_step:
  "store_step x t now d d' \<Longrightarrow> keys_ok d \<Longrightarrow> enrollments_ok d \<Longrightarrow> enrollments_ok d'"
proof (induction rule: store_step.induct)
  case (step_begin d entropy raw s row adm st rows)
  have row: "row \<in> set (db_enrollments d)"
    using step_begin(4) by (auto dest: load_current_Some)
  have less: "erow_attempts_used row < maximum_attempts (enr_policy (erow_enrollment row))"
    using step_begin(6) by (simp add: admit_Inr)
  have "enrollment_ok (r\<lparr>erow_attempts_used := erow_attempts_used r + 1\<rparr>)"
    if "r \<in> set (db_enrollments d)" "enrollment_ok r"
      "enrollment_key r = (ctx_enrollment_id (enr_context (erow_enrollment row)),
          ctx_enrollment_sequence (enr_context (erow_enrollment row)))" for r
    using that same_enrollment [OF step_begin.prems that(1) row that(3)] less
    by (auto simp: enrollment_ok_def inc_le)
  then show ?case
    using step_begin.prems unfolding enrollments_ok_def
    by simp (rule update_rows_all; blast)
next
  case (step_end d i row sg old_state new_state d')
  then show ?case
    unfolding enrollments_ok_def
    by simp (rule update_rows_all; blast intro: ended_row_ok)
qed (auto simp: enrollments_ok_def spend_nonce_Inr record_outcome_Inr result_iff
      spend_challenge_def enrollment_ok_def)

section \<open>Session rows\<close>

text \<open>
  A released session keeps its contribution, one that was never released has none; the
  cooldown ends before the session does, and no session was created after the clock's floor.
\<close>

definition session_ok :: "i64 \<Rightarrow> session_row \<Rightarrow> bool" where
  "session_ok high_water s \<longleftrightarrow>
     (srow_status s = Released \<longrightarrow> srow_contribution s \<noteq> None)
     \<and> (srow_status s = CoolingDown \<or> srow_status s = Refused \<longrightarrow> srow_contribution s = None)
     \<and> srow_status s \<noteq> Finalized
     \<and> srow_created_at s \<le> high_water
     \<and> srow_cooldown_ends_at s < srow_expires_at s"

definition session_key :: "session_row \<Rightarrow> string \<times> u64" where
  "session_key s = (srow_enrollment_id s, srow_sequence s)"

definition sessions_ok :: "db \<Rightarrow> bool" where
  "sessions_ok d \<longleftrightarrow>
     (\<forall>s\<in>set (db_sessions d). session_ok (db_high_water d) s
        \<and> session_key s \<in> enrollment_key ` set (db_enrollments d))"

lemma session_ok_later: "session_ok h s \<Longrightarrow> h \<le> h' \<Longrightarrow> session_ok h' s"
  by (auto simp: session_ok_def)

lemma end_row_keys [simp]: "enrollment_key ` set (end_row en st rows) = enrollment_key ` set rows"
  by (rule update_rows_keys) (simp add: enrollment_key_def)

lemma load_session_in: "load_session d i = Some s \<Longrightarrow> s \<in> set (db_sessions d) \<and> srow_session_id s = i"
  by (auto simp: load_session_def dest: at_key_Some)

lemma load_session_iff:
  "keys_ok d \<Longrightarrow> load_session d i = Some s \<longleftrightarrow> s \<in> set (db_sessions d) \<and> srow_session_id s = i"
  by (simp add: load_session_def sessions.lookup_iff keys_ok_def)

lemma same_session_row:
  "keys_ok d \<Longrightarrow> load_session d i = Some s \<Longrightarrow> r \<in> set (db_sessions d) \<Longrightarrow> srow_session_id r = i \<Longrightarrow> r = s"
  by (auto simp: load_session_iff keys_ok_def intro: sessions.row_unique)

lemma sessions_ok_frame:
  assumes "sessions_ok d" "db_high_water d \<le> db_high_water d'" "db_sessions d' = db_sessions d"
    and "enrollment_key ` set (db_enrollments d) \<subseteq> enrollment_key ` set (db_enrollments d')"
  shows "sessions_ok d'"
  using assms by (auto simp: sessions_ok_def intro: session_ok_later)

lemma sessions_ok_update:
  assumes "sessions_ok d" "db_high_water d \<le> now"
    and "\<And>s. s \<in> set (db_sessions d) \<Longrightarrow> session_ok now s \<Longrightarrow> P s \<Longrightarrow>
      session_ok now (f s) \<and> session_key (f s) = session_key s"
    and "db_high_water d' = now" "db_sessions d' = update_rows P f (db_sessions d)"
    and "db_enrollments d' = db_enrollments d"
  shows "sessions_ok d'"
  unfolding sessions_ok_def assms(4-6)
  by (rule update_rows_all)
    (use assms(1-3) in \<open>auto simp: sessions_ok_def intro: session_ok_later\<close>)

lemma cancelled_ok:
  "session_ok now s \<Longrightarrow> session_ok now (s\<lparr>srow_status := cancelled_status s by_holder now\<rparr>)"
  by (auto simp: session_ok_def cancelled_status_def Let_def split: bool.splits)

lemma sessions_ok_step:
  "store_step x t now d d' \<Longrightarrow> keys_ok d \<Longrightarrow> sessions_ok d \<Longrightarrow> sessions_ok d'"
proof (induction rule: store_step.induct)
  case (step_begin d entropy raw s row adm st rows)
  have "session_ok now (begun_row row s st adm now)"
    using step_begin(6,7) by (auto simp: session_ok_def admit_Inr split: sum.splits)
  then show ?case
    using step_begin by (auto simp: sessions_ok_def result_iff session_key_def intro: session_ok_later)
next
  case (step_release d i s sg row sealed entropy verified entropy' con d')
  show ?case
    by (rule sessions_ok_update [OF step_release.prems(2) step_release(1)])
      (use step_release in \<open>auto simp: spend_nonce_Inr session_ok_def session_key_def\<close>)
next
  case (step_cancel d i s row sg by_holder st old_state new_state d')
  show ?case
  proof (rule sessions_ok_update [OF step_cancel.prems(2) step_cancel(1)])
    fix r assume r: "r \<in> set (db_sessions d)" "session_ok now r" "srow_session_id r = i"
    then have "r = s"
      using same_session_row [OF step_cancel.prems(1) step_cancel(2)] by simp
    with r step_cancel(7) show "session_ok now (r\<lparr>srow_status := st\<rparr>)
        \<and> session_key (r\<lparr>srow_status := st\<rparr>) = session_key r"
      by (simp add: cancelled_ok session_key_def)
  qed (use step_cancel in \<open>auto simp: record_outcome_Inr\<close>)
qed (auto simp: spend_nonce_Inr record_outcome_Inr result_iff spend_challenge_def
      elim!: sessions_ok_frame)

section \<open>Attempts\<close>

text \<open>The attempts an enrollment has used are its sessions.\<close>

definition attempts_ok :: "db \<Rightarrow> bool" where
  "attempts_ok d \<longleftrightarrow>
     (\<forall>r\<in>set (db_enrollments d).
        unat (erow_attempts_used r)
          = length (filter (\<lambda>s. session_key s = enrollment_key r) (db_sessions d)))"

lemma filter_update_rows:
  "(\<And>s. Q (f s) = Q s) \<Longrightarrow> length (filter Q (update_rows P f t)) = length (filter Q t)"
  by (induction t) (auto simp: update_rows_def)

lemma count_sessions [simp]:
  "length (filter (\<lambda>s. session_key s = k) (release_row i b rows))
     = length (filter (\<lambda>s. session_key s = k) rows)"
  "length (filter (\<lambda>s. session_key s = k) (set_status i st rows))
     = length (filter (\<lambda>s. session_key s = k) rows)"
  by (rule filter_update_rows; simp add: session_key_def)+

lemma attempts_ok_frame:
  assumes "attempts_ok d" "db_enrollments d' = db_enrollments d"
    and "\<And>k. length (filter (\<lambda>s. session_key s = k) (db_sessions d'))
      = length (filter (\<lambda>s. session_key s = k) (db_sessions d))"
  shows "attempts_ok d'"
  using assms by (simp add: attempts_ok_def)

lemma attempts_ok_begin:
  assumes "keys_ok d" "enrollments_ok d" "attempts_ok d" "row \<in> set (db_enrollments d)"
    and "erow_attempts_used row < maximum_attempts (enr_policy (erow_enrollment row))"
    and "db_enrollments d' = count_attempt (erow_enrollment row) (db_enrollments d)"
    and "db_sessions d' = db_sessions d @ [q]" "session_key q = enrollment_key row"
  shows "attempts_ok d'"
  unfolding attempts_ok_def
proof
  let ?k = "(ctx_enrollment_id (enr_context (erow_enrollment row)),
      ctx_enrollment_sequence (enr_context (erow_enrollment row)))"
  have key: "enrollment_key row = ?k"
    using assms(2,4) by (simp add: enrollments_ok_def enrollment_key_ok)
  fix r' assume "r' \<in> set (db_enrollments d')"
  then obtain r where r: "r \<in> set (db_enrollments d)"
    "r' = (if enrollment_key r = ?k then r\<lparr>erow_attempts_used := erow_attempts_used r + 1\<rparr> else r)"
    by (simp add: assms(6) in_update_rows) metis
  have same: "enrollment_key r = ?k \<longleftrightarrow> r = row"
    using same_enrollment [OF assms(1,2) r(1) assms(4)] key by auto
  have "unat (erow_attempts_used r) = length (filter (\<lambda>s. session_key s = enrollment_key r) (db_sessions d))"
    using r(1) assms(3) by (simp add: attempts_ok_def)
  moreover have "session_key q = enrollment_key r \<longleftrightarrow> r = row"
    using same key assms(8) by (simp add: eq_commute)
  moreover have "unat (erow_attempts_used row + 1) = Suc (unat (erow_attempts_used row))"
    using inc_no_wrap(2) [OF assms(5)] by simp
  ultimately show "unat (erow_attempts_used r')
      = length (filter (\<lambda>s. session_key s = enrollment_key r') (db_sessions d'))"
    using r(2) same by (cases "r = row") (simp_all add: assms(7))
qed

lemma attempts_ok_step:
  "store_step x t now d d' \<Longrightarrow> keys_ok d \<Longrightarrow> enrollments_ok d \<Longrightarrow> sessions_ok d \<Longrightarrow>
     attempts_ok d \<Longrightarrow> attempts_ok d'"
proof (induction rule: store_step.induct)
  case (step_enroll d c i sealed en artifact request_digest rows)
  have "enrollment_key (enrolled_row en request_digest now sealed artifact)
      \<notin> session_key ` set (db_sessions d)"
    using step_enroll(5,7) step_enroll.prems(3)
    by (fastforce simp: load_current_None sessions_ok_def enrollment_key_def)
  then have "filter (\<lambda>s. session_key s = enrollment_key (enrolled_row en request_digest now sealed artifact))
      (db_sessions d) = []"
    by (metis (mono_tags, lifting) filter_False image_eqI)
  then show ?case
    using step_enroll(8) step_enroll.prems(4)
    by (auto simp: attempts_ok_def spend_challenge_def result_iff)
next
  case (step_begin d entropy raw s row adm st rows)
  have row: "row \<in> set (db_enrollments d)"
    using step_begin(4) by (auto dest: load_current_Some)
  moreover have "erow_attempts_used row < maximum_attempts (enr_policy (erow_enrollment row))"
    using step_begin(6) by (simp add: admit_Inr)
  moreover have "session_key (begun_row row s st adm now) = enrollment_key row"
    using row step_begin.prems(2) by (simp add: enrollments_ok_def enrollment_key_ok session_key_def)
  moreover have "rows = db_sessions d @ [begun_row row s st adm now]"
    using step_begin(9) by (simp add: result_iff)
  ultimately show ?case
    by (intro attempts_ok_begin [OF step_begin.prems(1,2,4), of row _ "begun_row row s st adm now"]) simp_all
next
  case (step_release d i s sg row sealed entropy verified entropy' con d')
  show ?case
    by (rule attempts_ok_frame [OF step_release.prems(4)])
      (use step_release(11) in \<open>auto simp: spend_nonce_Inr\<close>)
next
  case (step_cancel d i s row sg by_holder st old_state new_state d')
  show ?case
    by (rule attempts_ok_frame [OF step_cancel.prems(4)])
      (use step_cancel(8) in \<open>auto simp: record_outcome_Inr\<close>)
next
  case (step_end d i row sg old_state new_state d')
  then show ?case
    unfolding attempts_ok_def record_outcome_Inr
    by clarsimp (auto simp: in_update_rows)
qed (auto simp: attempts_ok_def spend_nonce_Inr spend_challenge_def)

end
