(* ===== verification/Store_Grants.thy ===== *)
theory Store_Grants
  imports Store_Invariant
begin

text \<open>
  The rest of the store's invariant: what an enrollment spent (its challenge and the
  invitation behind it, which no other enrollment shares), the budget of open challenges, the
  nonces below the clock, and the finality of a session with a recorded outcome. At the end
  the parts together are \<open>store_inv\<close>.
\<close>

section \<open>Spent grants\<close>

text \<open>
  The grant of an enrollment is the challenge it answered with the invitation of that
  challenge; both are marked used, and two enrollments never have one invitation.
\<close>

definition granted :: "db \<Rightarrow> enrollment_row \<Rightarrow> string \<Rightarrow> bool" where
  "granted d r i \<longleftrightarrow>
     (\<exists>c. at_key chl_challenge (db_challenges d) (erow_challenge r) = Some c
        \<and> chl_invitation c = i \<and> chl_used_at c \<noteq> None)
     \<and> (\<exists>v. at_key inv_digest (db_invitations d) i = Some v \<and> inv_used_at v \<noteq> None)"

definition grants_ok :: "db \<Rightarrow> bool" where
  "grants_ok d \<longleftrightarrow>
     (\<forall>r\<in>set (db_enrollments d). \<exists>i. granted d r i)
     \<and> (\<forall>r\<in>set (db_enrollments d). \<forall>s\<in>set (db_enrollments d). \<forall>i.
          granted d r i \<longrightarrow> granted d s i \<longrightarrow> r = s)"

text \<open>
  Every step keeps a grant, and gives the rows already there no other; what a challenge or an invitation
  was issued for, and until when, never changes.
\<close>

definition grants_kept :: "db \<Rightarrow> db \<Rightarrow> bool" where
  "grants_kept d d' \<longleftrightarrow>
     rows_lead (\<lambda>c c'. chl_invitation c' = chl_invitation c \<and> chl_expires_at c' = chl_expires_at c
         \<and> (chl_used_at c \<noteq> None \<longrightarrow> chl_used_at c' \<noteq> None))
       (at_key chl_challenge (db_challenges d)) (at_key chl_challenge (db_challenges d'))
     \<and> rows_lead (\<lambda>v v'. inv_expires_at v' = inv_expires_at v \<and> (inv_used_at v \<noteq> None \<longrightarrow> inv_used_at v' \<noteq> None))
       (at_key inv_digest (db_invitations d)) (at_key inv_digest (db_invitations d'))"

lemma grants_kept_same:
  "db_challenges d' = db_challenges d \<Longrightarrow> db_invitations d' = db_invitations d \<Longrightarrow> grants_kept d d'"
  by (simp add: grants_kept_def rows_lead_refl)

lemma grants_kept_spend: "grants_kept d (spend_challenge ch i now d)"
  by (simp add: grants_kept_def rows_lead_def spend_challenge_def challenges.lookup_update invitations.lookup_update)

lemma grants_kept_step:
  "store_step x t now d d' \<Longrightarrow> grants_kept d d'"
proof (induction rule: store_step.induct)
  case (step_invite d i until rows)
  then show ?case
    by (auto simp: grants_kept_def rows_lead_def dest: invitations.lookup_old)
next
  case (step_challenge d i n ch rows)
  then show ?case
    by (auto simp: grants_kept_def rows_lead_def dest: challenges.lookup_old)
next
  case (step_burn d ch i)
  show ?case
    using grants_kept_spend [of "d\<lparr>db_high_water := now\<rparr>" ch i now] by (simp add: grants_kept_def)
next
  case (step_enroll d c i sealed en artifact request_digest rows)
  show ?case
    using grants_kept_spend [of "d\<lparr>db_high_water := now, db_enrollments := rows\<rparr>"
        "ctx_trustee_challenge c" i now] by (simp add: grants_kept_def)
qed (auto intro!: grants_kept_same simp: spend_nonce_Inr record_outcome_Inr)

lemma granted_kept: "grants_kept d d' \<Longrightarrow> granted d r i \<Longrightarrow> granted d' r i"
  by (fastforce simp: grants_kept_def rows_lead_def granted_def)

lemma granted_back:
  "grants_kept d d' \<Longrightarrow> granted d r j \<Longrightarrow> granted d' r i \<Longrightarrow> i = j"
  by (fastforce simp: grants_kept_def rows_lead_def granted_def)

lemma granted_cong: "erow_challenge r = erow_challenge s \<Longrightarrow> granted d r i \<longleftrightarrow> granted d s i"
  by (simp add: granted_def)

lemma grants_ok_kept:
  assumes ok: "grants_ok d" and kept: "grants_kept d d'"
    and rows: "\<And>r'. r' \<in> set (db_enrollments d') \<Longrightarrow>
      \<exists>r\<in>set (db_enrollments d). erow_challenge r' = erow_challenge r
        \<and> (\<forall>s'\<in>set (db_enrollments d'). erow_challenge s' = erow_challenge r' \<longrightarrow> s' = r')"
  shows "grants_ok d'"
proof -
  have "\<exists>i. granted d' r' i" if "r' \<in> set (db_enrollments d')" for r'
    using rows [OF that] ok granted_kept [OF kept] granted_cong unfolding grants_ok_def by metis
  moreover have "r' = s'" if "r' \<in> set (db_enrollments d')" "s' \<in> set (db_enrollments d')"
    and "granted d' r' i" "granted d' s' i" for r' s' i
  proof -
    note members = that
    obtain r where r: "r \<in> set (db_enrollments d)" "erow_challenge r' = erow_challenge r"
      "\<And>s'. s' \<in> set (db_enrollments d') \<Longrightarrow> erow_challenge s' = erow_challenge r' \<Longrightarrow> s' = r'"
      using rows [OF members(1)] by blast
    obtain s where s: "s \<in> set (db_enrollments d)" "erow_challenge s' = erow_challenge s"
      using rows [OF members(2)] by blast
    obtain j k where jk: "granted d r j" "granted d s k"
      using ok r(1) s(1) unfolding grants_ok_def by blast
    have "i = j" "i = k"
      using granted_back [OF kept jk(1)] granted_back [OF kept jk(2)] members(3,4)
        granted_cong [OF r(2)] granted_cong [OF s(2)] by blast+
    then have "r = s"
      using ok r(1) s(1) jk unfolding grants_ok_def by blast
    then show ?thesis
      using r(2) r(3) [of s'] s(2) members(2) by metis
  qed
  ultimately show ?thesis
    unfolding grants_ok_def by blast
qed

lemma challenge_unique:
  "keys_ok d \<Longrightarrow> r \<in> set (db_enrollments d) \<Longrightarrow> s \<in> set (db_enrollments d) \<Longrightarrow>
     erow_challenge r = erow_challenge s \<Longrightarrow> r = s"
  by (auto simp: keys_ok_def distinct_map inj_on_def)

lemma grants_ok_same_rows:
  assumes "grants_ok d" "keys_ok d" "keys_ok d'" "grants_kept d d'"
    and "map erow_challenge (db_enrollments d') = map erow_challenge (db_enrollments d)"
  shows "grants_ok d'"
proof (rule grants_ok_kept [OF assms(1,4)])
  fix r' assume r': "r' \<in> set (db_enrollments d')"
  then have "erow_challenge r' \<in> erow_challenge ` set (db_enrollments d)"
    using assms(5) by (metis image_eqI list.set_map)
  then show "\<exists>r\<in>set (db_enrollments d). erow_challenge r' = erow_challenge r
        \<and> (\<forall>s'\<in>set (db_enrollments d'). erow_challenge s' = erow_challenge r' \<longrightarrow> s' = r')"
    using challenge_unique [OF assms(3)] r' by blast
qed

lemma open_invitation_Some:
  "open_invitation_of d ch now = Some i \<longleftrightarrow>
     (\<exists>c v. at_key chl_challenge (db_challenges d) ch = Some c \<and> chl_invitation c = i
        \<and> chl_used_at c = None \<and> now < chl_expires_at c
        \<and> at_key inv_digest (db_invitations d) i = Some v
        \<and> inv_used_at v = None \<and> now < inv_expires_at v)"
  by (auto simp: open_invitation_of_def challenge_open_def invitation_open_def
      split: option.splits if_splits)

lemma grants_ok_enroll:
  assumes ok: "grants_ok d" and "keys_ok d"
    and open_inv: "open_invitation_of d (erow_challenge row) now = Some i"
    and d': "d' = spend_challenge (erow_challenge row) i now
      (d\<lparr>db_high_water := now, db_enrollments := db_enrollments d @ [row]\<rparr>)"
    and fresh: "erow_challenge row \<notin> erow_challenge ` set (db_enrollments d)"
  shows "grants_ok d'"
proof -
  have kept: "grants_kept d d'"
    unfolding d' using grants_kept_spend [of "d\<lparr>db_high_water := now, db_enrollments := db_enrollments d @ [row]\<rparr>"
        "erow_challenge row" i now] by (simp add: grants_kept_def)
  have new: "granted d' row i"
    using open_inv
    by (auto simp: d' granted_def spend_challenge_def challenges.lookup_update
        invitations.lookup_update open_invitation_Some)
  have old: "\<not> granted d r i" for r
    using open_inv by (auto simp: granted_def open_invitation_Some)
  have new_only: "j = i" if "granted d' row j" for j
    using that new by (auto simp: granted_def)
  have rows: "set (db_enrollments d') = insert row (set (db_enrollments d))"
    by (simp add: d' spend_challenge_def)
  have prior: "\<exists>j. granted d r j \<and> (\<forall>k. granted d' r k \<longrightarrow> k = j)" if "r \<in> set (db_enrollments d)" for r
    using ok that granted_back [OF kept] unfolding grants_ok_def by metis
  show ?thesis
    using ok new new_only old prior granted_kept [OF kept]
    unfolding grants_ok_def rows by (metis insert_iff)
qed

lemma grants_ok_step:
  assumes "store_step x t now d d'" "keys_ok d" "grants_ok d"
  shows "grants_ok d'"
proof -
  have keys: "keys_ok d'"
    using assms keys_ok_step by blast
  have kept: "grants_kept d d'"
    using assms grants_kept_step by blast
  note same = grants_ok_same_rows [OF assms(3,2) keys kept]
  show ?thesis
    using assms(1)
  proof cases
    case (step_enroll c i sealed en artifact request_digest rows)
    show ?thesis
      by (rule grants_ok_enroll [OF assms(3,2), where i = i and now = now
            and row = "enrolled_row en request_digest now sealed artifact"])
        (use step_enroll in \<open>auto simp: result_iff\<close>)
  next
    case step_begin
    then show ?thesis
      by (intro same) (simp add: map_update_rows)
  next
    case step_end
    then show ?thesis
      by (intro same) (auto simp: map_update_rows record_outcome_Inr)
  qed (rule same; auto simp: spend_nonce_Inr record_outcome_Inr spend_challenge_def)+
qed

section \<open>The budget of open challenges\<close>

definition open_count :: "db \<Rightarrow> string \<Rightarrow> i64 \<Rightarrow> nat" where
  "open_count d i now =
     length (filter (\<lambda>c. chl_invitation c = i \<and> challenge_open c now) (db_challenges d))"

definition budget_ok :: "db \<Rightarrow> bool" where
  "budget_ok d \<longleftrightarrow> (\<forall>i. int (open_count d i (db_high_water d)) \<le> MAX_OPEN_CHALLENGES)"

lemma length_filter_mono: "(\<And>c. P c \<Longrightarrow> Q c) \<Longrightarrow> length (filter P xs) \<le> length (filter Q xs)"
  by (induction xs) auto

lemma open_count_later: "h \<le> now \<Longrightarrow> open_count d i now \<le> open_count d i h"
  unfolding open_count_def by (rule length_filter_mono) (auto simp: challenge_open_def)

lemma open_count_spend: "open_count (spend_challenge ch i now d) j now \<le> open_count d j now"
  unfolding open_count_def spend_challenge_def
  by (induction "db_challenges d" arbitrary: d)
    (auto simp: update_rows_def filter_map o_def challenge_open_def intro!: length_filter_mono)

lemma budget_ok_frame:
  assumes "budget_ok d" "db_high_water d \<le> db_high_water d'"
    and "\<And>i. open_count d' i (db_high_water d') \<le> open_count d i (db_high_water d')"
  shows "budget_ok d'"
  unfolding budget_ok_def
proof
  fix i
  have "open_count d' i (db_high_water d') \<le> open_count d i (db_high_water d)"
    using assms(3) [of i] open_count_later [OF assms(2), of d i] by simp
  then show "int (open_count d' i (db_high_water d')) \<le> MAX_OPEN_CHALLENGES"
    using assms(1) unfolding budget_ok_def by (meson of_nat_le_iff order_trans)
qed

lemma budget_ok_step: "store_step x t now d d' \<Longrightarrow> budget_ok d \<Longrightarrow> budget_ok d'"
proof (induction rule: store_step.induct)
  case (step_challenge d i n ch rows)
  let ?d = "d\<lparr>db_high_water := now, db_challenges := rows\<rparr>"
  show ?case
    unfolding budget_ok_def
  proof
    fix j
    have count: "open_count ?d j now \<le> open_count d j now + (if j = i then 1 else 0)"
      using step_challenge(4) by (auto simp: open_count_def result_iff)
    have bound: "int (open_count d j now) \<le> MAX_OPEN_CHALLENGES"
      using step_challenge.prems open_count_later [OF step_challenge(1), of d j]
      unfolding budget_ok_def by (meson of_nat_le_iff order_trans)
    have "n = int (open_count d i now)"
      using step_challenge(2) by (auto simp: open_challenges_def open_count_def split: if_splits)
    then show "int (open_count ?d j (db_high_water ?d)) \<le> MAX_OPEN_CHALLENGES"
      using count bound step_challenge(3) by (cases "j = i") auto
  qed
next
  case (step_burn d ch i)
  show ?case
    by (rule budget_ok_frame [OF step_burn.prems])
      (use step_burn(1) open_count_spend [of ch i now "d\<lparr>db_high_water := now\<rparr>"]
        in \<open>auto simp: spend_challenge_def open_count_def\<close>)
next
  case (step_enroll d c i sealed en artifact request_digest rows)
  show ?case
    by (rule budget_ok_frame [OF step_enroll.prems])
      (use step_enroll(1) open_count_spend [of "ctx_trustee_challenge c" i now
          "d\<lparr>db_high_water := now, db_enrollments := rows\<rparr>"]
        in \<open>auto simp: spend_challenge_def open_count_def\<close>)
qed (auto elim!: budget_ok_frame simp: open_count_def spend_nonce_Inr record_outcome_Inr)

section \<open>Nonces\<close>

definition nonces_ok :: "db \<Rightarrow> bool" where
  "nonces_ok d \<longleftrightarrow> (\<forall>n\<in>set (db_nonces d). nr_seen_at n \<le> db_high_water d)"

lemma nonces_ok_step: "store_step x t now d d' \<Longrightarrow> nonces_ok d \<Longrightarrow> nonces_ok d'"
  by (induction rule: store_step.induct)
    (force simp: nonces_ok_def spend_nonce_Inr record_outcome_Inr result_iff spend_challenge_def)+

section \<open>Recorded outcomes\<close>

text \<open>
  A session is final when no request can change it any more: its state is terminal, or its
  expiry lies behind the clock's floor.
\<close>

definition session_final :: "i64 \<Rightarrow> session_row \<Rightarrow> bool" where
  "session_final high_water s \<longleftrightarrow> \<not> session_live (srow_status s) \<or> srow_expires_at s \<le> high_water"

definition outcomes_ok :: "db \<Rightarrow> bool" where
  "outcomes_ok d \<longleftrightarrow>
     (\<forall>oc\<in>set (db_outcomes d). \<forall>i. or_scope oc = scope_key (Scope_Session i) \<longrightarrow>
        (\<exists>s. load_session d i = Some s \<and> session_final (db_high_water d) s))"

lemma scope_key_kinds [simp]:
  "scope_key (Scope_Enrollment i n) \<noteq> scope_key (Scope_Session j)"
  "scope_key (scope_of_enrollment en) \<noteq> scope_key (Scope_Session j)"
  "scope_key (Scope_Session i) = scope_key (Scope_Session j) \<longleftrightarrow> i = j"
  by (simp_all add: scope_of_enrollment_def)

declare scope_key.simps [simp del]

lemma session_final_later: "session_final h s \<Longrightarrow> h \<le> h' \<Longrightarrow> session_final h' s"
  by (auto simp: session_final_def)

lemma outcomes_ok_frame:
  assumes "outcomes_ok d" "db_high_water d \<le> db_high_water d'"
    and "\<And>oc i. oc \<in> set (db_outcomes d') \<Longrightarrow> or_scope oc = scope_key (Scope_Session i) \<Longrightarrow>
      oc \<in> set (db_outcomes d)"
    and "\<And>i s. load_session d i = Some s \<Longrightarrow> session_final (db_high_water d') s \<Longrightarrow>
      \<exists>s'. load_session d' i = Some s' \<and> session_final (db_high_water d') s'"
  shows "outcomes_ok d'"
  unfolding outcomes_ok_def
proof (intro ballI allI impI)
  fix oc i assume "oc \<in> set (db_outcomes d')" "or_scope oc = scope_key (Scope_Session i)"
  then obtain s where "load_session d i = Some s" "session_final (db_high_water d) s"
    using assms(1,3) unfolding outcomes_ok_def by blast
  then show "\<exists>s. load_session d' i = Some s \<and> session_final (db_high_water d') s"
    using assms(2,4) session_final_later by blast
qed

lemma load_session_update:
  assumes "\<And>s. srow_session_id (f s) = srow_session_id s"
  shows "load_session (d\<lparr>db_sessions := update_rows (\<lambda>r. srow_session_id r = i) f (db_sessions d)\<rparr>) j =
    (if j = i then map_option f (load_session d j) else load_session d j)"
  using assms by (simp add: load_session_def sessions.lookup_update)

lemma load_session_cong: "db_sessions d' = db_sessions d \<Longrightarrow> load_session d' i = load_session d i"
  by (simp add: load_session_def)

lemma cancelled_final:
  "session_final now (s\<lparr>srow_status := cancelled_status s by_holder now\<rparr>)"
  by (auto simp: session_final_def cancelled_status_def session_live_def Let_def split: bool.splits)

lemma outcomes_ok_step: "store_step x t now d d' \<Longrightarrow> outcomes_ok d \<Longrightarrow> outcomes_ok d'"
proof (induction rule: store_step.induct)
  case (step_begin d entropy raw s row adm st rows)
  show ?case
    by (rule outcomes_ok_frame [OF step_begin.prems])
      (use step_begin in \<open>auto simp: load_session_def dest: sessions.lookup_old\<close>)
next
  case (step_release d i s sg row sealed entropy verified entropy' con d')
  have "\<not> session_final now s"
    using step_release(6) by (auto simp: release_Inr srow_state_def session_final_def session_live_def)
  then show ?case
    using step_release
    by (intro outcomes_ok_frame [OF step_release.prems])
      (auto simp: spend_nonce_Inr load_session_def sessions.lookup_update)
next
  case (step_cancel d i s row sg by_holder st old_state new_state d')
  have load: "load_session (d'\<lparr>db_high_water := now, db_sessions := set_status i st (db_sessions d)\<rparr>) j =
      (if j = i then map_option (\<lambda>r. r\<lparr>srow_status := st\<rparr>) (load_session d j) else load_session d j)" for j
    by (simp add: load_session_def sessions.lookup_update)
  have final: "session_final now (s\<lparr>srow_status := st\<rparr>)"
    unfolding step_cancel(7) by (rule cancelled_final)
  show ?case
    unfolding outcomes_ok_def
  proof (intro ballI allI impI)
    fix oc j
    let ?d' = "d'\<lparr>db_high_water := now, db_sessions := set_status i st (db_sessions d)\<rparr>"
    assume oc: "oc \<in> set (db_outcomes ?d')" "or_scope oc = scope_key (Scope_Session j)"
    show "\<exists>s. load_session ?d' j = Some s \<and> session_final (db_high_water ?d') s"
    proof (cases "j = i")
      case True
      then show ?thesis
        using load [of j] step_cancel(2) final by simp
    next
      case False
      then have "oc \<in> set (db_outcomes d)"
        using oc step_cancel(8) by (auto simp: record_outcome_Inr result_iff)
      then obtain r where "load_session d j = Some r" "session_final (db_high_water d) r"
        using step_cancel.prems oc(2) unfolding outcomes_ok_def by blast
      then show ?thesis
        using load [of j] False step_cancel(1) session_final_later by auto
    qed
  qed
next
  case (step_end d i row sg old_state new_state d')
  show ?case
    by (rule outcomes_ok_frame [OF step_end.prems])
      (use step_end in \<open>auto simp: record_outcome_Inr result_iff load_session_def\<close>)
qed (auto elim!: outcomes_ok_frame simp: spend_nonce_Inr spend_challenge_def load_session_def)

section \<open>The invariant\<close>

definition store_inv :: "db \<Rightarrow> bool" where
  "store_inv d \<longleftrightarrow> keys_ok d \<and> enrollments_ok d \<and> sessions_ok d \<and> attempts_ok d
     \<and> grants_ok d \<and> budget_ok d \<and> nonces_ok d \<and> outcomes_ok d"

lemma store_inv_step: "store_step x t now d d' \<Longrightarrow> store_inv d \<Longrightarrow> store_inv d'"
  unfolding store_inv_def
  by (auto intro: keys_ok_step enrollments_ok_step sessions_ok_step attempts_ok_step grants_ok_step
      budget_ok_step nonces_ok_step outcomes_ok_step)

lemma store_inv_setup: "setup_store empty_db = Some d \<Longrightarrow> store_inv d"
  by (auto simp: empty_db_def MIGRATIONS_def setup_store.simps store_inv_def keys_ok_def
      enrollments_ok_def sessions_ok_def attempts_ok_def grants_ok_def budget_ok_def open_count_def
      nonces_ok_def outcomes_ok_def MAX_OPEN_CHALLENGES_def)

end
