(* ===== verification/Store_Runs.thy ===== *)
theory Store_Runs
  imports Store_Grants
begin

text \<open>
  Runs of the store: sequences of requests, each at its own time. The interface \<open>progress\<close> is a
  machine with an invariant and an order its steps respect; the store provides it with
  \<open>evolves\<close>, which says what no later request can take back.
\<close>

section \<open>The interface\<close>

locale progress =
  fixes step :: "'s \<Rightarrow> 's \<Rightarrow> bool" and inv :: "'s \<Rightarrow> bool" and ahead :: "'s \<Rightarrow> 's \<Rightarrow> bool"
  assumes inv_step: "inv s \<Longrightarrow> step s s' \<Longrightarrow> inv s'"
    and ahead_step: "inv s \<Longrightarrow> step s s' \<Longrightarrow> ahead s s'"
    and ahead_refl: "ahead s s"
    and ahead_trans: "ahead s s' \<Longrightarrow> ahead s' s'' \<Longrightarrow> ahead s s''"
begin

lemma run_keeps: "step\<^sup>*\<^sup>* s s' \<Longrightarrow> inv s \<Longrightarrow> inv s' \<and> ahead s s'"
  by (induction rule: rtranclp_induct) (auto intro: inv_step ahead_step ahead_refl ahead_trans)

lemma run_inv: "step\<^sup>*\<^sup>* s s' \<Longrightarrow> inv s \<Longrightarrow> inv s'"
  using run_keeps by blast

lemma run_ahead: "step\<^sup>*\<^sup>* s s' \<Longrightarrow> inv s \<Longrightarrow> ahead s s'"
  using run_keeps by blast

end

text \<open>A fact the steps keep, next to the invariant.\<close>

locale lasting_fact = progress +
  fixes fact :: "'s \<Rightarrow> bool"
  assumes fact_step: "inv s \<Longrightarrow> fact s \<Longrightarrow> step s s' \<Longrightarrow> fact s'"
begin

lemma run_fact: "step\<^sup>*\<^sup>* s s' \<Longrightarrow> inv s \<Longrightarrow> fact s \<Longrightarrow> fact s'"
proof (induction rule: rtranclp_induct)
  case (step s' s'')
  then show ?case
    using run_inv fact_step by blast
qed simp

end

section \<open>What never goes back\<close>

definition status_leads :: "session_status \<Rightarrow> session_status \<Rightarrow> bool" where
  "status_leads a b \<longleftrightarrow>
     a = b
     \<or> a = CoolingDown \<and> b \<in> {Released, Vetoed, Cancelled}
     \<or> a = Released \<and> b \<in> {Vetoed, Cancelled}"

text \<open>
  A session row keeps everything but its status and contribution; the status only moves
  forward, a contribution once stored stays, and a final row does not change at all.
\<close>

definition session_evolves :: "i64 \<Rightarrow> session_row \<Rightarrow> session_row \<Rightarrow> bool" where
  "session_evolves high_water s s' \<longleftrightarrow>
     s' = s\<lparr>srow_status := srow_status s', srow_contribution := srow_contribution s'\<rparr>
     \<and> status_leads (srow_status s) (srow_status s')
     \<and> (srow_contribution s \<noteq> None \<longrightarrow> srow_contribution s' = srow_contribution s)
     \<and> (session_final high_water s \<longrightarrow> s' = s)"

definition ended :: "enrollment_status \<Rightarrow> bool" where
  "ended st \<longleftrightarrow> st = Revoked \<or> st = Closed"

text \<open>
  An enrollment row keeps its bindings; it stays ended once it is, and custody is only ever
  given up.
\<close>

definition enrollment_evolves :: "enrollment_row \<Rightarrow> enrollment_row \<Rightarrow> bool" where
  "enrollment_evolves r r' \<longleftrightarrow>
     r' = r\<lparr>erow_status := erow_status r', erow_attempts_used := erow_attempts_used r',
            erow_sealed_envelope := erow_sealed_envelope r',
            erow_protected_artifact := erow_protected_artifact r'\<rparr>
     \<and> (ended (erow_status r) \<longrightarrow> ended (erow_status r'))
     \<and> (erow_status r' = Accepted \<longrightarrow> erow_status r = Accepted
          \<and> erow_sealed_envelope r' = erow_sealed_envelope r
          \<and> erow_protected_artifact r' = erow_protected_artifact r)
     \<and> erow_attempts_used r \<le> erow_attempts_used r'"

definition evolves :: "db \<Rightarrow> db \<Rightarrow> bool" where
  "evolves d d' \<longleftrightarrow>
     db_high_water d \<le> db_high_water d'
     \<and> rows_lead (session_evolves (db_high_water d)) (load_session d) (load_session d')
     \<and> rows_lead enrollment_evolves (at_key enrollment_key (db_enrollments d))
         (at_key enrollment_key (db_enrollments d'))
     \<and> rows_lead (\<lambda>oc oc'. oc' = oc) (at_key outcome_key (db_outcomes d))
         (at_key outcome_key (db_outcomes d'))
     \<and> grants_kept d d'"

lemma status_leads_refl [simp]: "status_leads a a"
  by (simp add: status_leads_def)

lemma status_leads_trans: "status_leads a b \<Longrightarrow> status_leads b c \<Longrightarrow> status_leads a c"
  by (auto simp: status_leads_def)

lemma session_evolves_refl [simp]: "session_evolves h s s"
  by (simp add: session_evolves_def)

lemma session_evolves_trans:
  assumes "session_evolves h s s'" "session_evolves h' s' s''" "h \<le> h'"
  shows "session_evolves h s s''"
proof -
  have "s'' = s\<lparr>srow_status := srow_status s'', srow_contribution := srow_contribution s''\<rparr>"
    using assms(1,2) by (cases s; cases s'; cases s''; simp add: session_evolves_def)
  moreover have "session_final h s \<longrightarrow> s'' = s"
    using assms by (auto simp: session_evolves_def dest: session_final_later)
  moreover have "srow_contribution s \<noteq> None \<longrightarrow> srow_contribution s'' = srow_contribution s"
    using assms(1,2) by (auto simp: session_evolves_def)
  ultimately show ?thesis
    using assms(1,2) status_leads_trans unfolding session_evolves_def by blast
qed

lemma enrollment_evolves_refl [simp]: "enrollment_evolves r r"
  by (simp add: enrollment_evolves_def)

lemma enrollment_evolves_trans:
  assumes "enrollment_evolves r r'" "enrollment_evolves r' r''"
  shows "enrollment_evolves r r''"
  using assms by (cases r; cases r'; cases r''; auto simp: enrollment_evolves_def ended_def)

lemma evolves_refl: "evolves d d"
  by (simp add: evolves_def grants_kept_same rows_lead_refl)

lemma grants_kept_trans: "grants_kept d d' \<Longrightarrow> grants_kept d' d'' \<Longrightarrow> grants_kept d d''"
  unfolding grants_kept_def by (intro conjI; elim conjE; erule (1) rows_lead_trans; simp)

lemma evolves_trans:
  assumes "evolves d d'" "evolves d' d''"
  shows "evolves d d''"
proof -
  have time: "db_high_water d \<le> db_high_water d'" "db_high_water d' \<le> db_high_water d''"
    using assms by (simp_all add: evolves_def)
  have "rows_lead (session_evolves (db_high_water d)) (load_session d) (load_session d'')"
    by (rule rows_lead_trans [where R = "session_evolves (db_high_water d)"
          and S = "session_evolves (db_high_water d')" and b = "load_session d'"])
      (use assms time in \<open>auto simp: evolves_def intro: session_evolves_trans\<close>)
  moreover have "rows_lead enrollment_evolves (at_key enrollment_key (db_enrollments d))
      (at_key enrollment_key (db_enrollments d''))"
    by (rule rows_lead_trans [where b = "at_key enrollment_key (db_enrollments d')"
          and R = enrollment_evolves and S = enrollment_evolves])
      (use assms in \<open>auto simp: evolves_def intro: enrollment_evolves_trans\<close>)
  moreover have "rows_lead (\<lambda>oc oc'. oc' = oc) (at_key outcome_key (db_outcomes d))
      (at_key outcome_key (db_outcomes d''))"
    by (rule rows_lead_trans [where b = "at_key outcome_key (db_outcomes d')"
          and R = "\<lambda>oc oc'. oc' = oc" and S = "\<lambda>oc oc'. oc' = oc"])
      (use assms in \<open>auto simp: evolves_def\<close>)
  moreover have "grants_kept d d''"
    using assms grants_kept_trans by (auto simp: evolves_def)
  ultimately show ?thesis
    using time by (simp add: evolves_def)
qed

section \<open>Every step evolves\<close>

lemma lead_insert:
  "insert_row key r t = Some t' \<Longrightarrow> (\<And>r. R r r) \<Longrightarrow> rows_lead R (at_key key t) (at_key key t')"
  unfolding rows_lead_def by (auto simp: at_key_insert result_iff at_key_None [symmetric])

lemma lead_update:
  assumes "\<And>r. key (f r) = key r" "\<And>r. R r r"
    and "\<And>r. at_key key t k = Some r \<Longrightarrow> R r (f r)"
  shows "rows_lead R (at_key key t) (at_key key (update_rows (\<lambda>r. key r = k) f t))"
  unfolding rows_lead_def using assms by (auto simp: at_key_update)

lemma evolves_frame:
  assumes "db_high_water d \<le> db_high_water d'" "grants_kept d d'"
    and "db_sessions d' = db_sessions d" "db_enrollments d' = db_enrollments d"
    and "db_outcomes d' = db_outcomes d"
  shows "evolves d d'"
proof -
  have "load_session d' = load_session d"
    by (rule ext) (simp add: load_session_def assms(3))
  then show ?thesis
    using assms by (simp add: evolves_def rows_lead_refl)
qed

lemma load_session_lead:
  "rows_lead R (at_key srow_session_id (db_sessions d)) (at_key srow_session_id (db_sessions d'))
     \<longleftrightarrow> rows_lead R (load_session d) (load_session d')"
  by (simp add: rows_lead_def load_session_def)

lemma attempt_evolves:
  "erow_attempts_used r < maximum_attempts p \<Longrightarrow>
     enrollment_evolves r (r\<lparr>erow_attempts_used := erow_attempts_used r + 1\<rparr>)"
  using inc_no_wrap [of "erow_attempts_used r" "maximum_attempts p"]
  by (cases r) (simp add: enrollment_evolves_def)

lemma end_evolves:
  "enrollment_evolves r (r\<lparr>erow_status := ended_status op st, erow_sealed_envelope := None,
     erow_protected_artifact := None\<rparr>)"
  by (cases r) (simp add: enrollment_evolves_def ended_status_def ended_def)

lemma release_evolves:
  assumes "release es (srow_state s) now clock_floor = Inr Emit" "session_ok h s" "h \<le> now"
  shows "session_evolves h s (s\<lparr>srow_status := Released, srow_contribution := Some b\<rparr>)"
  using assms
  by (cases s) (auto simp: release_Inr srow_state_def session_evolves_def status_leads_def
      session_ok_def session_final_def session_live_def)

lemma cancel_evolves:
  assumes "h \<le> now"
  shows "session_evolves h s (s\<lparr>srow_status := cancelled_status s by_holder now\<rparr>)"
  using assms
  by (cases s) (auto simp: session_evolves_def status_leads_def cancelled_status_def
      session_final_def session_live_def Let_def split: bool.splits)

text \<open>What one changed row leaves of a table's order.\<close>

lemma enrollment_rows_lead:
  assumes "store_inv d" "load_current_enrollment d i = Some row" "enrollment_evolves row (f row)"
    and "\<And>r. enrollment_key (f r) = enrollment_key r"
  shows "rows_lead enrollment_evolves (at_key enrollment_key (db_enrollments d))
    (at_key enrollment_key (update_rows (\<lambda>r. enrollment_key r = (ctx_enrollment_id (enr_context (erow_enrollment row)),
        ctx_enrollment_sequence (enr_context (erow_enrollment row)))) f (db_enrollments d)))"
proof (rule lead_update)
  fix r assume "at_key enrollment_key (db_enrollments d) (ctx_enrollment_id (enr_context (erow_enrollment row)),
      ctx_enrollment_sequence (enr_context (erow_enrollment row))) = Some r"
  then have "r = row"
    using same_enrollment [of d r row] load_current_Some [OF assms(2)] assms(1)
    by (auto simp: store_inv_def dest: at_key_Some)
  then show "enrollment_evolves r (f r)"
    using assms(3) by simp
qed (use assms(4) in simp_all)

lemma session_rows_lead:
  assumes "load_session d i = Some s" "session_evolves h s (f s)" "\<And>s. srow_session_id (f s) = srow_session_id s"
    and "db_sessions d' = update_rows (\<lambda>r. srow_session_id r = i) f (db_sessions d)"
  shows "rows_lead (session_evolves h) (load_session d) (load_session d')"
  unfolding load_session_lead [symmetric] assms(4)
  by (rule lead_update) (use assms(1-3) in \<open>simp_all add: load_session_def\<close>)

lemma outcome_rows_lead:
  "record_outcome sc sg a b now d = Inr d' \<Longrightarrow>
     rows_lead (\<lambda>oc oc'. oc' = oc) (at_key outcome_key (db_outcomes d)) (at_key outcome_key (db_outcomes d'))"
  by (auto simp: record_outcome_Inr simp del: insert_row_Some intro!: lead_insert)

lemma evolves_step: "store_step x t now d d' \<Longrightarrow> store_inv d \<Longrightarrow> evolves d d'"
proof (frule grants_kept_step, induction rule: store_step.induct)
  case (step_enroll d c i sealed en artifact request_digest rows)
  let ?d = "spend_challenge (ctx_trustee_challenge c) i now
      (d\<lparr>db_high_water := now, db_enrollments := rows\<rparr>)"
  have "load_session ?d = load_session d"
    by (rule ext) (simp add: load_session_def spend_challenge_def)
  then show ?case
    using lead_insert [OF step_enroll(8), of enrollment_evolves] step_enroll(1) step_enroll.prems
    by (simp add: evolves_def rows_lead_refl spend_challenge_def)
next
  case (step_begin d entropy raw s row adm st rows)
  let ?d = "d\<lparr>db_high_water := now,
      db_enrollments := count_attempt (erow_enrollment row) (db_enrollments d), db_sessions := rows\<rparr>"
  have "rows_lead (session_evolves (db_high_water d)) (load_session d) (load_session ?d)"
    using lead_insert [OF step_begin(9), of "session_evolves (db_high_water d)"]
    unfolding load_session_lead [symmetric] by simp
  moreover have "enrollment_evolves row (row\<lparr>erow_attempts_used := erow_attempts_used row + 1\<rparr>)"
    using step_begin(6) by (auto simp: admit_Inr intro: attempt_evolves)
  ultimately show ?case
    using step_begin(1) step_begin.prems enrollment_rows_lead [OF step_begin.prems(1) step_begin(4)]
    by (simp add: evolves_def rows_lead_refl)
next
  case (step_release d i s sg row sealed entropy verified entropy' con d')
  have "session_ok (db_high_water d) s"
    using step_release(2) step_release.prems(1)
    by (auto simp: store_inv_def sessions_ok_def dest: load_session_in)
  then have "rows_lead (session_evolves (db_high_water d)) (load_session d)
      (load_session (d'\<lparr>db_high_water := now, db_sessions := release_row i (con_canonical con) (db_sessions d)\<rparr>))"
    using release_evolves [OF step_release(6) _ step_release(1)]
    by (intro session_rows_lead [OF step_release(2),
          where f = "\<lambda>s. s\<lparr>srow_status := Released, srow_contribution := Some (con_canonical con)\<rparr>"]) simp_all
  then show ?case
    using step_release(1,11) step_release.prems by (auto simp: evolves_def spend_nonce_Inr rows_lead_refl)
next
  case (step_cancel d i s row sg by_holder st old_state new_state d')
  have "rows_lead (session_evolves (db_high_water d)) (load_session d)
      (load_session (d'\<lparr>db_high_water := now, db_sessions := set_status i st (db_sessions d)\<rparr>))"
    using cancel_evolves [OF step_cancel(1)] step_cancel(7)
    by (intro session_rows_lead [OF step_cancel(2), where f = "\<lambda>s. s\<lparr>srow_status := st\<rparr>"]) simp_all
  then show ?case
    using step_cancel(1,8) step_cancel.prems outcome_rows_lead [OF step_cancel(8)]
    by (auto simp: evolves_def record_outcome_Inr rows_lead_refl)
next
  case (step_end d i row sg old_state new_state d')
  let ?d = "d'\<lparr>db_high_water := now, db_enrollments := end_row (erow_enrollment row)
      (ended_status (sg_operation sg) (erow_status row)) (db_enrollments d)\<rparr>"
  have "load_session ?d = load_session d"
    using step_end(4) by (intro ext) (auto simp: record_outcome_Inr load_session_def)
  then show ?case
    using step_end(1) step_end.prems outcome_rows_lead [OF step_end(4)]
      enrollment_rows_lead [OF step_end.prems(1) step_end(2), of "\<lambda>r. r\<lparr>
        erow_status := ended_status (sg_operation sg) (erow_status row),
        erow_sealed_envelope := None, erow_protected_artifact := None\<rparr>"] end_evolves
    by (simp add: evolves_def rows_lead_refl)
qed (auto intro!: evolves_frame simp: spend_nonce_Inr spend_challenge_def)

section \<open>Runs\<close>

text \<open>One request, whatever its time.\<close>

definition some_step :: "extern \<Rightarrow> trustee \<Rightarrow> db \<Rightarrow> db \<Rightarrow> bool" where
  "some_step x t d d' \<longleftrightarrow> (\<exists>now. store_step x t now d d')"

interpretation store: progress "some_step x t" store_inv evolves for x t
  by unfold_locales
    (auto simp: some_step_def intro: store_inv_step evolves_step evolves_refl evolves_trans)

text \<open>
  What reaches the database, one after the other, each with the time and the randomness drawn for
  it: the operator's \<open>invite\<close> command, and a request answered by \<open>App\<close>.
\<close>

datatype event = Invite entropy i64 i64 | Request entropy bytes i64

fun serve :: "extern \<Rightarrow> trustee \<Rightarrow> event list \<Rightarrow> db \<Rightarrow> db" where
  "serve x t [] d = d"
| "serve x t (Invite e lifetime now # events) d =
     serve x t events (fst (run_step d (create_invitation x e lifetime now d)))"
| "serve x t (Request e body now # events) d =
     serve x t events (fst (handle x t e body now d))"

fun event_time :: "event \<Rightarrow> i64" where
  "event_time (Invite e lifetime now) = now"
| "event_time (Request e body now) = now"

lemma invite_steps: "store_step x t now d (fst (run_step d (create_invitation x e lifetime now d)))"
  by (cases "create_invitation x e lifetime now d")
    (auto simp: run_step_def intro: step_idle create_invitation_steps)

lemma serve_Cons:
  "\<exists>d'. store_step x t (event_time ev) d d' \<and> serve x t (ev # events) d = serve x t events d'"
proof (cases ev)
  case (Invite e lifetime now)
  then show ?thesis
    using invite_steps [of x t now d e lifetime] by auto
next
  case (Request e body now)
  then show ?thesis
    using handle_steps [of x t now d e body] by auto
qed

lemma serve_append: "serve x t (us @ vs) d = serve x t vs (serve x t us d)"
proof (induction us arbitrary: d)
  case (Cons u us)
  then show ?case
    by (cases u) simp_all
qed simp

lemma serve_steps: "(some_step x t)\<^sup>*\<^sup>* d (serve x t events d)"
proof (induction events arbitrary: d)
  case (Cons ev events)
  then show ?case
    using serve_Cons [of x t ev d events] some_step_def by (metis converse_rtranclp_into_rtranclp)
qed simp

lemma serve_inv: "store_inv d \<Longrightarrow> store_inv (serve x t events d)"
  using store.run_inv serve_steps by blast

lemma serve_evolves: "store_inv d \<Longrightarrow> evolves d (serve x t events d)"
  using store.run_ahead serve_steps by blast

end
