(* ===== verification/Example_Crates.thy ===== *)
theory Example_Crates
  imports Crypto Encodings
begin

text \<open>
  A concrete instance of the parameters of \<open>Externals\<close> that satisfies every law at once, so
  that the theorems which assume the laws are about something. It stands for no crate: its
  codecs are the plainest that round trip and its cryptography is none.
\<close>

section \<open>Hex\<close>

definition hex_digit :: "nat \<Rightarrow> char" where
  "hex_digit n = (if n < 10 then char_of (48 + n) else char_of (87 + n))"

definition hex_value :: "char \<Rightarrow> nat" where
  "hex_value c = (if of_char c < (58 :: nat) then of_char c - 48 else of_char c - 87)"

definition hex_byte :: "u8 \<Rightarrow> string" where
  "hex_byte b = [hex_digit (unat b div 16), hex_digit (unat b mod 16)]"

fun unhex :: "string \<Rightarrow> bytes option" where
  "unhex [] = Some []"
| "unhex [c] = None"
| "unhex (a # b # cs) =
     (if lowercase_hex a \<and> lowercase_hex b
      then map_option (\<lambda>bs. word_of_nat (16 * hex_value a + hex_value b) # bs) (unhex cs)
      else None)"

definition to_hex :: "bytes \<Rightarrow> string" where
  "to_hex bs = concat (map hex_byte bs)"

lemma hex_digit_ok: "n < 16 \<Longrightarrow> lowercase_hex (hex_digit n) \<and> hex_value (hex_digit n) = n"
  by (cases "n < 10")
    (simp_all add: hex_digit_def hex_value_def lowercase_hex_def byte_in_def char_le_of_char)

lemma hex_value_ok: "lowercase_hex c \<Longrightarrow> hex_value c < 16 \<and> hex_digit (hex_value c) = c"
  by (auto simp: hex_digit_def hex_value_def lowercase_hex_def byte_in_def char_le_of_char)

lemma unat_byte: "n < 256 \<Longrightarrow> unat (word_of_nat n :: u8) = n"
  by (simp add: unsigned_of_nat take_bit_eq_mod)

lemma unhex_to_hex: "unhex (to_hex bs) = Some bs"
proof (induction bs)
  case (Cons b bs)
  have "unat b < 256"
    using unsigned_less [where ?'a = nat, of b] by simp
  then have "unat b div 16 < 16" "unat b mod 16 < 16"
    by auto
  then show ?case
    using Cons by (simp add: to_hex_def hex_byte_def hex_digit_ok)
qed (simp add: to_hex_def)

lemma to_hex_unhex: "unhex t = Some bs \<Longrightarrow> to_hex bs = t"
proof (induction t arbitrary: bs rule: unhex.induct)
  case (3 a b cs)
  then obtain rest where hex: "lowercase_hex a" "lowercase_hex b"
    and rest: "unhex cs = Some rest" "bs = word_of_nat (16 * hex_value a + hex_value b) # rest"
    by (auto split: if_splits)
  have "unat (word_of_nat (16 * hex_value a + hex_value b) :: u8) = 16 * hex_value a + hex_value b"
    using hex_value_ok [OF hex(1)] hex_value_ok [OF hex(2)] by (intro unat_byte) auto
  then have "hex_byte (word_of_nat (16 * hex_value a + hex_value b)) = [a, b]"
    using hex_value_ok [OF hex(1)] hex_value_ok [OF hex(2)] by (simp add: hex_byte_def)
  then show ?case
    using 3(1) [of rest] hex rest by (simp add: to_hex_def)
qed (auto simp: to_hex_def)

lemma to_hex_shape: "length (to_hex bs) = 2 * length bs" "list_all lowercase_hex (to_hex bs)"
proof -
  show "length (to_hex bs) = 2 * length bs"
    by (induction bs) (simp_all add: to_hex_def hex_byte_def)
  show "list_all lowercase_hex (to_hex bs)"
  proof (induction bs)
    case (Cons b bs)
    have "unat b < 256"
      using unsigned_less [where ?'a = nat, of b] by simp
    then show ?case
      using Cons by (simp add: to_hex_def hex_byte_def hex_digit_ok)
  qed (simp add: to_hex_def)
qed

section \<open>JSON\<close>

text \<open>A tag per constructor and lengths in unary; the reader takes fuel for its recursion.\<close>

definition put_nat :: "nat \<Rightarrow> bytes" where
  "put_nat n = replicate n 1 @ [0]"

fun get_nat :: "bytes \<Rightarrow> (nat \<times> bytes) option" where
  "get_nat [] = None"
| "get_nat (b # bs) =
     (if b = 0 then Some (0, bs) else map_option (\<lambda>(n, r). (Suc n, r)) (get_nat bs))"

lemma get_put_nat: "get_nat (put_nat n @ bs) = Some (n, bs)"
  by (induction n) (simp_all add: put_nat_def)

definition put_string :: "string \<Rightarrow> bytes" where
  "put_string s = put_nat (length s) @ as_bytes s"

definition get_string :: "bytes \<Rightarrow> (string \<times> bytes) option" where
  "get_string bs =
     (case get_nat bs of
        None \<Rightarrow> None
      | Some (n, r) \<Rightarrow>
          if length r < n then None else Some (map (\<lambda>b. char_of (unat b)) (take n r), drop n r))"

lemma char_byte: "char_of (unat (of_char c :: u8)) = c"
proof -
  have "(of_char c :: u8) = word_of_nat (of_char c)"
    by (simp only: of_nat_of_char)
  then have "unat (of_char c :: u8) = (of_char c :: nat)"
    using unat_byte [of "of_char c"] nat_of_char_less_256 [of c] by simp
  then show ?thesis by simp
qed

lemma get_put_string: "get_string (put_string s @ bs) = Some (s, bs)"
  by (simp add: get_string_def put_string_def get_put_nat as_bytes_def char_byte o_def)

fun put_json :: "json \<Rightarrow> bytes" where
  "put_json JNull = [0]"
| "put_json (JBool b) = [if b then 2 else 1]"
| "put_json (JU64 n) = 3 # put_nat (unat n)"
| "put_json (JI64 i) = 4 # put_nat (nat (- i))"
| "put_json (JString s) = 5 # put_string s"
| "put_json (JArray vs) = 6 # put_nat (length vs) @ concat (map put_json vs)"
| "put_json (JObject kvs) =
     7 # put_nat (length kvs) @ concat (map (\<lambda>(k, v). put_string k @ put_json v) kvs)"
| "put_json (JF64 f) = [8]"

fun get_many :: "(bytes \<Rightarrow> ('a \<times> bytes) option) \<Rightarrow> nat \<Rightarrow> bytes \<Rightarrow> ('a list \<times> bytes) option" where
  "get_many g 0 bs = Some ([], bs)"
| "get_many g (Suc n) bs =
     (case g bs of
        None \<Rightarrow> None
      | Some (v, r) \<Rightarrow> map_option (\<lambda>(vs, r). (v # vs, r)) (get_many g n r))"

definition get_member :: "(bytes \<Rightarrow> (json \<times> bytes) option) \<Rightarrow> bytes \<Rightarrow> ((string \<times> json) \<times> bytes) option" where
  "get_member g bs =
     (case get_string bs of
        None \<Rightarrow> None
      | Some (k, r) \<Rightarrow> map_option (\<lambda>(v, r). ((k, v), r)) (g r))"

fun get_json :: "nat \<Rightarrow> bytes \<Rightarrow> (json \<times> bytes) option" where
  "get_json 0 bs = None"
| "get_json (Suc fuel) [] = None"
| "get_json (Suc fuel) (b # bs) =
     (if b = 0 then Some (JNull, bs)
      else if b = 1 then Some (JBool False, bs)
      else if b = 2 then Some (JBool True, bs)
      else if b = 3 then map_option (\<lambda>(n, r). (JU64 (word_of_nat n), r)) (get_nat bs)
      else if b = 4 then map_option (\<lambda>(n, r). (JI64 (- int n), r)) (get_nat bs)
      else if b = 5 then map_option (\<lambda>(s, r). (JString s, r)) (get_string bs)
      else if b = 6 then
        (case get_nat bs of
           None \<Rightarrow> None
         | Some (n, r) \<Rightarrow> map_option (\<lambda>(vs, r). (JArray vs, r)) (get_many (get_json fuel) n r))
      else if b = 7 then
        (case get_nat bs of
           None \<Rightarrow> None
         | Some (n, r) \<Rightarrow>
             map_option (\<lambda>(kvs, r). (JObject kvs, r)) (get_many (get_member (get_json fuel)) n r))
      else None)"

lemma get_many_put:
  "(\<And>v r. v \<in> set vs \<Longrightarrow> g (put v @ r) = Some (v, r)) \<Longrightarrow>
     get_many g (length vs) (concat (map put vs) @ r) = Some (vs, r)"
  by (induction vs) auto

lemma depth_members:
  "v \<in> set vs \<Longrightarrow> f v \<le> foldr max (map f vs) (0 :: nat)"
  by (induction vs) auto

lemma get_put_json: "plain_value v \<Longrightarrow> json_depth v < fuel \<Longrightarrow> get_json fuel (put_json v @ r) = Some (v, r)"
proof (induction v arbitrary: fuel r)
  case (JArray vs)
  then obtain k where k: "fuel = Suc k"
    by (cases fuel) auto
  have "get_json k (put_json v @ r) = Some (v, r)" if "v \<in> set vs" for v r
    using JArray that k depth_members [OF that, of json_depth] by (intro JArray.IH) auto
  then show ?case
    by (simp add: k get_put_nat get_many_put)
next
  case (JObject kvs)
  then obtain f where f: "fuel = Suc f"
    by (cases fuel) auto
  have "get_member (get_json f) ((\<lambda>(k, v). put_string k @ put_json v) p @ r) = Some (p, r)"
    if p: "p \<in> set kvs" for p r
  proof -
    obtain k v where kv: "p = (k, v)" by force
    have "get_json f (put_json v @ r) = Some (v, r)"
      using JObject.prems p kv f depth_members [OF p, of "\<lambda>(k, v). json_depth v"]
      by (intro JObject.IH [of p v]) (auto simp: snds.simps)
    then show ?thesis
      by (simp add: kv get_member_def get_put_string)
  qed
  then show ?case
    by (simp add: f get_put_nat get_many_put)
next
  case (JI64 i)
  then show ?case by (cases fuel) (auto simp: get_put_nat)
qed (auto simp: get_put_nat get_put_string gr0_conv_Suc)

lemma put_json_length: "json_depth v < length (put_json v)"
proof (induction v)
  case (JArray vs)
  have "foldr max (map json_depth vs) 0 \<le> length (concat (map put_json vs))"
    using JArray
  proof (induction vs)
    case (Cons v vs)
    have "json_depth v < length (put_json v)"
      using Cons.prems [of v] by simp
    moreover have "foldr max (map json_depth vs) 0 \<le> length (concat (map put_json vs))"
      using Cons by auto
    ultimately show ?case
      by simp
  qed simp
  then show ?case
    by (simp add: put_nat_def)
next
  case (JObject kvs)
  have "foldr max (map (\<lambda>(k, v). json_depth v) kvs) 0
      \<le> length (concat (map (\<lambda>(k, v). put_string k @ put_json v) kvs))"
    using JObject
  proof (induction kvs)
    case (Cons p kvs)
    obtain k v where kv: "p = (k, v)" by force
    have "json_depth v < length (put_json v)"
      using Cons.prems [of p v] by (simp add: kv snds.simps)
    moreover have "foldr max (map (\<lambda>(k, v). json_depth v) kvs) 0
      \<le> length (concat (map (\<lambda>(k, v). put_string k @ put_json v) kvs))"
      using Cons by auto
    ultimately show ?case
      by (simp add: kv)
  qed simp
  then show ?case
    by (simp add: put_nat_def)
qed auto

definition read_json :: "bytes \<Rightarrow> json option" where
  "read_json bs =
     (case get_json (length bs) bs of
        Some (v, r) \<Rightarrow> if r = [] then Some v else None
      | None \<Rightarrow> None)"

lemma read_put_json: "plain_value v \<Longrightarrow> read_json (put_json v) = Some v"
  using get_put_json [of v "length (put_json v)" "[]"] put_json_length [of v]
  by (simp add: read_json_def)

section \<open>The instance\<close>

definition epoch_offset :: int where
  "epoch_offset = 62167219200"

definition seal_frame :: "bytes \<Rightarrow> bytes \<Rightarrow> bytes" where
  "seal_frame key info = replicate 16 0 @ put_nat (length key) @ key @ put_nat (length info) @ info"

definition crates :: extern where
  "crates = \<lparr>
     sha256_digest = (\<lambda>bs. take 32 (bs @ replicate 32 0)),
     hex_encode = to_hex,
     hex_decode_to_slice = (\<lambda>n t. Option.bind (unhex t) (\<lambda>bs. if length bs = n then Some bs else None)),
     base64_encode = to_hex,
     base64_decode = unhex,
     rfc3339_parse = (\<lambda>t. if t \<noteq> [] \<and> list_all is_ascii_digit t
        then Some (decimal t - epoch_offset) else None),
     rfc3339_format = (\<lambda>s. if - 62167219200 \<le> s \<and> s \<le> 253402300799
        then Some (decimal_text (nat (s + epoch_offset))) else None),
     json_read = (\<lambda>bs. Option.bind (read_json bs)
        (\<lambda>v. if readable v \<and> json_depth v \<le> 127 then Some v else None)),
     json_write = put_json,
     kem_private_key_ok = (\<lambda>sk. length sk = 32),
     kem_public_key = (\<lambda>sk. sk),
     kem_public_key_ok = (\<lambda>pk. True),
     kem_encapped_key_ok = (\<lambda>enc. True),
     single_shot_seal = (\<lambda>e pk i p. Some (take 32 (e @ replicate 32 0), seal_frame pk i @ p)),
     single_shot_open = (\<lambda>sk enc i ct.
        if take (length (seal_frame sk i)) ct = seal_frame sk i
        then Some (drop (length (seal_frame sk i)) ct) else None),
     ed25519_public_key = (\<lambda>sk. sk),
     ed25519_point_ok = (\<lambda>pk. True),
     ed25519_is_weak = (\<lambda>pk. False),
     ed25519_verify_strict = (\<lambda>pk m s. s = take 64 (pk @ m @ replicate 64 0)),
     ed25519_sign = (\<lambda>sk m. take 64 (sk @ m @ replicate 64 0))\<rparr>"

lemma plain_readable: "plain_value v \<Longrightarrow> readable v"
  by (induction v) (fastforce simp: list_all_iff snds.simps)+

lemma crates_json: "json_laws crates"
  by (auto simp: json_laws_def crates_def read_put_json plain_readable bind_eq_Some_conv
      split: if_splits)

lemma crates_hex: "hex_laws crates"
  using to_hex_shape unhex_to_hex to_hex_unhex
  by (auto simp: hex_laws_def crates_def lowercase_hex_def [symmetric] bind_eq_Some_conv
      split: if_splits)

lemma crates_base64: "base64_laws crates"
  using unhex_to_hex to_hex_unhex to_hex_shape
  by (auto simp: base64_laws_def crates_def ascii_def list_all_iff lowercase_hex_ascii)

lemma digits_ascii: "list_all is_ascii_digit t \<Longrightarrow> ascii t"
  by (auto simp: ascii_def list_all_iff is_ascii_digit_def byte_in_def in_bytes_def char_le_of_char)

lemma crates_time: "time_laws crates"
  using decimal_text_digits
  by (auto simp: time_laws_def crates_def decimal_of_text epoch_offset_def digits_ascii
      split: if_splits)

lemma crates_hpke: "hpke_laws crates"
  by (auto simp: hpke_laws_def crates_def seal_frame_def min_def)

lemma crates_ed25519: "ed25519_laws crates"
  by (auto simp: ed25519_laws_def crates_def min_def)

lemma crates_private_key: "private_key_laws crates"
  by (simp add: private_key_laws_def crates_def)

lemmas crates_laws = crates_json crates_hex crates_base64 crates_time crates_hpke crates_ed25519

end
