(* ===== verification/Manifest.thy ===== *)
theory Manifest
  imports Store
begin

text \<open>
  The signed service manifest of \<open>src/lib.rs\<close> (\<open>Trustee::manifest\<close>), with the grid its
  expiry sits on.
\<close>

definition MANIFEST_PERIOD_SECS :: i64 where
  "MANIFEST_PERIOD_SECS = 30 * 86400"

definition RETENTION :: string where
  "RETENTION =
     ''The sealed share and artifact are kept until the holder revokes or ''
     @ ''closes the enrollment. That removes them from the live database at once; copies in freed ''
     @ ''disk blocks, snapshots or backups are not erased. A tombstone keeps the non-secret ''
     @ ''bindings, and released contributions stay as ciphertext only the candidate can open. ''
     @ ''Expired enrollments are not swept yet.''"

text \<open>\<open>str::trim_end_matches\<close> on one byte, and \<open>Value::from\<close> on a signed number.\<close>

definition trim_end_matches :: "char \<Rightarrow> string \<Rightarrow> string" where
  "trim_end_matches c s = rev (dropWhile (\<lambda>d. d = c) (rev s))"

definition json_i64 :: "i64 \<Rightarrow> json" where
  "json_i64 i = (if 0 \<le> i then JU64 (word_of_int i) else JI64 i)"

definition valid_until_secs :: "i64 \<Rightarrow> i64" where
  "valid_until_secs now =
     (let period = now div MANIFEST_PERIOD_SECS
      in i64_mul (i64_add period 3) MANIFEST_PERIOD_SECS)"

text \<open>The members of the manifest that are objects of their own, in the code's order.\<close>

definition manifest_key :: "extern \<Rightarrow> trustee \<Rightarrow> json" where
  "manifest_key x t = json_object [
     (''suite'', JString ENCRYPTION_SUITE),
     (''publicKey'', JString (hex_encode x (public_key x t))),
     (''trusteeKeyId'', JString (key_id x t))]"

definition manifest_limits :: "limits \<Rightarrow> json" where
  "manifest_limits l = json_object [
     (''clockSkewSeconds'', json_i64 (lim_skew_secs l)),
     (''minimumCooldownSeconds'', json_i64 (lim_min_cooldown_secs l)),
     (''maximumCooldownSeconds'', json_i64 (lim_max_cooldown_secs l)),
     (''maximumSessionLifetimeSeconds'', json_i64 (lim_max_session_lifetime_secs l)),
     (''maximumAttempts'', JU64 (ucast (lim_max_attempts l))),
     (''maximumEnrollmentTermSeconds'', json_i64 (lim_max_enrollment_term_secs l)),
     (''maximumArtifactBytes'', JU64 (lim_max_artifact_bytes l)),
     (''maximumRequestBytes'', JU64 (max_request_bytes l))]"

definition manifest_refused :: json where
  "manifest_refused = json_object (map (\<lambda>(operation, c). (operation, JString (code_as_str c))) REFUSED)"

definition manifest_offer :: "service \<Rightarrow> json" where
  "manifest_offer svc = json_object [
     (''offerId'', JString ''free-v1''),
     (''model'', JString ''free''),
     (''service'', JString (''Custody of one SLIP-0039 share per enrollment slot, released ''
        @ ''under the enrolled policy'')),
     (''recoveryFees'', JString ''none''),
     (''lapse'', JString ''none''),
     (''export'', JString ''unavailable''),
     (''retention'', JString RETENTION),
     (''jurisdiction'', JString (svc_jurisdiction svc)),
     (''complaints'', JString (svc_contact svc)),
     (''splits'', JArray []),
     (''limitations'', JArray (map JString [
        ''Unreviewed reference implementation: synthetic test secrets only.'',
        ''Notices reach the holder only while an enrolled device polls.'',
        ''Freshness rests on this operator's local state and clock.'']))]"

definition manifest_json :: "extern \<Rightarrow> trustee \<Rightarrow> service \<Rightarrow> string \<Rightarrow> json" where
  "manifest_json x t svc valid_until = json_object [
     (''version'', JU64 1),
     (''componentId'', JString (tr_component_id t)),
     (''seat'', JString SEAT),
     (''operator'', JString (operator x t)),
     (''recoveryProfileId'', JString RECOVERY_PROFILE_ID),
     (''implementationProfileIds'', JArray [JString IMPLEMENTATION_PROFILE_ID]),
     (''bindingVersion'', JString BINDING_VERSION),
     (''endpoints'', JArray [JString (svc_endpoint svc)]),
     (''trustDomain'', JString (svc_trust_domain svc)),
     (''jurisdiction'', JString (svc_jurisdiction svc)),
     (''retention'', JString RETENTION),
     (''recoveryFactors'', JArray [JString (trim_end_matches CHR '':'' FACTOR_ED25519_SESSION)]),
     (''notificationChannels'', JArray [JString NOTICE_HOLDER_POLL]),
     (''enrollmentKey'', manifest_key x t),
     (''storageClass'', JString STORAGE_CLASS),
     (''limits'', manifest_limits (tr_limits t)),
     (''operations'', JArray (map JString OPERATIONS)),
     (''unsupportedOperations'', manifest_refused),
     (''offers'', JArray [manifest_offer svc]),
     (''validUntil'', JString valid_until)]"

definition manifest :: "extern \<Rightarrow> trustee \<Rightarrow> service \<Rightarrow> i64 \<Rightarrow> bytes outcome" where
  "manifest x t svc now =
     and_then (ok_or TemporarilyUnavailable (format_timestamp x (valid_until_secs now)))
       (\<lambda>valid_until. Inr (sign_object x (manifest_json x t svc valid_until) (tr_signing_key t)))"

end
