(* ===== verification/Service.thy ===== *)
theory Service
  imports Manifest
begin

text \<open>
  The service's settings, \<open>src/main.rs\<close>: the published limits, the configuration read from the
  environment, the key file and the clock. An error is the text the process ends with.
\<close>

section \<open>Limits\<close>

definition DAY :: i64 where
  "DAY = 86400"

definition service_limits :: "i64 \<Rightarrow> limits" where
  "service_limits min_cooldown_secs = \<lparr>
     lim_skew_secs = 300,
     lim_min_cooldown_secs = min_cooldown_secs,
     lim_max_cooldown_secs = 30 * DAY,
     lim_max_session_lifetime_secs = 30 * DAY,
     lim_max_attempts = 10,
     lim_max_enrollment_term_secs = 2 * 365 * DAY,
     lim_max_artifact_bytes = 64 * 1024\<rparr>"

section \<open>Configuration\<close>

text \<open>\<open>str::split_once\<close> on a pattern of several bytes.\<close>

fun split_once_on :: "string \<Rightarrow> string \<Rightarrow> (string \<times> string) option" where
  "split_once_on p [] = (if p = [] then Some ([], []) else None)"
| "split_once_on p (c # cs) =
     (case strip_prefix p (c # cs) of
        Some rest \<Rightarrow> Some ([], rest)
      | None \<Rightarrow> map_option (\<lambda>(a, b). (c # a, b)) (split_once_on p cs))"

definition public_host :: "string \<Rightarrow> string option" where
  "public_host url =
     Option.bind (split_once_on ''://'' url) (\<lambda>(scheme, authority).
       let host = hd (split_on CHR '':'' authority);
           loopback = host \<in> {''127.0.0.1'', ''localhost''};
           valid = (scheme = ''https'' \<or> scheme = ''http'' \<and> loopback)
             \<and> host \<noteq> []
             \<and> \<not> list_ex (\<lambda>c. c \<in> {CHR ''/'', CHR ''?'', CHR ''#'', CHR ''@''}) authority
       in if valid then Some host else None)"

record config =
  cfg_component_id :: string
  cfg_key_file :: string
  cfg_store_path :: string
  cfg_bind :: string
  cfg_min_cooldown_secs :: i64
  cfg_service :: service

definition newline :: char where
  "newline = CHR 0x0A"

definition USAGE :: string where
  "USAGE = concat (map (\<lambda>l. l @ [newline]) [
     ''usage: onym-recovery-trustee serve | keygen <path> | invite [lifetime]'',
     '''',
     ''Environment:'',
     ''  TRUSTEE_COMPONENT_ID   onym:component:<id> (serve)'',
     ''  TRUSTEE_PUBLIC_URL     origin clients reach, https:// or http://127.0.0.1 (serve)'',
     ''  TRUSTEE_KEY_FILE       key file written by `keygen` (serve)'',
     ''  TRUSTEE_STORE_PATH     SQLite database, default trustee.sqlite'',
     ''  TRUSTEE_BIND           listen address, default 127.0.0.1:8080'',
     ''  TRUSTEE_TRUST_DOMAIN   declared administrative domain, default the URL's host'',
     ''  TRUSTEE_JURISDICTION   declared jurisdiction, default none'',
     ''  TRUSTEE_CONTACT        complaint path, default none''])
     @ ''  TRUSTEE_MIN_COOLDOWN   shortest cooldown a policy may set, default PT1M''"

definition positive_duration :: "string \<Rightarrow> i64 option" where
  "positive_duration text =
     Option.bind (duration text) (\<lambda>seconds. if 0 < seconds then Some seconds else None)"

text \<open>\<open>format!("{path}: {error}")\<close>.\<close>

definition at_path :: "string \<Rightarrow> string \<Rightarrow> string" where
  "at_path path error = path @ '': '' @ error"

definition store_path :: "(string \<Rightarrow> string option) \<Rightarrow> string" where
  "store_path env = (case env ''TRUSTEE_STORE_PATH'' of None \<Rightarrow> ''trustee.sqlite'' | Some p \<Rightarrow> p)"

text \<open>
  \<open>Config::from_env\<close>. The environment holds the variables that are Unicode; \<open>socket_addr\<close> stands for
  the parser of \<open>SocketAddr\<close> and gives the text an address is printed as.
\<close>

definition config_from_env ::
  "(string \<Rightarrow> string option) \<Rightarrow> (string \<Rightarrow> string option) \<Rightarrow> string + config" where
  "config_from_env socket_addr env =
     (let required = (\<lambda>name. ok_or (name @ '' is required'' @ [newline, newline] @ USAGE) (env name));
          optional = (\<lambda>name default. case env name of None \<Rightarrow> default | Some v \<Rightarrow> v) in
     and_then (required ''TRUSTEE_COMPONENT_ID'') (\<lambda>component_id.
     if \<not> is_component_id component_id
     then Inl ''TRUSTEE_COMPONENT_ID: onym:component: and 1-64 of [a-z0-9-]''
     else
     and_then (required ''TRUSTEE_PUBLIC_URL'') (\<lambda>public_url.
     and_then (ok_or (''TRUSTEE_PUBLIC_URL: an https:// origin, or http://127.0.0.1 or ''
           @ ''http://localhost for local use; no path'') (public_host public_url)) (\<lambda>host.
     let bind_text = optional ''TRUSTEE_BIND'' ''127.0.0.1:8080'';
         min_cooldown = optional ''TRUSTEE_MIN_COOLDOWN'' ''PT1M'' in
     and_then (required ''TRUSTEE_KEY_FILE'') (\<lambda>key_file.
     and_then (ok_or (''TRUSTEE_BIND: '' @ bind_text) (socket_addr bind_text)) (\<lambda>address.
     and_then (ok_or ''TRUSTEE_MIN_COOLDOWN: an ISO 8601 duration such as PT1M''
         (positive_duration min_cooldown)) (\<lambda>min_cooldown_secs.
     Inr \<lparr>cfg_component_id = component_id,
          cfg_key_file = key_file,
          cfg_store_path = store_path env,
          cfg_bind = address,
          cfg_min_cooldown_secs = min_cooldown_secs,
          cfg_service = \<lparr>
            svc_endpoint = public_url @ ''/v1/trustee'',
            svc_trust_domain = optional ''TRUSTEE_TRUST_DOMAIN'' host,
            svc_jurisdiction = optional ''TRUSTEE_JURISDICTION'' ''none'',
            svc_contact = optional ''TRUSTEE_CONTACT'' ''none''\<rparr>\<rparr>)))))))"

section \<open>The key file\<close>

text \<open>
  \<open>str::lines\<close>: a final newline ends the last line, and a line ended by a newline loses one
  carriage return before it.
\<close>

definition strip_cr :: "string \<Rightarrow> string" where
  "strip_cr s = (if s \<noteq> [] \<and> last s = CHR 0x0D then butlast s else s)"

definition text_lines :: "string \<Rightarrow> string list" where
  "text_lines s =
     (let ls = split_on newline s
      in if last ls = [] then map strip_cr (butlast ls)
         else map strip_cr (butlast ls) @ [last ls])"

text \<open>The text \<open>keygen\<close> writes for its 64 random bytes.\<close>

definition key_file_text :: "extern \<Rightarrow> bytes \<Rightarrow> string" where
  "key_file_text x seeds =
     ''operator-ed25519 '' @ hex_encode x (take 32 seeds) @ [newline]
     @ ''enrollment-x25519 '' @ hex_encode x (drop 32 seeds) @ [newline]"

fun key_line :: "extern \<Rightarrow> string \<Rightarrow> string list \<Rightarrow> bytes option \<times> string list" where
  "key_line x label [] = (None, [])"
| "key_line x label (l # ls) = (Option.bind (strip_prefix label l) (hex32 x), ls)"

definition parse_keys :: "extern \<Rightarrow> string \<Rightarrow> string + bytes \<times> bytes" where
  "parse_keys x text =
     (let malformed = ''key file: expected the two lines `keygen` writes'' in
      case key_line x ''operator-ed25519 '' (text_lines text) of
        (operator_seed, ls) \<Rightarrow>
          (case key_line x ''enrollment-x25519 '' ls of
             (enrollment_seed, rest) \<Rightarrow>
               (case (operator_seed, enrollment_seed) of
                  (Some a, Some b) \<Rightarrow>
                    if rest \<noteq> [] then Inl malformed
                    else and_then (map_err (\<lambda>_. ''key file: enrollment key'') (hpke_private_key x b))
                      (\<lambda>hpke_key. Inr (a, hpke_key))
                | _ \<Rightarrow> Inl malformed)))"

definition configured_trustee :: "config \<Rightarrow> bytes \<times> bytes \<Rightarrow> trustee" where
  "configured_trustee cfg keys =
     \<lparr>tr_component_id = cfg_component_id cfg, tr_hpke_key = snd keys, tr_signing_key = fst keys,
      tr_limits = service_limits (cfg_min_cooldown_secs cfg)\<rparr>"

section \<open>The clock\<close>

text \<open>
  The clock: the whole seconds since the epoch, when the system time is not before it.
\<close>

definition now_of :: "nat option \<Rightarrow> i64 outcome" where
  "now_of elapsed =
     (case elapsed of
        None \<Rightarrow> Inl TemporarilyUnavailable
      | Some secs \<Rightarrow> if int secs < 2 ^ 63 then Inr (int secs) else Inl TemporarilyUnavailable)"

end
