(* ===== verification/Store_Example.thy ===== *)
theory Store_Example
  imports Store_Runs Example_Crates Service
begin

text \<open>
  A small database in which the hypotheses of the store's properties hold: one enrollment made
  with one invitation, a session cooling down, a released one and one the holder vetoed.
\<close>

definition example_context :: enrollment_context where
  "example_context = \<lparr>ctx_implementation_profile_id = IMPLEMENTATION_PROFILE_ID,
     ctx_enrollment_id = ''e1'', ctx_enrollment_sequence = 1, ctx_policy_digest = ''p1'',
     ctx_artifact_id = ''a1'', ctx_artifact_digest = ''d1'',
     ctx_trustee_component_id = ''onym:component:t1'', ctx_slot = ''s1'',
     ctx_trustee_challenge = ''c1'', ctx_authorization_key_digest = ''k1''\<rparr>"

definition example_enrollment :: enrollment where
  "example_enrollment = \<lparr>enr_context = example_context,
     enr_identity_binding_commitment = ''b1'', enr_member_index = 0, enr_member_threshold = 2,
     enr_member_count = 3,
     enr_policy = \<lparr>factor_key = [1], cooldown_secs = 100, session_lifetime_secs = 900,
       maximum_attempts = 4\<rparr>,
     enr_created_at = 10, enr_expires_at = 5000, enr_authorization_key = [7]\<rparr>"

definition example_row :: enrollment_row where
  "example_row = \<lparr>erow_enrollment_id = ''e1'', erow_sequence = 1, erow_status = Accepted,
     erow_challenge = ''c1'', erow_request_digest = ''r1'', erow_enrollment = example_enrollment,
     erow_attempts_used = 3, erow_stored_at = 20, erow_sealed_envelope = Some [1, 2, 3],
     erow_protected_artifact = Some [4, 5]\<rparr>"

definition example_session :: "string \<Rightarrow> session_status \<Rightarrow> bytes option \<Rightarrow> session_row" where
  "example_session i st con = \<lparr>srow_session_id = i, srow_enrollment_id = ''e1'',
     srow_sequence = 1, srow_status = st, srow_request = [9], srow_proof_key = [8],
     srow_destination_keys_digest = ''k2'', srow_cooldown_ends_at = 200, srow_expires_at = 1000,
     srow_remaining_attempts = 2, srow_created_at = 100, srow_contribution = con\<rparr>"

definition example_outcome :: outcome_row where
  "example_outcome = \<lparr>or_scope = scope_key (Scope_Session ''vetoed''), or_request_id = ''q1'',
     or_request_digest = ''h1'', or_operation = ''cancel-recovery'', or_old_state = ''cooling_down'',
     or_new_state = ''cancelled'', or_recorded_at = 300\<rparr>"

definition example_db :: db where
  "example_db = \<lparr>db_version = 2, db_high_water = 300,
     db_invitations = [\<lparr>inv_digest = ''i1'', inv_expires_at = 900, inv_used_at = Some 20\<rparr>,
       \<lparr>inv_digest = ''i2'', inv_expires_at = 900, inv_used_at = None\<rparr>],
     db_challenges = [\<lparr>chl_challenge = ''c1'', chl_invitation = ''i1'', chl_expires_at = 800,
         chl_used_at = Some 20\<rparr>,
       \<lparr>chl_challenge = ''c2'', chl_invitation = ''i2'', chl_expires_at = 800, chl_used_at = None\<rparr>],
     db_enrollments = [example_row],
     db_sessions = [example_session ''cooling'' CoolingDown None,
       example_session ''released'' Released (Some [5]),
       example_session ''vetoed'' Vetoed None],
     db_nonces = [\<lparr>nr_scope = ''s'', nr_request_id = ''n1'', nr_seen_at = 300\<rparr>],
     db_outcomes = [example_outcome],
     db_identity = None\<rparr>"

definition example_trustee :: trustee where
  "example_trustee = \<lparr>tr_component_id = ''onym:component:t1'', tr_hpke_key = replicate 32 3,
     tr_signing_key = replicate 32 4, tr_limits = service_limits 60\<rparr>"

definition example_entropy :: entropy where
  "example_entropy = \<lparr>ent_id = Some (replicate 32 1), ent_check = replicate 32 2,
     ent_seal = replicate 32 5\<rparr>"

lemma example_load:
  "load_session example_db ''cooling'' = Some (example_session ''cooling'' CoolingDown None)"
  "load_session example_db ''released'' = Some (example_session ''released'' Released (Some [5]))"
  "load_session example_db ''vetoed'' = Some (example_session ''vetoed'' Vetoed None)"
  by (simp_all add: load_session_def at_key_def select_row_def example_db_def example_session_def)

lemma example_keys: "keys_ok example_db"
  by (simp add: keys_ok_def example_db_def example_session_def example_row_def)

lemma example_rows: "enrollments_ok example_db" "sessions_ok example_db" "attempts_ok example_db"
  by (simp_all add: enrollments_ok_def enrollment_ok_def sessions_ok_def session_ok_def attempts_ok_def
      session_key_def enrollment_key_def example_db_def example_row_def example_session_def
      example_enrollment_def example_context_def)

lemma example_grants: "grants_ok example_db"
  by (simp add: grants_ok_def granted_def at_key_def select_row_def example_db_def example_row_def)

lemma example_budget: "budget_ok example_db"
  unfolding budget_ok_def open_count_def challenge_open_def
  by (simp add: example_db_def MAX_OPEN_CHALLENGES_def)

lemma example_outcomes: "outcomes_ok example_db"
  using example_load
  by (auto simp: outcomes_ok_def example_db_def [THEN arg_cong, of db_outcomes]
      example_db_def [THEN arg_cong, of db_high_water] example_outcome_def session_final_def
      session_live_def example_session_def)

lemma example_inv: "store_inv example_db"
  unfolding store_inv_def
  using example_keys example_rows example_grants example_budget example_outcomes
  by (simp add: nonces_ok_def example_db_def)

end
