(* ===== verification/Store_Properties.thy ===== *)
theory Store_Properties
  imports Store_Example
begin

text \<open>
  What the store promises over whole runs of requests (\<open>src/store.rs\<close>): the limits no sequence
  of requests exceeds, when a contribution can leave, and what no later request takes back.
\<close>

section \<open>Limits that hold in every reachable database\<close>

definition new_db :: db where
  "new_db = (case setup_store empty_db of None \<Rightarrow> empty_db | Some d \<Rightarrow> d)"

lemma new_db_inv: "store_inv new_db"
  using store_inv_setup
  by (simp add: new_db_def empty_db_def MIGRATIONS_def setup_store.simps split: option.splits)

lemma reached_inv: "store_inv (serve x t events new_db)"
  using serve_inv new_db_inv by blast

text \<open>The invitation an enrollment's challenge was issued for.\<close>

definition invitation_of :: "db \<Rightarrow> enrollment_row \<Rightarrow> string option" where
  "invitation_of d r = map_option chl_invitation (at_key chl_challenge (db_challenges d) (erow_challenge r))"

lemma granted_invitation: "granted d r i \<Longrightarrow> invitation_of d r = Some i"
  by (auto simp: granted_def invitation_of_def)

lemma invitations_distinct:
  assumes "store_inv d"
  shows "distinct (map (invitation_of d) (db_enrollments d)) \<and> None \<notin> invitation_of d ` set (db_enrollments d)"
proof -
  have some: "\<exists>i. granted d r i \<and> invitation_of d r = Some i" if "r \<in> set (db_enrollments d)" for r
    using assms that granted_invitation unfolding store_inv_def grants_ok_def by metis
  have "inj_on (invitation_of d) (set (db_enrollments d))"
  proof (rule inj_onI)
    fix r s assume rs: "r \<in> set (db_enrollments d)" "s \<in> set (db_enrollments d)"
      and eq: "invitation_of d r = invitation_of d s"
    then obtain i where "granted d r i" "granted d s i"
      using some [OF rs(1)] some [OF rs(2)] by auto
    then show "r = s"
      using assms rs unfolding store_inv_def grants_ok_def by blast
  qed
  moreover have "distinct (db_enrollments d)"
    using assms by (auto simp: store_inv_def keys_ok_def distinct_map)
  ultimately show ?thesis
    using some by (force simp: distinct_map)
qed

lemma open_challenges_bounded:
  "int (open_count (serve x t events new_db) i
     (db_high_water (serve x t events new_db))) \<le> 4"
  using reached_inv [of x t events] unfolding store_inv_def budget_ok_def MAX_OPEN_CHALLENGES_def
  by blast

text \<open>
  C6: One invitation authorizes one enrollment, through at most four challenges at a time: after any
  sequence of invitations and requests to a new database, every enrollment answered a challenge of an
  invitation that no other enrollment's challenge was issued for, and no invitation has more than four
  unused and unexpired challenges.
\<close>
theorem one_enrollment_per_invitation:
  "let d = serve x t events new_db
   in distinct (map (invitation_of d) (db_enrollments d))
      \<and> None \<notin> set (map (invitation_of d) (db_enrollments d))
      \<and> int (open_count d i (db_high_water d)) \<le> 4"
  using invitations_distinct [OF reached_inv] open_challenges_bounded by (simp add: Let_def)

text \<open>
  C7: Attempts are counted and bounded: after any sequence of invitations and requests, the attempts recorded
  for an enrollment are exactly its sessions, refused ones included, and never exceed the
  maximum of the policy it was accepted with.
\<close>
theorem attempts_bounded:
  "let d = serve x t events new_db
   in list_all (\<lambda>r.
        length (filter (\<lambda>s. session_key s = enrollment_key r) (db_sessions d))
          = unat (erow_attempts_used r)
        \<and> erow_attempts_used r \<le> maximum_attempts (enr_policy (erow_enrollment r)))
      (db_enrollments d)"
  using reached_inv [of x t events]
  by (auto simp: Let_def list_all_iff store_inv_def attempts_ok_def enrollments_ok_def enrollment_ok_def)

text \<open>
  C20: Custody is held exactly while it is accepted: after any sequence of invitations and requests, an
  enrollment has its sealed envelope and its protected artifact when its status is accepted,
  and neither once it was revoked or closed.
\<close>
theorem custody_while_accepted:
  "list_all (\<lambda>r.
      (erow_sealed_envelope r \<noteq> None) = (erow_status r = Accepted)
      \<and> (erow_protected_artifact r \<noteq> None) = (erow_status r = Accepted)
      \<and> erow_status r \<noteq> Superseded)
    (db_enrollments (serve x t events new_db))"
  using reached_inv [of x t events]
  by (auto simp: list_all_iff store_inv_def enrollments_ok_def enrollment_ok_def)

section \<open>Release\<close>

lemma session_change:
  assumes "store_step x t now d d'" "store_inv d" "load_session d i = Some s" "load_session d' i = Some s'"
  shows "s' = s
    \<or> (\<exists>row con. db_high_water d \<le> now
        \<and> session_enrollment d s = Inr row
        \<and> erow_status row = Accepted \<and> now < enr_expires_at (erow_enrollment row)
        \<and> srow_cooldown_ends_at s \<le> now \<and> now < srow_expires_at s
        \<and> srow_status s = CoolingDown
        \<and> s' = s\<lparr>srow_status := Released, srow_contribution := Some con\<rparr>)
    \<or> (session_live (srow_status s) \<and> now < srow_expires_at s
        \<and> (s' = s\<lparr>srow_status := Vetoed\<rparr> \<or> s' = s\<lparr>srow_status := Cancelled\<rparr>))"
  using assms(1)
proof cases
  case (step_begin entropy raw q row adm st rows)
  then show ?thesis
    using assms(3,4) sessions.lookup_old by (fastforce simp: load_session_def)
next
  case (step_release j q sg row sealed entropy verified entropy' con d2)
  then have "s' = (if i = j then s\<lparr>srow_status := Released, srow_contribution := Some (con_canonical con)\<rparr> else s)"
    using assms(3,4) by (auto simp: load_session_def sessions.lookup_update)
  then show ?thesis
    using step_release assms(3) by (auto simp: release_Inr erow_state_def srow_state_def)
next
  case (step_cancel j q row sg by_holder st old_state new_state d2)
  then have "s' = (if i = j then s\<lparr>srow_status := st\<rparr> else s)"
    using assms(3,4) by (auto simp: load_session_def sessions.lookup_update)
  then show ?thesis
    using step_cancel assms(3)
    by (auto simp: cancelled_status_def session_live_def Let_def split: bool.splits if_splits)
qed (use assms(3,4) in \<open>auto simp: spend_nonce_Inr record_outcome_Inr spend_challenge_def load_session_def\<close>)

lemma kept_session:
  "store_inv d \<Longrightarrow> load_session d i = Some s \<Longrightarrow>
     \<exists>s'. load_session (serve x t events d) i = Some s'
       \<and> session_evolves (db_high_water d) s s'"
  using serve_evolves [of d x t events] by (simp add: evolves_def rows_lead_def)

lemma handle_inv: "store_inv d \<Longrightarrow> store_inv (fst (handle x t e body now d))"
  using store_inv_step handle_steps by blast

lemma handle_session:
  "store_inv d \<Longrightarrow> load_session d i = Some s \<Longrightarrow>
     \<exists>s'. load_session (fst (handle x t e body now d)) i = Some s'
       \<and> session_evolves (db_high_water d) s s'"
  using evolves_step [OF handle_steps, of d x t e body now] by (simp add: evolves_def rows_lead_def)

text \<open>
  C1: A contribution leaves only under the policy: when one request changes what a session row
  holds, either it released the contribution, and then the enrollment was accepted and
  unexpired, the session was cooling down, its cooldown was over and it had not expired, all at
  a time not behind the recorded clock; or it stopped a live session with a veto or a
  cancellation, and then the row has no new contribution.
\<close>
theorem release_needs_policy:
  assumes "store_inv d" "load_session d i = Some s"
  shows "load_session (fst (handle x t e body now d)) i = Some s
    \<or> (\<exists>row con. db_high_water d \<le> now
        \<and> session_enrollment d s = Inr row
        \<and> erow_status row = Accepted \<and> now < enr_expires_at (erow_enrollment row)
        \<and> srow_cooldown_ends_at s \<le> now \<and> now < srow_expires_at s
        \<and> srow_status s = CoolingDown
        \<and> load_session (fst (handle x t e body now d)) i =
            Some (s\<lparr>srow_status := Released, srow_contribution := Some con\<rparr>))
    \<or> (session_live (srow_status s) \<and> now < srow_expires_at s
        \<and> load_session (fst (handle x t e body now d)) i
            \<in> {Some (s\<lparr>srow_status := Vetoed\<rparr>), Some (s\<lparr>srow_status := Cancelled\<rparr>)})"
proof -
  obtain s' where "load_session (fst (handle x t e body now d)) i = Some s'"
    using handle_session [OF assms] by blast
  then show ?thesis
    using session_change [OF handle_steps assms] by auto
qed

theorem release_needs_policy_witness:
  "\<exists>s'. load_session (fst (handle crates example_trustee example_entropy [] 400 example_db)) ''cooling'' = Some s'
     \<and> srow_session_id s' = ''cooling''"
  using release_needs_policy [OF example_inv example_load(1), of crates example_trustee example_entropy "[]" 400]
  by (auto simp: example_session_def)

text \<open>A vetoed, cancelled, refused or expired session is final; a released contribution is stored once.\<close>

lemma final_sessions_stay:
  assumes "store_inv d" "load_session d i = Some s" "session_final (db_high_water d) s"
  shows "load_session (serve x t events d) i = Some s"
  using kept_session [OF assms(1,2)] assms(3) unfolding session_evolves_def by metis

lemma contribution_immutable:
  assumes "store_inv d" "load_session d i = Some s" "srow_contribution s = Some con"
  shows "map_option srow_contribution (load_session (serve x t events d) i) = Some (Some con)"
  using kept_session [OF assms(1,2), of x t events] assms(3) unfolding session_evolves_def by auto

text \<open>
  C19: A session only moves forward: whatever requests follow, its row is still there, its status only
  advances (cooling down, released, vetoed or cancelled); once it is vetoed, cancelled, refused or
  expired the row never changes again, so that no contribution is ever stored for it; and a
  contribution once stored stays the same bytes.
\<close>
theorem sessions_move_forward:
  assumes "store_inv d" "load_session d i = Some s"
  shows "\<exists>s'. load_session (serve x t events d) i = Some s'
    \<and> status_leads (srow_status s) (srow_status s')
    \<and> (session_final (db_high_water d) s \<longrightarrow> s' = s)
    \<and> (srow_contribution s \<noteq> None \<longrightarrow> srow_contribution s' = srow_contribution s)"
  using kept_session [OF assms, of x t events] unfolding session_evolves_def by blast

theorem sessions_move_forward_witness:
  "load_session (serve crates example_trustee [Request example_entropy [] 400] example_db) ''vetoed''
      = Some (example_session ''vetoed'' Vetoed None)
    \<and> map_option srow_contribution
        (load_session (serve crates example_trustee [Request example_entropy [] 400] example_db) ''released'') = Some (Some [5])"
  using sessions_move_forward [OF example_inv example_load(3), of crates example_trustee "[Request example_entropy [] 400]"]
    sessions_move_forward [OF example_inv example_load(2), of crates example_trustee "[Request example_entropy [] 400]"]
  by (auto simp: session_final_def session_live_def example_session_def simp del: serve.simps)

section \<open>Ended enrollments\<close>

lemma kept_enrollment:
  assumes "store_inv d" "at_key enrollment_key (db_enrollments d) k = Some r"
  shows "\<exists>r'. at_key enrollment_key (db_enrollments (serve x t events d)) k = Some r'
    \<and> enrollment_evolves r r'"
proof -
  have "rows_lead enrollment_evolves (at_key enrollment_key (db_enrollments d))
      (at_key enrollment_key (db_enrollments (serve x t events d)))"
    using serve_evolves [OF assms(1)] by (simp add: evolves_def)
  from rows_leadD [OF this assms(2)] show ?thesis .
qed

lemma ended_custody:
  "enrollment_ok r \<Longrightarrow> ended (erow_status r) \<Longrightarrow>
     erow_sealed_envelope r = None \<and> erow_protected_artifact r = None"
  by (auto simp: enrollment_ok_def ended_def)

text \<open>
  Revocation and closing are final: whatever requests follow, the enrollment's row stays a
  tombstone with the same bindings and no custody, and the release predicate refuses every
  session of it with the code for a revoked enrollment, unless the clock went backwards.
\<close>
lemma ended_enrollments_stay:
  assumes "store_inv d" "at_key enrollment_key (db_enrollments d) k = Some r" "ended (erow_status r)"
  shows "\<exists>r'. at_key enrollment_key (db_enrollments (serve x t events d)) k = Some r'
    \<and> erow_enrollment r' = erow_enrollment r
    \<and> ended (erow_status r')
    \<and> erow_sealed_envelope r' = None \<and> erow_protected_artifact r' = None
    \<and> release (erow_state r') s now clock_floor
        = Inl (if now < clock_floor then TemporarilyUnavailable else EnrollmentRevoked)"
proof -
  obtain r' where r': "at_key enrollment_key (db_enrollments (serve x t events d)) k = Some r'"
    "enrollment_evolves r r'"
    using kept_enrollment [OF assms(1,2)] by blast
  have "enrollment_ok r'"
    using serve_inv [OF assms(1), of x t events] r'(1)
    by (auto simp: store_inv_def enrollments_ok_def dest: at_key_Some)
  moreover have st: "ended (erow_status r')"
    using r'(2) assms(3) by (simp add: enrollment_evolves_def)
  moreover have "erow_enrollment r' = erow_enrollment r"
    using r'(2) by (cases r; cases r') (simp add: enrollment_evolves_def)
  moreover have "release (erow_state r') s now clock_floor
        = Inl (if now < clock_floor then TemporarilyUnavailable else EnrollmentRevoked)"
    using st by (auto simp: release_def usable_def erow_state_def ended_def)
  ultimately show ?thesis
    using r'(1) ended_custody by blast
qed

definition revoked_db :: db where
  "revoked_db = example_db\<lparr>db_enrollments := [example_row\<lparr>erow_status := Revoked,
     erow_sealed_envelope := None, erow_protected_artifact := None\<rparr>]\<rparr>"

lemma revoked_inv: "store_inv revoked_db"
proof -
  have "keys_ok revoked_db" "nonces_ok revoked_db" "budget_ok revoked_db"
    using example_inv
    by (simp_all add: revoked_db_def store_inv_def keys_ok_def example_db_def nonces_ok_def
        budget_ok_def open_count_def example_row_def)
  moreover have "outcomes_ok revoked_db"
    using example_inv by (simp add: revoked_db_def store_inv_def outcomes_ok_def load_session_def)
  moreover have "enrollments_ok revoked_db" "sessions_ok revoked_db" "attempts_ok revoked_db"
    "grants_ok revoked_db"
    by (simp_all add: revoked_db_def enrollments_ok_def enrollment_ok_def sessions_ok_def
        session_ok_def attempts_ok_def session_key_def enrollment_key_def example_db_def
        example_row_def example_session_def example_enrollment_def example_context_def grants_ok_def
        granted_def at_key_def select_row_def)
  ultimately show ?thesis
    by (simp add: store_inv_def)
qed

lemma ended_enrollments_stay_example:
  "\<exists>r'. at_key enrollment_key
      (db_enrollments (serve crates example_trustee [Request example_entropy [] 400] revoked_db))
      (''e1'', 1) = Some r' \<and> erow_sealed_envelope r' = None"
proof -
  have "at_key enrollment_key (db_enrollments revoked_db) (''e1'', 1) = Some (hd (db_enrollments revoked_db))"
    by (simp add: at_key_def select_row_def enrollment_key_def revoked_db_def example_row_def)
  moreover have "ended (erow_status (hd (db_enrollments revoked_db)))"
    by (simp add: ended_def revoked_db_def)
  ultimately show ?thesis
    using ended_enrollments_stay [OF revoked_inv, of _ _ crates example_trustee
        "[Request example_entropy [] 400]"] by blast
qed

section \<open>Identical retries\<close>

lemma receipt_fields_cong:
  "srow_session_id s' = srow_session_id s \<Longrightarrow> srow_expires_at s' = srow_expires_at s \<Longrightarrow>
     srow_cooldown_ends_at s' = srow_cooldown_ends_at s \<Longrightarrow>
     srow_destination_keys_digest s' = srow_destination_keys_digest s \<Longrightarrow>
     session_receipt_fields x t s' en op = session_receipt_fields x t s en op"
  by (simp add: session_receipt_fields_def)

lemma evolved_row:
  "session_evolves h s s' \<Longrightarrow> srow_session_id s' = srow_session_id s
     \<and> srow_enrollment_id s' = srow_enrollment_id s \<and> srow_sequence s' = srow_sequence s
     \<and> srow_request s' = srow_request s \<and> srow_expires_at s' = srow_expires_at s
     \<and> srow_cooldown_ends_at s' = srow_cooldown_ends_at s \<and> srow_created_at s' = srow_created_at s
     \<and> srow_remaining_attempts s' = srow_remaining_attempts s
     \<and> srow_destination_keys_digest s' = srow_destination_keys_digest s
     \<and> (srow_status s' = Refused \<longleftrightarrow> srow_status s = Refused)"
  by (cases s; cases s') (auto simp: session_evolves_def status_leads_def)

lemma evolved_enrollment:
  assumes "store_inv d" "s \<in> set (db_sessions d)"
  shows "\<exists>row row'. session_enrollment d s = Inr row
    \<and> load_enrollment (serve x t events d) (srow_enrollment_id s) (srow_sequence s) = Inr row'
    \<and> erow_enrollment row' = erow_enrollment row"
proof -
  have "session_key s \<in> enrollment_key ` set (db_enrollments d)"
    using assms by (simp add: store_inv_def sessions_ok_def)
  then obtain row where row: "at_key enrollment_key (db_enrollments d) (session_key s) = Some row"
    using at_key_None by (metis not_None_eq)
  then obtain row' where row': "at_key enrollment_key (db_enrollments (serve x t events d))
      (session_key s) = Some row'" "enrollment_evolves row row'"
    using kept_enrollment [OF assms(1)] by blast
  have "erow_enrollment row' = erow_enrollment row"
    using row'(2) by (cases row; cases row') (simp add: enrollment_evolves_def)
  then show ?thesis
    using row row'(1) by (auto simp: session_enrollment_def load_enrollment_def session_key_def)
qed

text \<open>
  A retried \<open>begin-recovery\<close> gets the recorded answer: the receipt of a session is built
  from what its row never changes, so whatever happens to the session in between, the same
  bytes come back.
\<close>
lemma begin_receipt_stable:
  assumes "store_inv d" "load_session d i = Some s"
  shows "session_receipt x t (serve x t events d) i = session_receipt x t d i"
proof -
  obtain s' where s': "load_session (serve x t events d) i = Some s'"
    "session_evolves (db_high_water d) s s'"
    using kept_session [OF assms] by blast
  note same = evolved_row [OF s'(2)]
  have "s \<in> set (db_sessions d)"
    using assms(2) load_session_in by blast
  then obtain row row' where "session_enrollment d s = Inr row"
    "session_enrollment (serve x t events d) s' = Inr row'"
    "erow_enrollment row' = erow_enrollment row"
    using evolved_enrollment [OF assms(1)] same by (metis session_enrollment_def)
  moreover have "session_receipt_fields x t s' en op = session_receipt_fields x t s en op" for en op
    using same by (intro receipt_fields_cong) simp_all
  ultimately show ?thesis
    unfolding session_receipt_def using s'(1) assms(2) same
    by (cases "srow_status s = Refused") simp_all
qed

lemma kept_outcome:
  assumes "store_inv d" "at_key outcome_key (db_outcomes d) k = Some oc"
  shows "at_key outcome_key (db_outcomes (serve x t events d)) k = Some oc"
proof -
  have "rows_lead (\<lambda>oc oc'. oc' = oc) (at_key outcome_key (db_outcomes d))
      (at_key outcome_key (db_outcomes (serve x t events d)))"
    using serve_evolves [OF assms(1)] by (simp add: evolves_def)
  from rows_leadD [OF this assms(2)] show ?thesis
    by simp
qed

text \<open>
  A retried cancellation or veto gets the recorded answer, however late: a session with a recorded
  outcome is final, so its row stays and the receipt rebuilt from it has the same bytes.
\<close>
lemma stopped_session_kept:
  assumes "store_inv d" "at_key outcome_key (db_outcomes d) (scope_key (Scope_Session i), q) = Some oc"
  shows "\<exists>s. load_session d i = Some s \<and> load_session (serve x t events d) i = Some s"
proof -
  have "oc \<in> set (db_outcomes d)" "or_scope oc = scope_key (Scope_Session i)"
    using at_key_Some [OF assms(2)] by (auto simp: outcome_key_def)
  then obtain s where s: "load_session d i = Some s" "session_final (db_high_water d) s"
    using assms(1) unfolding store_inv_def outcomes_ok_def by blast
  moreover have "load_session (serve x t events d) i = Some s"
    using kept_session [OF assms(1) s(1)] s(2) unfolding session_evolves_def by metis
  ultimately show ?thesis
    by blast
qed

lemma cancel_receipt_stable:
  assumes "store_inv d" "at_key outcome_key (db_outcomes d) (scope_key (Scope_Session i), q) = Some oc"
  shows "outcome_receipt x t (serve x t events d) (Scope_Session i) q
    = outcome_receipt x t d (Scope_Session i) q"
proof -
  obtain s where s: "load_session d i = Some s" "load_session (serve x t events d) i = Some s"
    using stopped_session_kept [OF assms] by blast
  have "s \<in> set (db_sessions d)"
    using s(1) load_session_in by blast
  then obtain row row' where "session_enrollment d s = Inr row"
    "session_enrollment (serve x t events d) s = Inr row'"
    "erow_enrollment row' = erow_enrollment row"
    using evolved_enrollment [OF assms(1)] by (metis session_enrollment_def)
  then show ?thesis
    unfolding outcome_receipt_def using kept_outcome [OF assms] assms(2) s by simp
qed

end
