(* ===== verification/Documents.thy ===== *)
theory Documents
  imports Requests
begin

text \<open>
  Documents of \<open>src/wire.rs\<close>: which parsed values have canonical bytes that parse back, which
  values the decoders can take, and what a signed object gives its reader.
\<close>

section \<open>Parsed values\<close>

fun no_float :: "json \<Rightarrow> bool" where
  "no_float (JF64 f) \<longleftrightarrow> False"
| "no_float (JArray vs) \<longleftrightarrow> list_all no_float vs"
| "no_float (JObject kvs) \<longleftrightarrow> list_all (\<lambda>(k, v). no_float v) kvs"
| "no_float v \<longleftrightarrow> True"

lemma depth_max: "foldr max ns 0 \<le> (n :: nat) \<longleftrightarrow> (\<forall>m\<in>set ns. m \<le> n)"
  by (induction ns) auto

lemma depth_array: "json_depth (JArray vs) \<le> n \<longleftrightarrow> 0 < n \<and> (\<forall>v\<in>set vs. json_depth v \<le> n - 1)"
  by (cases n) (auto simp: depth_max)

lemma depth_object:
  "json_depth (JObject kvs) \<le> n \<longleftrightarrow> 0 < n \<and> (\<forall>(k, v)\<in>set kvs. json_depth v \<le> n - 1)"
  by (cases n) (auto simp: depth_max)

lemmas depth_iff = depth_array depth_object

lemma readable_to_value: "readable t \<Longrightarrow> readable (to_value t)"
  by (induction t) (fastforce simp: list_all_iff snds.simps dest: btree_of_values)+

lemma depth_to_value: "json_depth t \<le> n \<Longrightarrow> json_depth (to_value t) \<le> n"
proof (induction t arbitrary: n)
  case (JObject kvs)
  then show ?case
    by (fastforce simp: depth_iff snds.simps simp del: json_depth.simps dest: btree_of_values)
qed (auto simp: depth_iff simp del: json_depth.simps(1,2))

lemma plain_iff: "plain_value v \<longleftrightarrow> readable v \<and> ordered_value v \<and> no_float v"
proof (induction v)
  case (JObject kvs)
  then show ?case
    by (fastforce simp: list_all_iff ordered_def snds.simps)
qed (auto simp: list_all_iff)

lemma parse_depth: "json_laws x \<Longrightarrow> parse x raw = Some v \<Longrightarrow> json_depth v \<le> 127"
  by (auto simp: parse_iff json_laws_def intro: depth_to_value)

lemma parse_plain: "json_laws x \<Longrightarrow> parse x raw = Some v \<Longrightarrow> no_float v \<Longrightarrow> plain_value v"
  by (auto simp: parse_iff json_laws_def plain_iff readable_to_value to_value_ordered)

text \<open>What was parsed without a float has canonical bytes that parse to the same value.\<close>

lemma parse_again:
  "json_laws x \<Longrightarrow> parse x raw = Some v \<Longrightarrow> no_float v \<Longrightarrow> parse x (canonical x v) = Some v"
  using parse_canonical parse_plain parse_depth parse_object by blast

section \<open>What the decoders take has no float\<close>

lemma struct_no_float:
  assumes "ordered_value v" "struct_fields names v = Some fs" "list_all no_float fs"
  shows "no_float v"
proof (cases v)
  case (JObject kvs)
  have "no_float w" if kw: "(k, w) \<in> set kvs" for k w
  proof -
    have "map_of kvs k = Some w"
      using assms(1) kw by (simp add: JObject ordered_distinct)
    moreover have "k \<in> set names" "map (map_of kvs) names = map Some fs"
      using assms(2) kw unfolding JObject struct_fields_object by force+
    ultimately have "Some w \<in> set (map Some fs)"
      by (metis image_eqI list.set_map)
    then show ?thesis
      using assms(3) by (auto simp: list_all_iff)
  qed
  then show ?thesis
    by (auto simp: JObject list_all_iff)
next
  case (JArray vs)
  then show ?thesis
    using assms(2,3) by (simp split: if_splits)
qed (use assms(2) in auto)

lemma no_float_text [simp]: "as_str v = Some s \<Longrightarrow> no_float v" "as_u64 v = Some n \<Longrightarrow> no_float v"
  by auto

lemma struct_members:
  assumes "ordered_value v" "struct_fields names v = Some fs" "i < length fs"
  shows "ordered_value (fs ! i)"
proof (cases v)
  case (JObject kvs)
  then have "map (map_of kvs) names = map Some fs"
    using assms(2) by (simp add: those_iff split: if_splits)
  then have "map_of kvs (names ! i) = Some (fs ! i)"
    using assms(3) by (metis length_map nth_map)
  then show ?thesis
    using assms(1) by (auto simp: JObject dest: map_of_SomeD)
next
  case (JArray vs)
  then show ?thesis
    using assms by (auto split: if_splits)
qed (use assms(2) in auto)

lemma vec_no_float:
  assumes "as_vec f v = Some xs" "ordered_value v" "\<And>w y. ordered_value w \<Longrightarrow> f w = Some y \<Longrightarrow> no_float w"
  shows "no_float v"
proof (cases v)
  case (JArray vs)
  then have "map f vs = map Some xs"
    using assms(1) by (simp add: those_iff)
  then have "\<forall>w\<in>set vs. \<exists>y. f w = Some y"
    by (metis (no_types, lifting) image_iff list.set_map)
  then show ?thesis
    using assms(2,3) JArray by (auto simp: list_all_iff)
qed (use assms(1) in auto)

lemma texts_no_float: "as_vec as_str v = Some xs \<Longrightarrow> ordered_value v \<Longrightarrow> no_float v"
  by (rule vec_no_float) auto

lemma nth_all: "length fs = n \<Longrightarrow> (\<And>i. i < n \<Longrightarrow> P (fs ! i)) \<Longrightarrow> list_all P fs"
  by (simp add: list_all_length)

text \<open>The members of a structure are numbers below the length of its field list.\<close>

lemmas field_cases = less_Suc_eq numeral_eq_Suc

lemma destination_no_float:
  assumes "destination_of_json v = Some e" "ordered_value v"
  shows "no_float v"
proof -
  obtain fs where "struct_fields [''encryptionSuite'', ''encryptionPublicKey'', ''proofSuite'',
      ''proofPublicKey''] v = Some fs" "list_all no_float fs"
    using assms(1) struct_fields_length
    by (fastforce simp: destination_of_json_def bind_eq_Some_conv field_cases intro!: nth_all)
  then show ?thesis
    using struct_no_float assms(2) by blast
qed

lemma evidence_no_float:
  assumes "evidence_of_json v = Some e" "ordered_value v"
  shows "no_float v"
proof -
  obtain fs where "struct_fields [''factor'', ''signature''] v = Some fs" "list_all no_float fs"
    using assms(1) struct_fields_length
    by (fastforce simp: evidence_of_json_def bind_eq_Some_conv field_cases intro!: nth_all)
  then show ?thesis
    using struct_no_float assms(2) by blast
qed

lemma policy_no_float:
  assumes "policy_of_json v = Some e" "ordered_value v"
  shows "no_float v"
proof -
  obtain fs where fs: "struct_fields policy_names v = Some fs" "as_vec as_str (fs ! 0) \<noteq> None"
    "as_vec as_str (fs ! 4) \<noteq> None" "\<forall>i\<in>{1, 2, 3, 5, 6}. no_float (fs ! i)"
    using assms(1) by (fastforce simp: policy_of_json_def bind_eq_Some_conv)
  have len: "length fs = 7"
    using struct_fields_length [OF fs(1)] by (simp add: policy_names_def)
  have "no_float (fs ! 0)" "no_float (fs ! 4)"
    using fs(2,3) struct_members [OF assms(2) fs(1)] len texts_no_float by fastforce+
  then have "list_all no_float fs"
    using fs(4) len by (intro nth_all) (auto simp: field_cases)
  then show ?thesis
    using struct_no_float [OF assms(2) fs(1)] by blast
qed

lemma envelope_no_float:
  assumes "envelope_of_json v = Some e" "ordered_value v"
  shows "no_float v"
proof -
  obtain fs where fs: "struct_fields envelope_fields v = Some fs"
    using assms(1) by (auto simp: envelope_of_json_def bind_eq_Some_conv)
  have sub: "policy_of_json (fs ! 15) \<noteq> None"
    using assms(1) fs by (auto simp: envelope_of_json_def bind_eq_Some_conv)
  have rest: "list_all (\<lambda>i. no_float (fs ! i))
      [0, 1, 2, 3, 4, 5, 6, 7, 8, 9, 10, 11, 12, 13, 14, 16, 17, 18, 19]"
    using assms(1) fs by (auto simp: envelope_of_json_def bind_eq_Some_conv)
  have len: "length fs = 20"
    using struct_fields_length [OF fs] by (simp add: envelope_fields_def)
  have "no_float (fs ! 15)"
    using sub struct_members [OF assms(2) fs, of 15] len policy_no_float by fastforce
  then have "list_all no_float fs"
    using rest len by (intro nth_all) (auto simp: field_cases)
  then show ?thesis
    using struct_no_float [OF assms(2) fs] by blast
qed

lemma core_no_float:
  assumes "core_of_json v = Some e" "ordered_value v"
  shows "no_float v"
proof -
  obtain fs where fs: "struct_fields core_fields v = Some fs"
    using assms(1) by (auto simp: core_of_json_def bind_eq_Some_conv)
  have sub: "destination_of_json (fs ! 7) \<noteq> None"
    using assms(1) fs by (auto simp: core_of_json_def bind_eq_Some_conv)
  have rest: "list_all (\<lambda>i. no_float (fs ! i))
      [0, 1, 2, 3, 4, 5, 6, 8, 9]"
    using assms(1) fs by (auto simp: core_of_json_def bind_eq_Some_conv)
  have len: "length fs = 10"
    using struct_fields_length [OF fs] by (simp add: core_fields_def)
  have "no_float (fs ! 7)"
    using sub struct_members [OF assms(2) fs, of 7] len destination_no_float by fastforce
  then have "list_all no_float fs"
    using rest len by (intro nth_all) (auto simp: field_cases)
  then show ?thesis
    using struct_no_float [OF assms(2) fs] by blast
qed

lemma request_no_float: "signed_request_of_json v = Some r \<Longrightarrow> ordered_value v \<Longrightarrow> no_float v"
proof (induction v rule: signed_request_of_json.induct)
  case (1 kvs)
  have "no_float w" if "(k, w) \<in> set kvs" for k w
  proof -
    have "map_of kvs k = Some w" "k \<in> set signed_fields"
      using 1 that by (auto simp: ordered_distinct list_all_iff split: if_splits)
    then show ?thesis
      using 1(1) by (auto simp: signed_fields_def required_def present_def bind_eq_Some_conv
          split: if_splits option.splits)
  qed
  then show ?case
    by (auto simp: list_all_iff)
qed auto

text \<open>Taking a member and putting it back.\<close>

lemma take_field_ordered:
  "take_field k v = Some (w, rest) \<Longrightarrow> ordered_value v \<Longrightarrow> ordered_value w \<and> ordered_value rest"
  by (cases v)
    (use btree_remove_ordered in \<open>auto simp: btree_remove_def dest: map_of_SomeD split: option.splits\<close>)

lemma take_field_no_float:
  assumes "take_field k v = Some (w, rest)" "ordered_value v" "no_float w" "no_float rest"
  shows "no_float v"
proof -
  obtain kvs where v: "v = JObject kvs" "map_of kvs k = Some w" "rest = JObject (btree_remove k kvs)"
    using assms(1) by (cases v) (auto split: option.splits)
  have "(l, u) \<in> set kvs \<Longrightarrow> l = k \<and> u = w \<or> (l, u) \<in> set (btree_remove k kvs)" for l u
    using assms(2) v ordered_distinct [of kvs] map_of_is_SomeI [of kvs l u]
    by (cases "l = k") (auto simp: btree_remove_def)
  then show ?thesis
    using assms(3,4) v by (fastforce simp: list_all_iff)
qed

lemma take_string_field: "take_string k v = Some (t, rest) \<longleftrightarrow> take_field k v = Some (JString t, rest)"
  by (auto simp: take_string_def split: option.splits json.splits)

section \<open>Signed objects\<close>

lemma btree_insert_set: "set (btree_insert k v kvs) \<subseteq> insert (k, v) (set kvs)"
  by (induction k v kvs rule: btree_insert.induct) auto

lemma btree_insert_remove:
  assumes "ordered kvs" "map_of kvs k = None"
  shows "btree_remove k (btree_insert k v kvs) = kvs"
  using assms
  by (intro ordered_eq)
    (auto simp: btree_remove_ordered btree_insert_ordered map_of_btree_remove btree_insert_map_of)

text \<open>An object that can carry a signature as its member \<open>k\<close>.\<close>

definition signable :: "string \<Rightarrow> json \<Rightarrow> bool" where
  "signable k v \<longleftrightarrow> plain_value v \<and> json_depth v \<le> 127 \<and> is_object v \<and> take_field k v = None"

lemma signable_iff:
  "signable k v \<longleftrightarrow> (\<exists>kvs. v = JObject kvs \<and> plain_value v \<and> json_depth v \<le> 127 \<and> map_of kvs k = None)"
  by (auto simp: signable_def is_object_iff split: option.splits)

lemma set_field_plain:
  assumes "plain_value (JObject kvs)" "json_depth (JObject kvs) \<le> n" "utf8_valid k"
    and "plain_value w" "json_depth w < n"
  shows "plain_value (set_field k w (JObject kvs))" "json_depth (set_field k w (JObject kvs)) \<le> n"
proof -
  have in_set: "p \<in> insert (k, w) (set kvs)" if "p \<in> set (btree_insert k w kvs)" for p
    using btree_insert_set that by fast
  have "sorted_wrt (<) (map fst (btree_insert k w kvs))"
    using assms(1) btree_insert_ordered [of kvs k w] by (simp add: ordered_def)
  moreover have "\<forall>(k, v)\<in>set (btree_insert k w kvs). utf8_valid k \<and> plain_value v"
    using in_set assms by fastforce
  ultimately show "plain_value (set_field k w (JObject kvs))"
    by simp
  have "\<forall>(k, v)\<in>set (btree_insert k w kvs). json_depth v \<le> n - 1"
    using in_set assms(2,5) unfolding depth_object by fastforce
  then show "json_depth (set_field k w (JObject kvs)) \<le> n"
    using assms(2) by (simp only: set_field.simps depth_object)
qed

lemma signable_ordered: "signable k v \<Longrightarrow> ordered_value v"
  by (simp add: signable_def plain_ordered)

lemma member_added:
  assumes "signable k v" "utf8_valid k" "plain_value w" "json_depth w < 127"
  shows "plain_value (set_field k w v)" "json_depth (set_field k w v) \<le> 127" "is_object (set_field k w v)"
proof -
  obtain kvs where v: "v = JObject kvs" "plain_value v" "json_depth v \<le> 127"
    using assms(1) by (auto simp: signable_iff)
  show "plain_value (set_field k w v)" "json_depth (set_field k w v) \<le> 127"
    using set_field_plain v assms(2-) unfolding v(1) by blast+
  show "is_object (set_field k w v)"
    by (simp add: v(1))
qed

lemma member_added_parses:
  assumes "json_laws x" "signable k v" "utf8_valid k" "plain_value w" "json_depth w < 127"
  shows "parse x (canonical x (set_field k w v)) = Some (set_field k w v)"
  by (rule parse_canonical [OF assms(1)]; rule member_added [OF assms(2-)])

lemma field_added_taken:
  assumes "signable k v"
  shows "take_field k (set_field k w v) = Some (w, v)"
proof -
  obtain kvs where v: "v = JObject kvs" "ordered kvs" "map_of kvs k = None"
    using assms signable_ordered by (fastforce simp: signable_iff)
  then show ?thesis
    by (simp add: btree_insert_map_of btree_insert_remove)
qed

lemma member_added_taken: "signable k v \<Longrightarrow> take_string k (set_field k (JString t) v) = Some (t, v)"
  by (simp add: take_string_field field_added_taken)

lemma member_added_signable:
  assumes "signable k v" "signable l v" "l \<noteq> k" "utf8_valid k" "plain_value w" "json_depth w < 127"
  shows "signable l (set_field k w v)"
proof -
  obtain kvs where v: "v = JObject kvs" "ordered kvs" "map_of kvs l = None"
    using assms(2) signable_ordered by (fastforce simp: signable_iff)
  then have "take_field l (set_field k w v) = None"
    using assms(3) by (simp add: btree_insert_map_of)
  then show ?thesis
    using member_added [OF assms(1,4-)] by (simp add: signable_def)
qed

lemma base64_text: "base64_laws x \<Longrightarrow> utf8_valid (base64_encode x b)"
  by (simp add: base64_laws_def ascii_utf8)

lemma signed_object_parses:
  assumes "json_laws x" "base64_laws x" "signable ''signature'' v"
  shows "parse x (sign_object x v key)
    = Some (set_field ''signature'' (JString (base64_encode x (sign x key (canonical x v)))) v)"
  unfolding sign_object_def Let_def
  using base64_text [OF assms(2)]
  by (intro member_added_parses [OF assms(1,3)]) (simp_all add: ascii_utf8 in_bytes_def)

end
