(* ===== verification/Clients.thy ===== *)
theory Clients
  imports Documents
begin

text \<open>
  The writing side, for statements about honest clients: the requests and the share envelope a
  client builds, and what the decoders of \<open>src/wire.rs\<close> read from them.
\<close>

section \<open>The requests a client signs\<close>

text \<open>The object of a \<open>SignedRequest\<close>, absent members left out, and the body that carries it.\<close>

definition request_json :: "signed_request \<Rightarrow> json" where
  "request_json r = json_object (
     [(''requestVersion'', JU64 (sr_request_version r)),
      (''operation'', JString (sr_operation r)),
      (''requestId'', JString (sr_request_id r)),
      (''componentId'', JString (sr_component_id r)),
      (''issuedAt'', JString (sr_issued_at r))]
     @ member ''enrollmentId'' JString (sr_enrollment_id r)
     @ member ''sessionId'' JString (sr_session_id r)
     @ member ''by'' JString (sr_by r))"

definition client_request :: "extern \<Rightarrow> bytes \<Rightarrow> signed_request \<Rightarrow> bytes" where
  "client_request x key r = sign_object x (request_json r) key"

definition client_value :: "extern \<Rightarrow> bytes \<Rightarrow> signed_request \<Rightarrow> json" where
  "client_value x key r = set_field ''signature''
     (JString (base64_encode x (sign x key (canonical x (request_json r))))) (request_json r)"

lemma member_cases: "member k f a = (case a of None \<Rightarrow> [] | Some v \<Rightarrow> [(k, f v)])"
  by (cases a) auto

lemma request_of_json: "signed_request_of_json (request_json r) = Some r"
proof -
  have "list_all (\<lambda>(k, v). k \<in> set signed_fields) (btree_of kvs)"
    if "list_all (\<lambda>(k, v). k \<in> set signed_fields) kvs" for kvs :: "(string \<times> json) list"
    using that btree_of_values by (fastforce simp: list_all_iff)
  then show ?thesis
    by (cases r) (auto simp: request_json_def json_object_def member_cases map_of_btree_of
        required_def present_def signed_fields_def split: option.splits)
qed

definition member_texts :: "string option \<Rightarrow> string list" where
  "member_texts t = (case t of None \<Rightarrow> [] | Some s \<Rightarrow> [s])"

definition request_text :: "signed_request \<Rightarrow> bool" where
  "request_text r \<longleftrightarrow>
     list_all utf8_valid
       ([sr_operation r, sr_request_id r, sr_component_id r, sr_issued_at r]
        @ member_texts (sr_enrollment_id r) @ member_texts (sr_session_id r) @ member_texts (sr_by r))"

lemma plain_json_object:
  assumes "list_all (\<lambda>(k, v). utf8_valid k \<and> plain_value v \<and> json_depth v = 0) kvs"
  shows "plain_value (json_object kvs)" "json_depth (json_object kvs) \<le> 127"
proof -
  have "(k, v) \<in> set (btree_of kvs) \<Longrightarrow> utf8_valid k \<and> plain_value v \<and> json_depth v = 0" for k v
    using assms btree_of_values by (fastforce simp: list_all_iff)
  moreover have "sorted_wrt (<) (map fst (btree_of kvs))"
    using btree_of_ordered unfolding ordered_def .
  ultimately show "plain_value (json_object kvs)" "json_depth (json_object kvs) \<le> 127"
    by (auto simp: json_object_def depth_object simp del: json_depth.simps)
qed

lemma signed_fields_text: "list_all utf8_valid signed_fields"
proof -
  have "list_all ascii signed_fields"
    by (simp add: signed_fields_def in_bytes_def)
  then show ?thesis
    by (auto simp: list_all_iff ascii_utf8)
qed

lemma request_signable: "request_text r \<Longrightarrow> signable ''signature'' (request_json r)"
proof -
  assume req: "request_text r"
  have "plain_value (request_json r)" "json_depth (request_json r) \<le> 127"
    unfolding request_json_def using req
    by (intro plain_json_object;
        use signed_fields_text in \<open>auto simp: request_text_def member_texts_def member_cases
          signed_fields_def split: option.splits\<close>)+
  moreover obtain kvs where "request_json r = JObject kvs" "map_of kvs ''signature'' = None"
    by (simp add: request_json_def json_object_def map_of_btree_of member_cases split: option.splits)
  ultimately show ?thesis
    unfolding signable_iff by blast
qed

lemma client_request_parses:
  "json_laws x \<Longrightarrow> base64_laws x \<Longrightarrow> request_text r \<Longrightarrow>
     parse x (client_request x key r) = Some (client_value x key r)"
  by (simp add: client_request_def client_value_def signed_object_parses request_signable)

lemma client_value_operation: "index_field (client_value x key r) ''operation'' = JString (sr_operation r)"
  by (simp add: client_value_def request_json_def json_object_def btree_insert_map_of
      map_of_btree_of member_cases split: option.splits)

lemma client_value_signed:
  assumes "base64_laws x" "ed25519_laws x" "request_text r"
    and "sr_request_version r = 1" "signed_target r = Some target"
    and "hex32 x (sr_request_id r) \<noteq> None" "hex32 x target \<noteq> None"
    and "timestamp x (sr_issued_at r) = Some issued_at"
  shows "signed_parse x (client_value x key r) (sr_component_id r) = Some
    \<lparr>sg_operation = sr_operation r, sg_request_id = sr_request_id r, sg_target = target,
     sg_by = sr_by r, sg_issued_at = issued_at, sg_message = canonical x (request_json r),
     sg_signature = sign x key (canonical x (request_json r)),
     sg_digest = digest x (canonical x (client_value x key r))\<rparr>"
proof -
  have "signature x (base64_encode x (sign x key m)) = Some (sign x key m)" for m
    using assms(1,2) by (simp add: signature_iff sign_length)
  moreover have "take_string ''signature'' (client_value x key r)
      = Some (base64_encode x (sign x key (canonical x (request_json r))), request_json r)"
    unfolding client_value_def by (rule member_added_taken [OF request_signable [OF assms(3)]])
  ultimately show ?thesis
    using assms(4-) by (simp add: signed_parse_def request_of_json Let_def)
qed

section \<open>The objects a client writes\<close>

lemma struct_written:
  assumes "distinct names" "length vs = length names"
  shows "struct_fields names (json_object (zip names vs)) = Some vs"
proof -
  have "fst ` set (btree_of (zip names vs)) \<subseteq> set names"
    using btree_of_values by (fastforce dest: set_zip_leftD)
  moreover have "map_of (btree_of (zip names vs)) = map_of (zip names vs)"
    using assms by (intro map_of_btree_of_distinct) simp
  then have "map (map_of (btree_of (zip names vs))) names = map Some vs"
    using assms map_of_zip_nth [of names vs] by (intro nth_equalityI) simp_all
  ultimately show ?thesis
    unfolding json_object_def struct_fields_object by blast
qed

definition policy_json :: "policy_fields \<Rightarrow> json" where
  "policy_json p = json_object (zip policy_names
     [JArray (map JString (pf_candidate_factors p)), JString (pf_cooldown p),
      JString (pf_session_lifetime p), JU64 (pf_maximum_attempts p),
      JArray (map JString (pf_notifications p)), JString (pf_holder_veto p),
      JString (pf_lapse_policy p)])"

definition envelope_json :: "share_envelope \<Rightarrow> json" where
  "envelope_json e = json_object (zip envelope_fields
     [JU64 (env_version e), JString (env_implementation_profile_id e), JString (env_enrollment_id e),
      JU64 (env_enrollment_sequence e), JString (env_policy_digest e),
      JString (env_identity_binding_commitment e), JString (env_artifact_digest e),
      JString (env_artifact_id e), JString (env_recovery_mode e),
      JString (env_trustee_component_id e), JString (env_slot e), JString (env_trustee_challenge e),
      JU64 (env_member_index e), JU64 (env_member_threshold e), JU64 (env_member_count e),
      policy_json (env_trustee_policy e), JString (env_slip39_share e), JString (env_created_at e),
      JString (env_expires_at e), JString (env_authorization_public_key e)])"

lemma those_Some [simp]: "those (map (Some \<circ> f) xs) = Some (map f xs)"
  by (induction xs) auto

lemma texts_written: "as_vec as_str (JArray (map JString ts)) = Some ts"
  by (simp add: those_iff)

lemma policy_written: "policy_of_json (policy_json p) = Some p"
  unfolding policy_of_json_def policy_json_def
  by (subst struct_written) (simp_all add: policy_names_def texts_written del: as_vec.simps)

lemma envelope_written: "envelope_of_json (envelope_json e) = Some e"
  unfolding envelope_of_json_def envelope_json_def
  by (subst struct_written) (simp_all add: envelope_fields_def policy_written)

text \<open>Which of them are documents: their texts are.\<close>

lemma plain_object:
  assumes "list_all utf8_valid names" "length vs = length names"
    and "list_all (\<lambda>v. plain_value v \<and> json_depth v < n) vs" "0 < n"
  shows "plain_value (json_object (zip names vs))" "json_depth (json_object (zip names vs)) \<le> n"
proof -
  have "utf8_valid k \<and> plain_value v \<and> json_depth v < n" if "(k, v) \<in> set (btree_of (zip names vs))" for k v
    using btree_of_values [OF that] assms(1,3) by (auto simp: list_all_iff dest: set_zip_leftD set_zip_rightD)
  moreover have "sorted_wrt (<) (map fst (btree_of (zip names vs)))"
    using btree_of_ordered unfolding ordered_def .
  ultimately show "plain_value (json_object (zip names vs))" "json_depth (json_object (zip names vs)) \<le> n"
    using assms(4) by (fastforce simp: json_object_def depth_object simp del: json_depth.simps)+
qed

definition policy_text :: "policy_fields \<Rightarrow> bool" where
  "policy_text p \<longleftrightarrow> list_all utf8_valid (pf_candidate_factors p @ pf_notifications p
     @ [pf_cooldown p, pf_session_lifetime p, pf_holder_veto p, pf_lapse_policy p])"

definition envelope_text :: "share_envelope \<Rightarrow> bool" where
  "envelope_text e \<longleftrightarrow> policy_text (env_trustee_policy e)
     \<and> list_all utf8_valid [env_implementation_profile_id e, env_enrollment_id e,
         env_policy_digest e, env_identity_binding_commitment e, env_artifact_digest e,
         env_artifact_id e, env_recovery_mode e, env_trustee_component_id e, env_slot e,
         env_trustee_challenge e, env_slip39_share e, env_created_at e, env_expires_at e,
         env_authorization_public_key e]"

lemma names_text: "list_all utf8_valid policy_names" "list_all utf8_valid envelope_fields"
proof -
  have "list_all ascii policy_names" "list_all ascii envelope_fields"
    by (simp_all add: policy_names_def envelope_fields_def in_bytes_def)
  then show "list_all utf8_valid policy_names" "list_all utf8_valid envelope_fields"
    by (auto simp: list_all_iff ascii_utf8)
qed

lemma texts_plain:
  "plain_value (JArray (map JString ts)) \<longleftrightarrow> list_all utf8_valid ts"
  "json_depth (JArray (map JString ts)) = 1"
proof -
  have "foldr max (map json_depth (map JString ts)) 0 = 0"
    by (induction ts) auto
  then show "json_depth (JArray (map JString ts)) = 1"
    by simp
qed (auto simp: list_all_iff)

lemma policy_plain:
  assumes "policy_text p"
  shows "plain_value (policy_json p)" "json_depth (policy_json p) \<le> 2"
  unfolding policy_json_def
  by (intro plain_object [where n = 2] names_text;
      use assms in \<open>simp add: policy_names_def policy_text_def texts_plain
        del: plain_value.simps(4) json_depth.simps(1)\<close>)+

lemma envelope_plain:
  assumes "envelope_text e"
  shows "plain_value (envelope_json e)" "json_depth (envelope_json e) \<le> 127"
  unfolding envelope_json_def
  by (intro plain_object [where n = 127] names_text;
      use assms policy_plain [of "env_trustee_policy e"] in \<open>simp add: envelope_fields_def envelope_text_def\<close>)+

lemma not_a_member: "k \<notin> set names \<Longrightarrow> take_field k (json_object (zip names vs)) = None"
proof -
  assume "k \<notin> set names"
  then have "map_of (rev (zip names vs)) k = None"
    by (auto simp: map_of_eq_None_iff dest: set_zip_leftD)
  then show ?thesis
    by (simp add: json_object_def map_of_btree_of)
qed

lemma envelope_signable:
  assumes "envelope_text e"
  shows "signable ''holderAuthorization'' (envelope_json e)"
proof -
  have "is_object (envelope_json e)"
    by (simp add: envelope_json_def json_object_def)
  moreover have "take_field ''holderAuthorization'' (envelope_json e) = None"
    unfolding envelope_json_def by (rule not_a_member) (simp add: envelope_fields_def)
  ultimately show ?thesis
    unfolding signable_def using envelope_plain [OF assms] by blast
qed

text \<open>The holder's signed envelope.\<close>

definition holder_document :: "extern \<Rightarrow> bytes \<Rightarrow> share_envelope \<Rightarrow> json" where
  "holder_document x key e = set_field ''holderAuthorization''
     (JString (base64_encode x (sign x key (canonical x (envelope_json e))))) (envelope_json e)"

lemma holder_document_parses:
  "json_laws x \<Longrightarrow> base64_laws x \<Longrightarrow> envelope_text e \<Longrightarrow>
     parse x (canonical x (holder_document x key e)) = Some (holder_document x key e)"
  unfolding holder_document_def
  by (rule member_added_parses [OF _ envelope_signable]) (simp_all add: base64_text ascii_utf8 in_bytes_def)

lemma holder_document_taken:
  "envelope_text e \<Longrightarrow> take_string ''holderAuthorization'' (holder_document x key e)
     = Some (base64_encode x (sign x key (canonical x (envelope_json e))), envelope_json e)"
  unfolding holder_document_def by (rule member_added_taken [OF envelope_signable])

section \<open>The session a candidate writes\<close>

definition destination_names :: "string list" where
  "destination_names = [''encryptionSuite'', ''encryptionPublicKey'', ''proofSuite'', ''proofPublicKey'']"

definition evidence_names :: "string list" where
  "evidence_names = [''factor'', ''signature'']"

definition core_json :: "session_core \<Rightarrow> json" where
  "core_json s = json_object (zip core_fields
     [JU64 (core_session_version s), JString (core_session_id s), JString (core_enrollment_id s),
      JU64 (core_enrollment_sequence s), JString (core_policy_digest s), JString (core_artifact_id s),
      JString (core_artifact_digest s),
      json_object (zip destination_names
        [JString (dst_encryption_suite (core_destination s)),
         JString (dst_encryption_public_key (core_destination s)),
         JString (dst_proof_suite (core_destination s)),
         JString (dst_proof_public_key (core_destination s))]),
      JString (core_requested_at s), JString (core_expires_at s)])"

definition evidence_json :: "(string \<times> string) list \<Rightarrow> json" where
  "evidence_json es =
     JArray (map (\<lambda>(f, s). json_object (zip evidence_names [JString f, JString s])) es)"

definition evidenced :: "session_core \<Rightarrow> (string \<times> string) list \<Rightarrow> json" where
  "evidenced s es = set_field ''candidateEvidence'' (evidence_json es) (core_json s)"

definition candidate_document ::
  "extern \<Rightarrow> bytes \<Rightarrow> session_core \<Rightarrow> (string \<times> string) list \<Rightarrow> json" where
  "candidate_document x key s es = set_field ''candidateProof''
     (JString (base64_encode x (sign x key (canonical x (evidenced s es))))) (evidenced s es)"

lemma core_written: "core_of_json (core_json s) = Some s"
proof -
  let ?d = "core_destination s"
  have "destination_of_json (json_object (zip destination_names [JString (dst_encryption_suite ?d),
      JString (dst_encryption_public_key ?d), JString (dst_proof_suite ?d),
      JString (dst_proof_public_key ?d)])) = Some ?d"
    unfolding destination_of_json_def destination_names_def
    by (subst struct_written) simp_all
  then show ?thesis
    unfolding core_of_json_def core_json_def
    by (subst struct_written) (simp_all add: core_fields_def)
qed

lemma evidence_written: "as_vec evidence_of_json (evidence_json es) = Some es"
proof -
  have "evidence_of_json (json_object (zip evidence_names [JString f, JString s])) = Some (f, s)" for f s
    unfolding evidence_of_json_def evidence_names_def by (subst struct_written) simp_all
  then show ?thesis
    by (simp add: evidence_json_def those_iff case_prod_beta)
qed

definition core_text :: "session_core \<Rightarrow> bool" where
  "core_text s \<longleftrightarrow> list_all utf8_valid [core_session_id s, core_enrollment_id s, core_policy_digest s,
     core_artifact_id s, core_artifact_digest s, core_requested_at s, core_expires_at s,
     dst_encryption_suite (core_destination s), dst_encryption_public_key (core_destination s),
     dst_proof_suite (core_destination s), dst_proof_public_key (core_destination s)]"

lemma session_names_text:
  "list_all utf8_valid (''candidateEvidence'' # ''candidateProof'' # core_fields @ destination_names @ evidence_names)"
proof -
  have "list_all ascii (''candidateEvidence'' # ''candidateProof'' # core_fields @ destination_names @ evidence_names)"
    by (simp add: core_fields_def destination_names_def evidence_names_def in_bytes_def)
  then show ?thesis
    by (auto simp: list_all_iff ascii_utf8)
qed

lemma core_plain:
  assumes "core_text s"
  shows "plain_value (core_json s)" "json_depth (core_json s) \<le> 127"
proof -
  let ?d = "core_destination s"
  let ?o = "json_object (zip destination_names [JString (dst_encryption_suite ?d),
      JString (dst_encryption_public_key ?d), JString (dst_proof_suite ?d),
      JString (dst_proof_public_key ?d)])"
  have d: "plain_value ?o" "json_depth ?o \<le> 1"
    by (intro plain_object [where n = 1]; use assms session_names_text in
        \<open>simp add: core_text_def destination_names_def\<close>)+
  show "plain_value (core_json s)" "json_depth (core_json s) \<le> 127"
    unfolding core_json_def
    by (intro plain_object [where n = 127]; use assms session_names_text d in
        \<open>simp add: core_text_def core_fields_def\<close>)+
qed

lemma evidence_plain:
  assumes "list_all (\<lambda>(f, s). utf8_valid f \<and> utf8_valid s) es"
  shows "plain_value (evidence_json es)" "json_depth (evidence_json es) < 127"
proof -
  have e: "plain_value (json_object (zip evidence_names [JString f, JString s]))"
    "json_depth (json_object (zip evidence_names [JString f, JString s])) \<le> 1"
    if "utf8_valid f" "utf8_valid s" for f s
    by (intro plain_object [where n = 1]; use that session_names_text in \<open>simp add: evidence_names_def\<close>)+
  show "plain_value (evidence_json es)"
    using assms e by (auto simp: evidence_json_def list_all_iff)
  have "json_depth (evidence_json es) \<le> 2"
    using assms e unfolding evidence_json_def depth_array by (auto simp: list_all_iff)
  then show "json_depth (evidence_json es) < 127"
    by simp
qed

lemma core_signable:
  assumes "core_text s" "k \<notin> set core_fields"
  shows "signable k (core_json s)"
proof -
  have "is_object (core_json s)"
    by (simp add: core_json_def json_object_def)
  moreover have "take_field k (core_json s) = None"
    unfolding core_json_def by (rule not_a_member [OF assms(2)])
  ultimately show ?thesis
    unfolding signable_def using core_plain [OF assms(1)] by blast
qed

lemma evidenced_signable:
  assumes "core_text s" "list_all (\<lambda>(f, s). utf8_valid f \<and> utf8_valid s) es"
  shows "signable ''candidateProof'' (evidenced s es)"
    "take_field ''candidateEvidence'' (evidenced s es) = Some (evidence_json es, core_json s)"
proof -
  have names: "''candidateEvidence'' \<notin> set core_fields" "''candidateProof'' \<notin> set core_fields"
    "''candidateProof'' \<noteq> ''candidateEvidence''" "utf8_valid ''candidateEvidence''"
    using session_names_text by (simp_all add: core_fields_def)
  note sig = core_signable [OF assms(1) names(1)] core_signable [OF assms(1) names(2)]
  show "signable ''candidateProof'' (evidenced s es)"
    unfolding evidenced_def
    by (rule member_added_signable [OF sig names(3,4) evidence_plain [OF assms(2)]])
  show "take_field ''candidateEvidence'' (evidenced s es) = Some (evidence_json es, core_json s)"
    unfolding evidenced_def by (rule field_added_taken [OF sig(1)])
qed

lemma candidate_document_parses:
  assumes "json_laws x" "base64_laws x" "core_text s" "list_all (\<lambda>(f, s). utf8_valid f \<and> utf8_valid s) es"
  shows "parse x (canonical x (candidate_document x key s es)) = Some (candidate_document x key s es)"
  unfolding candidate_document_def
  using evidenced_signable [OF assms(3,4)] base64_text [OF assms(2)] session_names_text
  by (intro member_added_parses [OF assms(1)]) simp_all

lemma candidate_document_taken:
  assumes "core_text s" "list_all (\<lambda>(f, s). utf8_valid f \<and> utf8_valid s) es"
  shows "take_string ''candidateProof'' (candidate_document x key s es)
    = Some (base64_encode x (sign x key (canonical x (evidenced s es))), evidenced s es)"
  unfolding candidate_document_def by (rule member_added_taken [OF evidenced_signable(1) [OF assms]])

end
