(* ===== verification/Wire_Properties.thy ===== *)
theory Wire_Properties
  imports Clients Example_Crates
begin

text \<open>
  What the wire format of \<open>src/wire.rs\<close> promises: documents and their canonical bytes, what a
  signed object gives its reader, and that a signature made for one purpose is never one made for
  another.
\<close>

section \<open>Documents\<close>

text \<open>
  C33: Parsing accepts exactly the documents the JSON reader accepts whose top level is an object
  and in which no object at any depth repeats a key; the value has its members in key order.
\<close>
theorem parse_documents:
  "parse x raw = Some v \<longleftrightarrow>
     (\<exists>t. json_read x raw = Some t \<and> unique_keys t \<and> is_object t \<and> v = to_value t)"
  by (rule parse_iff)

text \<open>
  C32: Canonical bytes are canonical: whatever bytes a float-free document came in, its canonical
  bytes parse to the same value, so canonicalizing again changes nothing, and two such documents
  have the same canonical bytes exactly when they denote the same value.
\<close>
theorem canonical_is_canonical:
  assumes "json_laws x" "parse x raw = Some v" "no_float v" "parse x other = Some w" "no_float w"
  shows "parse x (canonical x v) = Some v \<and> (canonical x v = canonical x w \<longleftrightarrow> v = w)"
  using parse_again canonical_inject parse_plain parse_depth assms by metis

theorem canonical_is_canonical_witness:
  "parse crates (canonical crates (JObject [(''a'', JU64 1)])) = Some (JObject [(''a'', JU64 1)])"
proof -
  have "parse crates (canonical crates (JObject [(''a'', JU64 1)])) = Some (JObject [(''a'', JU64 1)])"
    by (rule parse_canonical [OF crates_json]) (simp_all add: ascii_utf8 in_bytes_def)
  from canonical_is_canonical [OF crates_json this _ this] show ?thesis
    by simp
qed

section \<open>Signed objects\<close>

text \<open>
  What the trustee signs can be checked: the bytes of a signed object parse to the object with
  a signature member, and taking that member out leaves the object whose canonical bytes the
  signature verifies under the public key of the signing key.
\<close>
lemma signed_object_checks:
  assumes "json_laws x" "base64_laws x" "ed25519_laws x" "signable ''signature'' v"
  shows "\<exists>w t sg. parse x (sign_object x v key) = Some w \<and> take_string ''signature'' w = Some (t, v)
    \<and> signature x t = Some sg \<and> verify x (ed25519_public_key x key) (canonical x v) sg = Inr ()"
  using signed_object_parses [OF assms(1,2,4)] member_added_taken [OF assms(4)]
    signature_iff [OF assms(2)] sign_verifies [OF assms(3)] sign_length [OF assms(3)] by blast

text \<open>
  C31: A request is understood as it was meant: the body a client builds and signs for one of the
  signed operations parses, names that operation, and is read as the request it was built from,
  with its target, its time and a signature that verifies under the client's key.
\<close>
theorem client_request_understood:
  assumes "json_laws x" "base64_laws x" "ed25519_laws x" "request_text r"
    and "sr_request_version r = 1" "signed_target r = Some target"
    and "hex32 x (sr_request_id r) \<noteq> None" "hex32 x target \<noteq> None"
    and "timestamp x (sr_issued_at r) = Some issued_at"
  shows "\<exists>v sg. parse x (client_request x key r) = Some v
    \<and> index_field v ''operation'' = JString (sr_operation r)
    \<and> signed_parse x v (sr_component_id r) = Some sg
    \<and> sg_operation sg = sr_operation r \<and> sg_request_id sg = sr_request_id r
    \<and> sg_target sg = target \<and> sg_by sg = sr_by r \<and> sg_issued_at sg = issued_at
    \<and> verify x (ed25519_public_key x key) (sg_message sg) (sg_signature sg) = Inr ()"
proof -
  note signed = client_value_signed [OF assms(2-9), of key]
  show ?thesis
    by (rule exI [of _ "client_value x key r"])
      (simp add: signed client_request_parses [OF assms(1,2,4)] client_value_operation
        sign_verifies [OF assms(3)])
qed

definition example_hex :: string where
  "example_hex = replicate 64 CHR ''0''"

definition example_request :: signed_request where
  "example_request = \<lparr>sr_request_version = 1, sr_operation = ''read-recovery'',
     sr_request_id = example_hex, sr_component_id = ''onym:component:t1'',
     sr_issued_at = ''62167219300'', sr_enrollment_id = None, sr_session_id = Some example_hex,
     sr_by = None\<rparr>"

lemma example_hex_ok: "hex32 crates example_hex = Some (replicate 32 0)"
proof -
  have "to_hex (replicate n 0) = replicate (2 * n) CHR ''0''" for n
    by (induction n) (simp_all add: to_hex_def hex_byte_def hex_digit_def char_of_def bit_0)
  then have "hex_encode crates (replicate 32 0) = example_hex"
    by (simp add: crates_def example_hex_def)
  then show ?thesis
    by (subst hex32_iff [OF crates_hex]) simp
qed

lemma example_hex_text: "utf8_valid example_hex"
  using example_hex_ok hex32_ascii ascii_utf8 by blast

lemma example_request_text: "request_text example_request"
proof -
  have "list_all ascii [''read-recovery'', ''onym:component:t1'', ''62167219300'']"
    by (simp add: in_bytes_def)
  then show ?thesis
    using example_hex_text by (simp add: request_text_def example_request_def member_texts_def ascii_utf8)
qed

lemma example_time: "timestamp crates ''62167219300'' = Some 100"
  by (subst timestamp_iff [OF crates_time])
    (simp add: format_timestamp_def crates_def epoch_offset_def decimal_text.simps char_of_def bit_0)

theorem client_request_understood_witness:
  "\<exists>v sg. parse crates (client_request crates [7] example_request) = Some v
    \<and> signed_parse crates v ''onym:component:t1'' = Some sg \<and> sg_target sg = example_hex
    \<and> sg_issued_at sg = 100"
proof -
  have "sr_request_version example_request = 1" "signed_target example_request = Some example_hex"
    "hex32 crates (sr_request_id example_request) \<noteq> None" "hex32 crates example_hex \<noteq> None"
    "timestamp crates (sr_issued_at example_request) = Some 100"
    "sr_component_id example_request = ''onym:component:t1''"
    by (simp_all add: example_request_def signed_target_def example_hex_ok example_time)
  then show ?thesis
    using client_request_understood [OF crates_json crates_base64 crates_ed25519
        example_request_text, of example_hex 100 "[7]"] by metis
qed

section \<open>One purpose per signature and per sealing\<close>

text \<open>
  An object of the wire: what \<open>parse\<close> gives, or such an object with a member taken out. The signed
  part of a session is its object without \<open>candidateProof\<close>.
\<close>

definition wire_object :: "json \<Rightarrow> bool" where
  "wire_object v \<longleftrightarrow> is_object v \<and> ordered_value v \<and> readable v \<and> json_depth v \<le> 127"

definition session_form :: "json \<Rightarrow> bool" where
  "session_form v \<longleftrightarrow>
     (case take_field ''candidateEvidence'' v of
        None \<Rightarrow> False
      | Some (evidence, rest) \<Rightarrow>
          core_of_json rest \<noteq> None \<and> as_vec evidence_of_json evidence \<noteq> None)"

lemma wire_plain: "wire_object v \<Longrightarrow> no_float v \<Longrightarrow> plain_value v"
  by (simp add: wire_object_def plain_iff)

lemma session_no_float:
  assumes "session_form v" "ordered_value v"
  shows "no_float v"
proof -
  obtain evidence rest where s: "take_field ''candidateEvidence'' v = Some (evidence, rest)"
    "core_of_json rest \<noteq> None" "as_vec evidence_of_json evidence \<noteq> None"
    using assms(1) by (auto simp only: session_form_def split: option.splits)
  have o: "ordered_value evidence" "ordered_value rest"
    using take_field_ordered [OF s(1) assms(2)] by auto
  have "no_float evidence"
    using s(3) vec_no_float [OF _ o(1)] evidence_no_float by blast
  moreover have "no_float rest"
    using s(2) core_no_float o(2) by blast
  ultimately show ?thesis
    using take_field_no_float [OF s(1) assms(2)] by blast
qed

lemma signed_request_keys:
  "signed_request_of_json (JObject kvs) = Some r \<Longrightarrow> fst ` set kvs \<subseteq> set signed_fields"
  by (auto simp: list_all_iff split: if_splits)

lemma envelope_keys: "envelope_of_json (JObject kvs) = Some e \<Longrightarrow> fst ` set kvs = set envelope_fields"
proof -
  assume "envelope_of_json (JObject kvs) = Some e"
  then obtain fs where "struct_fields envelope_fields (JObject kvs) = Some fs"
    by (auto simp: envelope_of_json_def bind_eq_Some_conv)
  then have sub: "fst ` set kvs \<subseteq> set envelope_fields" "map (map_of kvs) envelope_fields = map Some fs"
    unfolding struct_fields_object by blast+
  have "k \<in> fst ` set kvs" if "k \<in> set envelope_fields" for k
  proof -
    have "map_of kvs k \<in> Some ` set fs"
      using sub(2) that by (metis image_eqI list.set_map)
    then show ?thesis
      by (metis (no_types) imageE map_of_eq_None_iff option.distinct(1))
  qed
  then show ?thesis
    using sub(1) by blast
qed

lemma session_keys:
  assumes "session_form (JObject kvs)"
  shows "''candidateEvidence'' \<in> fst ` set kvs"
proof (rule ccontr)
  assume "''candidateEvidence'' \<notin> fst ` set kvs"
  then have "map_of kvs ''candidateEvidence'' = None"
    by (simp only: map_of_eq_None_iff) simp
  then show False
    using assms by (simp add: session_form_def)
qed

text \<open>
  C27: A signature has one purpose: the bytes a holder or candidate signs for a request, the bytes
  signed for a share envelope and the bytes signed for a recovery session are never the same, so
  no signature made for one of them can be presented as another.
\<close>
theorem signed_kinds_separate:
  assumes "json_laws x" "wire_object u" "wire_object v" "wire_object w"
    and "signed_request_of_json u = Some r" "envelope_of_json v = Some e" "session_form w"
  shows "canonical x u \<noteq> canonical x v \<and> canonical x u \<noteq> canonical x w \<and> canonical x v \<noteq> canonical x w"
proof -
  obtain us vs ws where o: "u = JObject us" "v = JObject vs" "w = JObject ws"
    using assms(2-4) by (auto simp: wire_object_def is_object_iff)
  have "no_float u" "no_float v" "no_float w"
    using assms(2-) request_no_float envelope_no_float session_no_float by (auto simp: wire_object_def)
  then have plain: "plain_value u" "plain_value v" "plain_value w"
    using assms(2-4) wire_plain by blast+
  have "''slot'' \<in> fst ` set vs" "''candidateEvidence'' \<notin> fst ` set vs" "''candidateEvidence'' \<in> fst ` set ws"
    "''slot'' \<notin> fst ` set us" "''candidateEvidence'' \<notin> fst ` set us"
    using envelope_keys [of vs e] session_keys [of ws] signed_request_keys [of us r] assms(5-7)
    unfolding o by (auto simp: envelope_fields_def signed_fields_def)
  then have "u \<noteq> v" "u \<noteq> w" "v \<noteq> w"
    unfolding o by auto
  then show ?thesis
    using canonical_inject [OF assms(1)] plain assms(2-4) by (simp add: wire_object_def)
qed

lemma wire_json_object:
  assumes "list_all (\<lambda>(k, v). utf8_valid k \<and> readable v \<and> ordered_value v \<and> json_depth v \<le> 126) kvs"
  shows "wire_object (json_object kvs)"
proof -
  have "(k, v) \<in> set (btree_of kvs) \<Longrightarrow> utf8_valid k \<and> readable v \<and> ordered_value v \<and> json_depth v \<le> 126"
    for k v using assms btree_of_values by (fastforce simp: list_all_iff)
  then show ?thesis
    by (auto simp: wire_object_def json_object_def depth_object list_all_iff simp del: json_depth.simps)
qed

definition example_member :: "string \<Rightarrow> json" where
  "example_member k =
     (if k \<in> {''shareEnvelopeVersion'', ''enrollmentSequence'', ''memberIndex'', ''memberThreshold'',
         ''memberCount'', ''sessionVersion''} then JU64 1
      else if k = ''trusteePolicy'' then
        JArray [JArray [], JString [], JString [], JU64 1, JArray [], JString [], JString []]
      else if k = ''destination'' then JArray [JString [], JString [], JString [], JString []]
      else if k = ''candidateEvidence'' then JArray []
      else JString [])"

definition example_object :: "string list \<Rightarrow> json" where
  "example_object ks = json_object (map (\<lambda>k. (k, example_member k)) ks)"

lemma example_wire: "list_all ascii ks \<Longrightarrow> wire_object (example_object ks)"
  unfolding example_object_def
  by (rule wire_json_object) (auto simp: list_all_iff ascii_utf8 example_member_def)

lemma example_lookup: "k \<in> set ks \<Longrightarrow> map_of (btree_of (map (\<lambda>k. (k, example_member k)) ks)) k = Some (example_member k)"
  unfolding map_of_btree_of rev_map by (simp add: map_of_map_restrict)

lemma example_fields_read:
  "struct_fields ks (example_object ks) = Some (map example_member ks)"
proof -
  have "fst ` set (btree_of (map (\<lambda>k. (k, example_member k)) ks)) \<subseteq> set ks"
    using btree_of_values by fastforce
  then show ?thesis
    unfolding example_object_def json_object_def struct_fields_object by (simp add: example_lookup)
qed

lemma example_envelope_read: "envelope_of_json (example_object envelope_fields) \<noteq> None"
  unfolding envelope_of_json_def example_fields_read
  by (simp add: envelope_fields_def example_member_def policy_of_json_def policy_names_def)

lemma example_session_read: "session_form (example_object (''candidateEvidence'' # core_fields))"
proof -
  let ?kvs = "btree_of (map (\<lambda>k. (k, example_member k)) (''candidateEvidence'' # core_fields))"
  have "fst ` set (btree_remove ''candidateEvidence'' ?kvs) \<subseteq> set core_fields"
    using btree_of_values by (fastforce simp: btree_remove_def)
  moreover have "map (map_of (btree_remove ''candidateEvidence'' ?kvs)) core_fields
      = map Some (map example_member core_fields)"
    unfolding map_map
  proof (rule map_cong [OF refl])
    fix k assume k: "k \<in> set core_fields"
    then have "k \<noteq> ''candidateEvidence''"
      by (auto simp: core_fields_def)
    then show "map_of (btree_remove ''candidateEvidence'' ?kvs) k = (Some \<circ> example_member) k"
      using k example_lookup [of k "''candidateEvidence'' # core_fields"]
      by (subst map_of_btree_remove) simp
  qed
  ultimately have "struct_fields core_fields (JObject (btree_remove ''candidateEvidence'' ?kvs))
      = Some (map example_member core_fields)"
    unfolding struct_fields_object by blast
  then have "core_of_json (JObject (btree_remove ''candidateEvidence'' ?kvs)) \<noteq> None"
    by (simp add: core_of_json_def core_fields_def example_member_def destination_of_json_def)
  moreover have "take_field ''candidateEvidence'' (example_object (''candidateEvidence'' # core_fields))
      = Some (JArray [], JObject (btree_remove ''candidateEvidence'' ?kvs))"
    using example_lookup [of "''candidateEvidence''" "''candidateEvidence'' # core_fields"]
    by (simp add: example_object_def json_object_def example_member_def)
  ultimately show ?thesis
    by (simp add: session_form_def)
qed

theorem signed_kinds_separate_witness:
  "canonical crates (request_json example_request) \<noteq> canonical crates (example_object envelope_fields)"
proof -
  have "wire_object (request_json example_request)"
    using request_signable [OF example_request_text] plain_iff
    by (auto simp: signable_iff wire_object_def)
  moreover have "wire_object (example_object envelope_fields)"
    "wire_object (example_object (''candidateEvidence'' # core_fields))"
    by (rule example_wire; simp add: envelope_fields_def core_fields_def in_bytes_def)+
  ultimately show ?thesis
    using signed_kinds_separate [OF crates_json _ _ _ request_of_json _ example_session_read]
      example_envelope_read by blast
qed

section \<open>What a sealing and a factor are bound to\<close>

lemma well_formed_text:
  assumes "is_well_formed x c"
  shows "list_all utf8_valid [ctx_enrollment_id c, ctx_policy_digest c, ctx_artifact_id c,
    ctx_artifact_digest c, ctx_trustee_component_id c, ctx_slot c, ctx_trustee_challenge c,
    ctx_authorization_key_digest c]"
  using assms hex32_ascii is_digest_ascii is_component_id_ascii ascii_utf8
  by (fastforce simp: is_well_formed_def)

lemma purpose_text: "list_all utf8_valid [ENROLLMENT_INFO, RECOVERY_INFO, FACTOR_EVIDENCE]"
proof -
  have "list_all ascii [ENROLLMENT_INFO, RECOVERY_INFO, FACTOR_EVIDENCE]"
    by (simp add: ENROLLMENT_INFO_def RECOVERY_INFO_def FACTOR_EVIDENCE_def in_bytes_def)
  then show ?thesis
    by (simp add: ascii_utf8)
qed

text \<open>
  C28: A sealing is bound to everything it should be: two well-formed contexts give the same
  enrollment info only when they are the same context, two releases give the same contribution
  info only when session, bindings, slot, destination digest and expiry all agree, and no
  enrollment info is a contribution info.
\<close>
theorem sealing_infos_bind:
  assumes "json_laws x" "is_well_formed x c" "is_well_formed x d"
    and "list_all utf8_valid [ctx_implementation_profile_id c, ctx_implementation_profile_id d, i, j, g, h, s, t]"
  shows "(context_info x c = context_info x d \<longleftrightarrow> c = d)
    \<and> (recovery_info x i c g s = recovery_info x j d h t \<longleftrightarrow>
        (i, g, s) = (j, h, t)
        \<and> (ctx_enrollment_id c, ctx_enrollment_sequence c, ctx_policy_digest c, ctx_artifact_id c)
          = (ctx_enrollment_id d, ctx_enrollment_sequence d, ctx_policy_digest d, ctx_artifact_id d)
        \<and> (ctx_artifact_digest c, ctx_trustee_component_id c, ctx_slot c)
          = (ctx_artifact_digest d, ctx_trustee_component_id d, ctx_slot d))
    \<and> context_info x c \<noteq> recovery_info x j d h t"
proof -
  note texts = well_formed_text [OF assms(2)] well_formed_text [OF assms(3)] purpose_text assms(4)
  have "context_info x c = context_info x d \<longleftrightarrow> c = d"
    unfolding context_info_def using texts
    by (subst canonical_tuple_inject [OF assms(1)]) (auto intro: enrollment_context.equality)
  moreover have "recovery_info x i c g s = recovery_info x j d h t \<longleftrightarrow>
        (i, g, s) = (j, h, t)
        \<and> (ctx_enrollment_id c, ctx_enrollment_sequence c, ctx_policy_digest c, ctx_artifact_id c)
          = (ctx_enrollment_id d, ctx_enrollment_sequence d, ctx_policy_digest d, ctx_artifact_id d)
        \<and> (ctx_artifact_digest c, ctx_trustee_component_id c, ctx_slot c)
          = (ctx_artifact_digest d, ctx_trustee_component_id d, ctx_slot d)"
    unfolding recovery_info_def using texts
    by (subst canonical_tuple_inject [OF assms(1)]) auto
  moreover have "context_info x c \<noteq> recovery_info x j d h t"
    unfolding context_info_def recovery_info_def using texts
    by (subst canonical_tuple_inject [OF assms(1)]) (auto simp: ENROLLMENT_INFO_def RECOVERY_INFO_def)
  ultimately show ?thesis
    by blast
qed

text \<open>
  Factor evidence is bound to one session and one slot: the message a factor signs for one
  session commitment, trustee and slot is the message for another only when all three agree, and
  it is never the info of a sealing.
\<close>
lemma factor_message_determines:
  assumes "json_laws x" "is_well_formed x c" "utf8_valid (ctx_implementation_profile_id c)"
    and "list_all utf8_valid [m, n, i, j, s, t]"
  shows "(factor_message x m i s = factor_message x n j t \<longleftrightarrow> (m, i, s) = (n, j, t))
    \<and> factor_message x m i s \<noteq> context_info x c"
  unfolding factor_message_def context_info_def list.map
  using well_formed_text [OF assms(2)] purpose_text assms(3,4)
  by (simp add: canonical_tuple_inject [OF assms(1)])

definition example_context_hex :: enrollment_context where
  "example_context_hex = \<lparr>ctx_implementation_profile_id = IMPLEMENTATION_PROFILE_ID,
     ctx_enrollment_id = example_hex, ctx_enrollment_sequence = 1,
     ctx_policy_digest = ''sha256:'' @ example_hex, ctx_artifact_id = example_hex,
     ctx_artifact_digest = ''sha256:'' @ example_hex,
     ctx_trustee_component_id = ''onym:component:t1'', ctx_slot = example_hex,
     ctx_trustee_challenge = example_hex,
     ctx_authorization_key_digest = ''sha256:'' @ example_hex\<rparr>"

lemma example_context_well_formed: "is_well_formed crates example_context_hex"
proof -
  have "is_digest crates (''sha256:'' @ example_hex)"
    using example_hex_ok unfolding is_digest_iff by blast
  moreover have "is_component_id ''onym:component:t1''"
    by (simp add: is_component_id_def component_char_def byte_in_def char_le_of_char)
  moreover have "sequence 1 \<noteq> None"
    by (simp add: sequence_def MAX_SAFE_INTEGER_def)
  ultimately show ?thesis
    by (simp add: is_well_formed_def example_context_hex_def example_hex_ok)
qed

lemma profile_text: "utf8_valid IMPLEMENTATION_PROFILE_ID"
  by (rule ascii_utf8) (simp add: IMPLEMENTATION_PROFILE_ID_def in_bytes_def)

theorem sealing_infos_bind_witness:
  "context_info crates example_context_hex
     \<noteq> recovery_info crates example_hex example_context_hex example_hex example_hex"
  using sealing_infos_bind [OF crates_json example_context_well_formed example_context_well_formed,
      of example_hex example_hex example_hex example_hex example_hex example_hex]
    profile_text example_hex_text by (simp add: example_context_hex_def)

section \<open>Text encodings\<close>

text \<open>
  C34: Every encoded value has one spelling: a 32-byte value, a signature and an instant are each
  read from exactly the text the encoder writes for them.
\<close>
theorem one_spelling:
  assumes "hex_laws x" "base64_laws x" "time_laws x"
  shows "(hex32 x t = Some b \<longleftrightarrow> length b = 32 \<and> t = hex_encode x b)
    \<and> (signature x t = Some b \<longleftrightarrow> length b = 64 \<and> t = base64_encode x b)
    \<and> (timestamp x t = Some s \<longleftrightarrow> format_timestamp x s = Some t)"
  using hex32_iff signature_iff timestamp_iff assms by blast

theorem one_spelling_witness:
  "hex32 crates example_hex = Some (replicate 32 0) \<and> timestamp crates ''62167219300'' = Some 100"
  using one_spelling [OF crates_hex crates_base64 crates_time, of example_hex "replicate 32 0" 0]
    example_hex_ok example_time by blast

text \<open>
  C35: The duration parser accepts exactly its grammar: days, then after a \<open>T\<close> hours, minutes and
  seconds, each at most once, in order and of one to six digits, at least one in all and at least
  one after a \<open>T\<close>; the value is their sum in seconds, without wrap-around.
\<close>
theorem duration_grammar:
  "duration s = Some n \<longleftrightarrow>
     (\<exists>day clock. length clock = 3 \<and> list_all component_ok (day # clock)
        \<and> 0 < given (day # clock) \<and> s = duration_text day clock
        \<and> n = amount date_units [day] + amount time_units clock)
     \<and> 0 \<le> n \<and> n \<le> 999999 * 90061"
  using duration_iff [of s n] duration_bound [of s n] by blast

end
