(* ===== verification/Store_Replay.thy ===== *)
theory Store_Replay
  imports Store_Properties Wire_Properties
begin

text \<open>
  Replays of the polls (\<open>src/store.rs\<close>): a nonce that was spent is a fact that lasts over every
  later run until its request is stale, an instance of the interface \<open>lasting_fact\<close>; so no body of
  a poll is ever answered twice.
\<close>

section \<open>Runs at times the clock can give\<close>

text \<open>
  Clock readings far from the ends of \<open>i64\<close>, on either side of the epoch, where no sum or
  difference of the handlers wraps around.
\<close>

definition clock_time :: "i64 \<Rightarrow> bool" where
  "clock_time now \<longleftrightarrow> \<bar>now\<bar> < 2 ^ 62"

definition timely_step :: "extern \<Rightarrow> trustee \<Rightarrow> db \<Rightarrow> db \<Rightarrow> bool" where
  "timely_step x t d d' \<longleftrightarrow> (\<exists>now. clock_time now \<and> store_step x t now d d')"

lemma serve_timely:
  "list_all (\<lambda>ev. clock_time (event_time ev)) events \<Longrightarrow> (timely_step x t)\<^sup>*\<^sup>* d (serve x t events d)"
proof (induction events arbitrary: d)
  case (Cons ev events)
  then have time: "clock_time (event_time ev)"
    and run: "\<And>d. (timely_step x t)\<^sup>*\<^sup>* d (serve x t events d)"
    by simp_all
  obtain d' where d': "store_step x t (event_time ev) d d'" "serve x t (ev # events) d = serve x t events d'"
    using serve_Cons by blast
  then have "timely_step x t d d'"
    using time timely_step_def by blast
  then show ?case
    unfolding d'(2) using run by (rule converse_rtranclp_into_rtranclp)
qed simp

section \<open>Spent nonces\<close>

definition skew_ok :: "trustee \<Rightarrow> bool" where
  "skew_ok t \<longleftrightarrow> 0 \<le> lim_skew_secs (tr_limits t) \<and> lim_skew_secs (tr_limits t) < 2 ^ 60"

text \<open>
  A nonce spent for a request issued at \<open>issued\<close>: it is still stored with a time no older than the
  skew before the issue, or the clock has left the request's window.
\<close>

definition nonce_spent :: "trustee \<Rightarrow> string \<times> string \<Rightarrow> i64 \<Rightarrow> db \<Rightarrow> bool" where
  "nonce_spent t k issued d \<longleftrightarrow>
     skew_ok t \<and> 0 \<le> db_high_water d
     \<and> ((\<exists>r\<in>set (db_nonces d). nonce_key r = k \<and> issued - lim_skew_secs (tr_limits t) \<le> nr_seen_at r)
        \<or> issued + lim_skew_secs (tr_limits t) < db_high_water d)"

lemma nonce_cutoff:
  "skew_ok t \<Longrightarrow> 0 \<le> now \<Longrightarrow> clock_time now \<Longrightarrow>
     i64_sub now (i64_mul 2 (lim_skew_secs (tr_limits t))) = now - 2 * lim_skew_secs (tr_limits t)"
  by (simp add: skew_ok_def clock_time_def in_i64_def i64_sub_exact i64_mul_exact)

lemma nonce_spent_frame:
  assumes "nonce_spent t k issued d" "db_high_water d \<le> db_high_water d'" "db_nonces d' = db_nonces d"
  shows "nonce_spent t k issued d'"
  using assms by (auto simp: nonce_spent_def)

lemma nonce_spent_spend:
  assumes "nonce_spent t k issued d" "db_high_water d \<le> now" "clock_time now"
    and "spend_nonce sc sg t now d = Inr d'"
  shows "nonce_spent t k issued (d'\<lparr>db_high_water := now, db_sessions := ss\<rparr>)"
    "nonce_spent t k issued (d'\<lparr>db_high_water := now\<rparr>)"
proof -
  have ok: "skew_ok t" "0 \<le> now"
    using assms(1,2) by (auto simp: nonce_spent_def)
  have "(\<exists>r\<in>set (db_nonces d'). nonce_key r = k \<and> issued - lim_skew_secs (tr_limits t) \<le> nr_seen_at r)
      \<or> issued + lim_skew_secs (tr_limits t) < now"
    using assms(1,2,4) nonce_cutoff [OF ok assms(3)]
    by (fastforce simp: nonce_spent_def spend_nonce_Inr result_iff set_delete_rows)
  then show "nonce_spent t k issued (d'\<lparr>db_high_water := now, db_sessions := ss\<rparr>)"
    "nonce_spent t k issued (d'\<lparr>db_high_water := now\<rparr>)"
    using ok by (auto simp: nonce_spent_def)
qed

lemma nonce_spent_step:
  assumes "nonce_spent t k issued d" "timely_step x t d d'"
  shows "nonce_spent t k issued d'"
proof -
  obtain now where now: "clock_time now" "store_step x t now d d'"
    using assms(2) by (auto simp: timely_step_def)
  from now(2) show ?thesis
  proof cases
    case (step_poll sg sc d2)
    then show ?thesis
      using nonce_spent_spend(2) [OF assms(1) step_poll(2) now(1)] by simp
  next
    case (step_release i s sg row sealed entropy verified entropy' con d2)
    then show ?thesis
      using nonce_spent_spend(1) [OF assms(1) step_release(2) now(1)] by simp
  qed (use assms(1) in \<open>auto elim!: nonce_spent_frame simp: spend_challenge_def record_outcome_Inr\<close>)
qed

interpretation nonce: lasting_fact "timely_step x t" store_inv evolves "nonce_spent t k issued"
  for x t k issued
proof (intro lasting_fact.intro lasting_fact_axioms.intro)
  show "progress (timely_step x t) store_inv evolves"
    by unfold_locales
      (auto simp: timely_step_def intro: store_inv_step evolves_step evolves_refl evolves_trans)
qed (rule nonce_spent_step)

section \<open>A spent nonce is refused\<close>

text \<open>The instants of the wire are those of the years 0 to 9999.\<close>

definition wire_time :: "i64 \<Rightarrow> bool" where
  "wire_time s \<longleftrightarrow> - 62167219200 \<le> s \<and> s \<le> 253402300799"

lemma check_fresh_iff:
  assumes "wire_time (sg_issued_at sg)" "clock_time now"
  shows "check_fresh sg t now = Inr () \<longleftrightarrow> \<bar>sg_issued_at sg - now\<bar> \<le> lim_skew_secs (tr_limits t)"
proof -
  have "\<bar>sg_issued_at sg - now\<bar> < 2 ^ 63"
    using assms unfolding wire_time_def clock_time_def by (simp add: abs_less_iff)
  then have "in_i64 (sg_issued_at sg - now)" "in_i64 \<bar>sg_issued_at sg - now\<bar>"
    by (auto simp: in_i64_def)
  then show ?thesis
    by (auto simp: check_fresh_def i64_sub_exact i64_abs_exact)
qed

lemma nonce_spent_now:
  assumes "skew_ok t" "wire_time (sg_issued_at sg)" "0 \<le> db_high_water d" "db_high_water d \<le> now" "clock_time now"
    and "check_fresh sg t now = Inr ()" "spend_nonce sc sg t now d = Inr d2"
  shows "nonce_spent t (scope_key sc, sg_request_id sg) (sg_issued_at sg)
    (d2\<lparr>db_high_water := now, db_sessions := ss\<rparr>)"
proof -
  have "sg_issued_at sg - lim_skew_secs (tr_limits t) \<le> now"
    using check_fresh_iff [OF assms(2,5)] assms(6) by auto
  then show ?thesis
    using assms by (auto simp: nonce_spent_def spend_nonce_Inr result_iff nonce_key_def)
qed

lemma spent_nonce_refused:
  assumes "nonce_spent t (scope_key sc, sg_request_id sg) (sg_issued_at sg) d"
    and "wire_time (sg_issued_at sg)" "db_high_water d \<le> now" "clock_time now" "check_fresh sg t now = Inr ()"
  shows "spend_nonce sc sg t now d = Inl InvalidRequest"
proof -
  have ok: "skew_ok t" "0 \<le> now"
    using assms(1,3) by (auto simp: nonce_spent_def)
  then have "now \<le> sg_issued_at sg + lim_skew_secs (tr_limits t)"
    using check_fresh_iff [OF assms(2,4)] assms(5) by auto
  then have "\<exists>r\<in>set (db_nonces d). nonce_key r = (scope_key sc, sg_request_id sg)
      \<and> \<not> nr_seen_at r < now - 2 * lim_skew_secs (tr_limits t)"
    using assms(1,3) by (auto simp: nonce_spent_def)
  then have "(scope_key sc, sg_request_id sg)
      \<in> nonce_key ` set (delete_rows (\<lambda>r. nr_seen_at r < now - 2 * lim_skew_secs (tr_limits t)) (db_nonces d))"
    by force
  then show ?thesis
    unfolding spend_nonce_def nonce_cutoff [OF ok assms(4)] Let_def
    by (simp add: insert_row_def nonce_key_def)
qed

section \<open>A read is served once\<close>

lemma read_enrollment_spends:
  assumes "read_enrollment x t sg now d = Inr (d', r)"
  shows "\<exists>row d2 ss. db_high_water d \<le> now \<and> load_current_enrollment d (sg_target sg) = Some row
    \<and> check_fresh sg t now = Inr ()
    \<and> spend_nonce (scope_of_enrollment (erow_enrollment row)) sg t now d = Inr d2
    \<and> d' = d2\<lparr>db_high_water := now, db_sessions := ss\<rparr>"
proof -
  obtain row d2 where r: "db_high_water d \<le> now" "load_current_enrollment d (sg_target sg) = Some row"
    "check_fresh sg t now = Inr ()"
    "spend_nonce (scope_of_enrollment (erow_enrollment row)) sg t now d = Inr d2"
    "d' = d2\<lparr>db_high_water := now\<rparr>"
    using assms unfolding read_enrollment_def Let_def
    by (auto elim!: and_then_InrE simp: result_simps transaction_Inr spend_nonce_clock)
  then have "d' = d2\<lparr>db_high_water := now, db_sessions := db_sessions d2\<rparr>"
    by simp
  with r(1-4) show ?thesis
    by blast
qed

lemma read_recovery_spends:
  assumes "read_recovery x t e sg now d = Inr (d', r)"
  shows "\<exists>d2 ss. db_high_water d \<le> now \<and> check_fresh sg t now = Inr ()
    \<and> spend_nonce (Scope_Session (sg_target sg)) sg t now d = Inr d2
    \<and> d' = d2\<lparr>db_high_water := now, db_sessions := ss\<rparr>"
proof -
  obtain s d2 row st con where s: "db_high_water d \<le> now" "check_fresh sg t now = Inr ()"
    "spend_nonce (Scope_Session (sg_target sg)) sg t now d = Inr d2"
    "read_decision x t e row s now (db_high_water d) (d2\<lparr>db_high_water := now\<rparr>) = Inr (d', st, con)"
    using assms unfolding read_recovery_def Let_def
    by (auto elim!: and_then_InrE simp: result_simps transaction_Inr spend_nonce_clock)
  have "d' = d2\<lparr>db_high_water := now, db_sessions := db_sessions d2\<rparr>
      \<or> (\<exists>ss. d' = d2\<lparr>db_high_water := now, db_sessions := ss\<rparr>)"
    using read_decision_Inr [OF s(4)] by auto
  with s(1-3) show ?thesis
    by blast
qed

text \<open>The scope in which the poll of an operation spends its nonce.\<close>

definition read_scope :: "string \<Rightarrow> signed \<Rightarrow> db \<Rightarrow> scope option" where
  "read_scope op sg d =
     (if op = ''read-enrollment'' then
        map_option (\<lambda>r. scope_of_enrollment (erow_enrollment r)) (load_current_enrollment d (sg_target sg))
      else Some (Scope_Session (sg_target sg)))"

lemma current_iff:
  assumes "store_inv d"
  shows "load_current_enrollment d i = Some r \<longleftrightarrow> r \<in> set (db_enrollments d) \<and> erow_enrollment_id r = i"
proof
  assume r: "r \<in> set (db_enrollments d) \<and> erow_enrollment_id r = i"
  then obtain r' where r': "load_current_enrollment d i = Some r'"
    using load_current_None by (metis imageI not_None_eq)
  then have "r' = r"
    using r load_current_Some [OF r'] assms
    by (auto simp: store_inv_def keys_ok_def distinct_map dest: inj_onD)
  with r' show "load_current_enrollment d i = Some r"
    by simp
qed (use load_current_Some in blast)

lemma current_kept:
  assumes "store_inv d" "store_inv d'" "evolves d d'" "load_current_enrollment d i = Some r"
  shows "\<exists>r'. load_current_enrollment d' i = Some r' \<and> enrollment_evolves r r'"
proof -
  have r: "r \<in> set (db_enrollments d)" "erow_enrollment_id r = i"
    using assms(4) load_current_Some by blast+
  have "rows_lead enrollment_evolves (at_key enrollment_key (db_enrollments d))
      (at_key enrollment_key (db_enrollments d'))"
    using assms(3) by (simp add: evolves_def)
  moreover have "at_key enrollment_key (db_enrollments d) (enrollment_key r) = Some r"
    using assms(1) r(1) by (intro iffD2 [OF at_key_iff])
      (auto simp: store_inv_def keys_ok_def distinct_map inj_on_def enrollment_key_def)
  ultimately obtain r' where r': "at_key enrollment_key (db_enrollments d') (enrollment_key r) = Some r'"
    "enrollment_evolves r r'"
    using rows_leadD by metis
  then have "r' \<in> set (db_enrollments d')" "erow_enrollment_id r' = i"
    using r(2) by (auto simp: enrollment_key_def dest!: at_key_Some)
  then show ?thesis
    using current_iff [OF assms(2)] r'(2) by blast
qed

lemma enrollment_kept: "enrollment_evolves r r' \<Longrightarrow> erow_enrollment r' = erow_enrollment r"
  by (cases r; cases r') (simp add: enrollment_evolves_def)

lemma read_scope_kept:
  assumes "store_inv d" "store_inv d'" "evolves d d'" "read_scope op sg d = Some sc"
  shows "read_scope op sg d' = Some sc"
  using assms(4) current_kept [OF assms(1-3)] enrollment_kept
  by (fastforce simp: read_scope_def split: if_splits)

lemma handle_read:
  assumes "parse x body = Some v" "index_field v ''operation'' = JString op"
    and "op \<in> {''read-enrollment'', ''read-recovery''}"
  shows "handle_step x t e body now d =
    and_then (ok_or InvalidRequest (signed_parse x v (tr_component_id t))) (\<lambda>sg.
      if op = ''read-enrollment'' then read_enrollment x t sg now d else read_recovery x t e sg now d)"
  using assms by (auto simp: handle_step_def Let_def)

lemma read_spends:
  assumes "parse x body = Some v" "index_field v ''operation'' = JString op"
    and "op \<in> {''read-enrollment'', ''read-recovery''}" "handle_step x t e body now d = Inr (d', r)"
  shows "\<exists>sg sc d2 ss. signed_parse x v (tr_component_id t) = Some sg \<and> read_scope op sg d = Some sc
    \<and> db_high_water d \<le> now \<and> check_fresh sg t now = Inr () \<and> spend_nonce sc sg t now d = Inr d2
    \<and> d' = d2\<lparr>db_high_water := now, db_sessions := ss\<rparr>"
proof -
  obtain sg where sg: "signed_parse x v (tr_component_id t) = Some sg"
    "(if op = ''read-enrollment'' then read_enrollment x t sg now d else read_recovery x t e sg now d) = Inr (d', r)"
    using assms(4) unfolding handle_read [OF assms(1-3)] by (auto elim!: and_then_InrE simp: result_simps)
  show ?thesis
  proof (cases "op = ''read-enrollment''")
    case True
    then show ?thesis
      using sg read_enrollment_spends [of x t sg now d d' r] by (fastforce simp: read_scope_def)
  next
    case False
    then show ?thesis
      using sg read_recovery_spends [of x t e sg now d d' r] by (fastforce simp: read_scope_def)
  qed
qed

lemma signed_issued: "signed_parse x v c = Some sg \<Longrightarrow> \<exists>w. timestamp x w = Some (sg_issued_at sg)"
  by (auto simp: signed_parse_def bind_eq_Some_conv Let_def split: if_splits option.splits)

lemma timestamp_wire: "time_laws x \<Longrightarrow> timestamp x w = Some s \<Longrightarrow> wire_time s"
  by (auto simp: timestamp_iff format_timestamp_def time_laws_def wire_time_def)

text \<open>
  C18: A poll is answered once: after a \<open>read-enrollment\<close> or \<open>read-recovery\<close> body was answered, the
  very same body gets only errors and changes nothing, whatever requests came in between, whatever
  the clock reads and whatever randomness is drawn, although its recorded nonce is pruned in time.
\<close>
theorem reads_single_use:
  assumes "time_laws x" "skew_ok t" "store_inv d" "0 \<le> db_high_water d" "clock_time now"
    and "parse x body = Some v" "index_field v ''operation'' = JString op"
    and "op \<in> {''read-enrollment'', ''read-recovery''}"
    and "handle x t e body now d = (d', Inr answer)"
    and "list_all (\<lambda>ev. clock_time (event_time ev)) events" "clock_time later"
    and "d'' = serve x t events d'"
  shows "\<exists>c. handle x t e' body later d'' = (d'', Inl c)"
proof -
  have "handle_step x t e body now d = Inr (d', Inr answer)"
    using assms(9) by (auto simp: handle_def run_step_def split: sum.splits)
  note step = read_spends [OF assms(6-8) this]
  then obtain sg sc d2 ss where s: "signed_parse x v (tr_component_id t) = Some sg" "read_scope op sg d = Some sc"
    "db_high_water d \<le> now" "check_fresh sg t now = Inr ()" "spend_nonce sc sg t now d = Inr d2"
    "d' = d2\<lparr>db_high_water := now, db_sessions := ss\<rparr>"
    by blast
  have wire: "wire_time (sg_issued_at sg)"
    using signed_issued [OF s(1)] timestamp_wire [OF assms(1)] by blast
  have inv: "store_inv d'" "evolves d d'"
    using store_inv_step [OF handle_steps assms(3)] evolves_step [OF handle_steps assms(3)]
      assms(9) by (metis fst_conv)+
  then have inv2: "store_inv d''" "evolves d d''"
    unfolding assms(12) using serve_inv serve_evolves evolves_trans by blast+
  have "nonce_spent t (scope_key sc, sg_request_id sg) (sg_issued_at sg) d'"
    unfolding s(6) by (rule nonce_spent_now [OF assms(2) wire assms(4) s(3) assms(5) s(4,5)])
  then have "nonce_spent t (scope_key sc, sg_request_id sg) (sg_issued_at sg) d''"
    unfolding assms(12) using nonce.run_fact [OF serve_timely [OF assms(10)]] inv(1) by blast
  note refused = spent_nonce_refused [OF this wire _ assms(11)]
  have "handle_step x t e' body later d'' \<noteq> Inr p" for p
  proof
    assume again: "handle_step x t e' body later d'' = Inr p"
    then obtain a b where "p = (a, b)"
      by fastforce
    with again obtain d3 where "db_high_water d'' \<le> later" "check_fresh sg t later = Inr ()"
      "spend_nonce sc sg t later d'' = Inr d3"
      using read_spends [OF assms(6-8), of t e' later d'' a b] s(1)
        read_scope_kept [OF assms(3) inv2 s(2)] by auto
    then show False
      using refused by simp
  qed
  then show ?thesis
    by (cases "handle_step x t e' body later d''") (auto simp: handle_def run_step_def)
qed

end
