(* ===== verification/Core_Properties.thy ===== *)
theory Core_Properties
  imports Trustee_Core Slip39_Encoding Wire_Properties
begin

text \<open>
  What the protocol core of \<open>src/lib.rs\<close> promises: what an accepted enrollment has passed, that an
  honest holder's envelope is judged on its contents, and that custody once accepted can be
  released, to the candidate's key, byte for byte.
\<close>

section \<open>Accepting custody\<close>

text \<open>The sealed bytes open, under the context's info, to an envelope its holder signed.\<close>

definition opens_to :: "extern \<Rightarrow> trustee \<Rightarrow> enrollment_context \<Rightarrow> bytes \<Rightarrow> bytes \<Rightarrow> share_envelope \<Rightarrow> bool" where
  "opens_to x t c sealed plaintext e \<longleftrightarrow>
     open_sealed x (tr_hpke_key t) (context_info x c) sealed = Inr plaintext
     \<and> (case parse x plaintext of
          None \<Rightarrow> False
        | Some document \<Rightarrow> verified_envelope x document c = Inr e)"

lemma accept_enrollment_Inr:
  "accept_enrollment x t c sealed now = Inr en \<longleftrightarrow>
     ctx_implementation_profile_id c = IMPLEMENTATION_PROFILE_ID
     \<and> is_well_formed x c \<and> ctx_trustee_component_id c = tr_component_id t
     \<and> (\<exists>plaintext e. opens_to x t c sealed plaintext e \<and> admit_envelope x t e c now = Inr en)"
  by (auto simp: accept_enrollment_def opens_to_def result_iff split: option.splits)

lemma unat_below: "unat (w :: 'a::len word) < 2 ^ LENGTH('a)"
  by (fact unsigned_less)

lemma policy_bounds:
  assumes "policy x l pf = Inr p"
  shows "lim_min_cooldown_secs l \<le> cooldown_secs p \<and> cooldown_secs p \<le> lim_max_cooldown_secs l
    \<and> cooldown_secs p < session_lifetime_secs p
    \<and> session_lifetime_secs p \<le> lim_max_session_lifetime_secs l
    \<and> 1 \<le> maximum_attempts p \<and> maximum_attempts p \<le> lim_max_attempts l
    \<and> is_usable_verifying_key x (factor_key p)
    \<and> (\<exists>text. pf_candidate_factors pf = [FACTOR_ED25519_SESSION @ text] \<and> hex32 x text = Some (factor_key p))"
proof -
  obtain factor where pf: "pf_candidate_factors pf = [factor]"
    using assms by (auto simp: policy_def split: list.splits)
  have cast: "ucast m \<le> lim_max_attempts l \<and> 1 \<le> (ucast m :: u32)" if "1 \<le> m" "m \<le> ucast (lim_max_attempts l)" for m :: u64
  proof -
    have "unat (ucast (lim_max_attempts l) :: u64) = unat (lim_max_attempts l)"
      "unat (lim_max_attempts l) < 2 ^ 32" "unat (ucast m :: u32) = unat m mod 2 ^ 32"
      using unat_below [of "lim_max_attempts l"]
      by (simp_all add: unsigned_ucast_eq unsigned_take_bit_eq take_bit_eq_mod)
    then show ?thesis
      using that by (simp add: word_le_nat_alt)
  qed
  show ?thesis
    using assms by (auto simp: policy_def pf result_iff bind_eq_Some_conv Let_def cast split: if_splits)
qed

lemma admit_envelope_Inr:
  assumes "admit_envelope x t e c now = Inr en"
  shows "\<exists>share. validate (env_slip39_share e) = Inr share
      \<and> enr_member_index en = sh_member_index share \<and> enr_member_threshold en = sh_member_threshold share
      \<and> ucast (enr_member_index en) = env_member_index e
      \<and> ucast (enr_member_threshold en) = env_member_threshold e"
    and "env_member_index e < env_member_count e \<and> 2 \<le> env_member_threshold e
      \<and> env_member_threshold e \<le> env_member_count e \<and> env_member_count e \<le> 16"
    and "enr_context en = c" "enr_member_count en = ucast (env_member_count e)"
    and "hex32 x (env_authorization_public_key e) = Some (enr_authorization_key en)"
    and "policy x (tr_limits t) (env_trustee_policy e) = Inr (enr_policy en)"
    and "now < enr_expires_at en"
    and "enr_expires_at en \<le> i64_add now (lim_max_enrollment_term_secs (tr_limits t))"
    and "enr_created_at en \<le> i64_add now (lim_skew_secs (tr_limits t))"
  using assms by (auto simp: admit_envelope_def result_iff Let_def split: if_splits)

lemma verified_envelope_repeats:
  "verified_envelope x document c = Inr e \<Longrightarrow> repeats x e c"
  by (auto simp: verified_envelope_def result_iff Let_def split: if_splits)

lemma accepted_checks:
  assumes "accept_enrollment x t c sealed now = Inr en"
  shows "\<exists>plaintext e share. opens_to x t c sealed plaintext e
      \<and> validate (env_slip39_share e) = Inr share
      \<and> enr_member_index en = sh_member_index share \<and> enr_member_threshold en = sh_member_threshold share
      \<and> enr_member_index en < enr_member_count en \<and> 2 \<le> enr_member_threshold en
      \<and> enr_member_threshold en \<le> enr_member_count en \<and> enr_member_count en \<le> 16"
    and "enr_context en = c \<and> is_well_formed x c \<and> ctx_trustee_component_id c = tr_component_id t
      \<and> key_digest x (enr_authorization_key en) = ctx_authorization_key_digest c"
    and "now < enr_expires_at en
      \<and> enr_expires_at en \<le> i64_add now (lim_max_enrollment_term_secs (tr_limits t))"
    and "lim_min_cooldown_secs (tr_limits t) \<le> cooldown_secs (enr_policy en)
      \<and> cooldown_secs (enr_policy en) \<le> lim_max_cooldown_secs (tr_limits t)
      \<and> cooldown_secs (enr_policy en) < session_lifetime_secs (enr_policy en)
      \<and> session_lifetime_secs (enr_policy en) \<le> lim_max_session_lifetime_secs (tr_limits t)
      \<and> 1 \<le> maximum_attempts (enr_policy en)
      \<and> maximum_attempts (enr_policy en) \<le> lim_max_attempts (tr_limits t)"
proof -
  obtain plaintext e where e: "opens_to x t c sealed plaintext e" "admit_envelope x t e c now = Inr en"
    and ctx: "is_well_formed x c" "ctx_trustee_component_id c = tr_component_id t"
    using assms by (auto simp: accept_enrollment_Inr)
  note adm = admit_envelope_Inr [OF e(2)]
  obtain share where share: "validate (env_slip39_share e) = Inr share"
    "enr_member_index en = sh_member_index share" "enr_member_threshold en = sh_member_threshold share"
    "ucast (enr_member_index en) = env_member_index e"
    "ucast (enr_member_threshold en) = env_member_threshold e"
    using adm(1) by blast
  have small: "unat (ucast w :: u8) = unat w" if "w \<le> 16" for w :: u64
    using that by (simp add: word_le_nat_alt unsigned_ucast_eq unsigned_take_bit_eq take_bit_eq_mod)
  have wide: "unat (ucast w :: u64) = unat w" for w :: u8
    using unat_below [of w] by (simp add: unsigned_ucast_eq unsigned_take_bit_eq take_bit_eq_mod)
  have "enr_member_index en < enr_member_count en \<and> 2 \<le> enr_member_threshold en
      \<and> enr_member_threshold en \<le> enr_member_count en \<and> enr_member_count en \<le> 16"
    using adm(2,4) wide [of "enr_member_index en"] wide [of "enr_member_threshold en"]
      small [of "env_member_count e"] share(4,5)
    by (simp add: word_le_nat_alt word_less_nat_alt)
  then show "\<exists>plaintext e share. opens_to x t c sealed plaintext e
      \<and> validate (env_slip39_share e) = Inr share
      \<and> enr_member_index en = sh_member_index share \<and> enr_member_threshold en = sh_member_threshold share
      \<and> enr_member_index en < enr_member_count en \<and> 2 \<le> enr_member_threshold en
      \<and> enr_member_threshold en \<le> enr_member_count en \<and> enr_member_count en \<le> 16"
    using e(1) share by blast
  obtain document where "verified_envelope x document c = Inr e"
    using e(1) by (auto simp: opens_to_def split: option.splits)
  then have "map_option (key_digest x) (hex32 x (env_authorization_public_key e))
      = Some (ctx_authorization_key_digest c)"
    using verified_envelope_repeats by (simp add: repeats_def Let_def)
  then show "enr_context en = c \<and> is_well_formed x c \<and> ctx_trustee_component_id c = tr_component_id t
      \<and> key_digest x (enr_authorization_key en) = ctx_authorization_key_digest c"
    using adm(3,5) ctx by simp
qed (use assms in \<open>auto simp: accept_enrollment_Inr dest: admit_envelope_Inr policy_bounds\<close>)


section \<open>An honest holder\<close>

lemma holder_document_verified:
  assumes "base64_laws x" "ed25519_laws x" "envelope_text e" "repeats x e c"
    and "hex32 x (env_authorization_public_key e) = Some (ed25519_public_key x key)"
  shows "verified_envelope x (holder_document x key e) c = Inr e"
proof -
  have "signature x (base64_encode x (sign x key m)) = Some (sign x key m)" for m
    using assms(1,2) by (simp add: signature_iff sign_length)
  then show ?thesis
    using assms(4,5) by (simp add: verified_envelope_def holder_document_taken [OF assms(3)]
        envelope_written sign_verifies [OF assms(2)] Let_def)
qed

lemma holder_document_opens:
  assumes "json_laws x" "base64_laws x" "ed25519_laws x" "hpke_laws x"
    and "envelope_text e" "repeats x e c"
    and "hex32 x (env_authorization_public_key e) = Some (ed25519_public_key x key)"
    and "seal x entropy (public_key x t) (context_info x c) (canonical x (holder_document x key e)) = Inr sealed"
  shows "opens_to x t c sealed (canonical x (holder_document x key e)) e"
  using seal_opens [OF assms(4)] assms(8) holder_document_parses [OF assms(1,2,5)]
    holder_document_verified [OF assms(2,3,5,6,7)]
  by (simp add: opens_to_def public_key_def)

text \<open>
  C29: An honest holder's envelope is judged on its contents: when the holder signs an envelope that
  repeats the context and seals it to the published enrollment key under the context's info, the
  trustee opens it and its answer is the acceptance checks' answer on exactly that envelope.
\<close>
theorem honest_envelope_judged:
  assumes "json_laws x" "base64_laws x" "ed25519_laws x" "hpke_laws x"
    and "envelope_text e" "repeats x e c"
    and "hex32 x (env_authorization_public_key e) = Some (ed25519_public_key x key)"
    and "seal x entropy (public_key x t) (context_info x c) (canonical x (holder_document x key e)) = Inr sealed"
    and "ctx_implementation_profile_id c = IMPLEMENTATION_PROFILE_ID" "is_well_formed x c"
    and "ctx_trustee_component_id c = tr_component_id t"
  shows "accept_enrollment x t c sealed now = admit_envelope x t e c now"
  using holder_document_opens [OF assms(1-8)] assms(9-11)
  by (auto simp: accept_enrollment_def opens_to_def split: option.splits)

section \<open>Releasing custody\<close>

text \<open>
  Whether sealing to a public key works depends on the key only: RFC 9180 fails when the shared
  secret is zero, for every ephemeral key alike.
\<close>

definition seal_key_laws :: "extern \<Rightarrow> bool" where
  "seal_key_laws x \<longleftrightarrow>
     (\<forall>e pk i p. single_shot_seal x e pk i p \<noteq> None \<longrightarrow>
        (\<forall>e' i' p'. single_shot_seal x e' pk i' p' \<noteq> None))"

lemma seal_again:
  assumes "seal_key_laws x" "seal x e pk i p = Inr c"
  shows "\<exists>c'. seal x e' pk i' p' = Inr c'"
proof -
  have "kem_public_key_ok x pk" "single_shot_seal x e pk i p \<noteq> None"
    using assms(2) by (auto simp: seal_def split: if_splits option.splits)
  moreover from this obtain q where "single_shot_seal x e' pk i' p' = Some q"
    using assms(1) unfolding seal_key_laws_def by blast
  ultimately show ?thesis
    by (cases q) (simp add: seal_def)
qed

lemma verified_session_seals:
  "verify_session x e raw = Inr s \<Longrightarrow>
     \<exists>c. seal x e (ses_destination_key s) (as_bytes ''onym-destination-check'') [] = Inr c"
  by (auto simp: verify_session_def result_iff Let_def is_ok_iff split: if_splits)

definition contribution_of ::
  "extern \<Rightarrow> enrollment_context \<Rightarrow> session \<Rightarrow> bytes \<Rightarrow> string \<Rightarrow> string \<Rightarrow> approval" where
  "contribution_of x c s resealed decided_at expires_at =
     \<lparr>ap_contribution_version = 1, ap_session_id = ses_session_id s,
      ap_enrollment_id = ctx_enrollment_id c, ap_enrollment_sequence = ctx_enrollment_sequence c,
      ap_policy_digest = ctx_policy_digest c, ap_artifact_id = ctx_artifact_id c,
      ap_artifact_digest = ctx_artifact_digest c, ap_component_id = ctx_trustee_component_id c,
      ap_slot = ctx_slot c, ap_decision = ''approved'',
      ap_destination_keys_digest = ses_destination_keys_digest s,
      ap_sealed_contribution = base64_encode x resealed, ap_decided_at = decided_at,
      ap_expires_at = expires_at\<rparr>"

lemma release_contribution_Inr:
  "release_contribution x t entropy en sealed s now = Inr con \<longleftrightarrow>
     binds s (enr_context en)
     \<and> (\<exists>plaintext e expires_at decided_at resealed.
          opens_to x t (enr_context en) sealed plaintext e
          \<and> format_timestamp x (ses_expires_at s) = Some expires_at
          \<and> format_timestamp x now = Some decided_at
          \<and> seal x entropy (ses_destination_key s)
              (recovery_info x (ses_session_id s) (enr_context en) (ses_destination_keys_digest s)
                expires_at) plaintext = Inr resealed
          \<and> con = \<lparr>con_canonical = sign_object x
                (approval_json (contribution_of x (enr_context en) s resealed decided_at expires_at))
                (tr_signing_key t),
              con_sealed_digest = digest x resealed\<rparr>)"
  by (auto simp: release_contribution_def opens_to_def contribution_of_def result_iff Let_def
      split: option.splits)

lemma custody_releasable:
  assumes "accept_enrollment x t c sealed accepted_at = Inr en"
    and "verify_session x e raw = Inr s" "binds s c" "seal_key_laws x"
    and "format_timestamp x (ses_expires_at s) \<noteq> None" "format_timestamp x now \<noteq> None"
  shows "\<exists>con. release_contribution x t entropy en sealed s now = Inr con"
proof -
  obtain plaintext env where "opens_to x t c sealed plaintext env" "admit_envelope x t env c accepted_at = Inr en"
    using assms(1) by (auto simp: accept_enrollment_Inr)
  moreover from this have "enr_context en = c"
    using admit_envelope_Inr by blast
  moreover obtain ct where "seal x e (ses_destination_key s) (as_bytes ''onym-destination-check'') [] = Inr ct"
    using verified_session_seals [OF assms(2)] by blast
  ultimately show ?thesis
    using assms(3,5,6) seal_again [OF assms(4)] unfolding release_contribution_Inr by fastforce
qed

lemma verified_session_text:
  assumes "hex_laws x" "verify_session x e raw = Inr s"
  shows "utf8_valid (ses_session_id s)" "utf8_valid (ses_destination_keys_digest s)"
proof -
  obtain b where "hex32 x (ses_session_id s) = Some b"
    using assms(2) by (auto simp: verify_session_def result_iff Let_def split: if_splits)
  then show "utf8_valid (ses_session_id s)"
    using hex32_ascii ascii_utf8 by blast
  obtain v where "ses_destination_keys_digest s = destination_keys_digest x v"
    using assms(2) by (auto simp: verify_session_def result_iff Let_def split: if_splits)
  then show "utf8_valid (ses_destination_keys_digest s)"
    using digest_ascii [OF assms(1)] ascii_utf8 by (simp add: destination_keys_digest_def)
qed

lemma timestamp_text: "time_laws x \<Longrightarrow> format_timestamp x s = Some w \<Longrightarrow> utf8_valid w"
  by (auto simp: time_laws_def format_timestamp_def intro: ascii_utf8)

definition approval_names :: "string list" where
  "approval_names = [''contributionVersion'', ''sessionId'', ''enrollmentId'', ''enrollmentSequence'',
     ''policyDigest'', ''artifactId'', ''artifactDigest'', ''componentId'', ''slot'', ''decision'',
     ''destinationKeysDigest'', ''sealedContribution'', ''decidedAt'', ''expiresAt'']"

lemma approval_names_text: "list_all utf8_valid (''approved'' # approval_names)"
proof -
  have "list_all ascii (''approved'' # approval_names)"
    by (simp add: approval_names_def in_bytes_def)
  then show ?thesis
    by (auto simp: list_all_iff ascii_utf8)
qed

lemma contribution_signable:
  assumes "base64_laws x" "is_well_formed x c" "list_all utf8_valid [ses_session_id s, ses_destination_keys_digest s, u, w]"
  shows "signable ''signature'' (approval_json (contribution_of x c s r u w))"
proof -
  have "plain_value (approval_json (contribution_of x c s r u w))"
    "json_depth (approval_json (contribution_of x c s r u w)) \<le> 127"
    unfolding approval_json_def
    by (intro plain_json_object; use assms(3) well_formed_text [OF assms(2)] base64_text [OF assms(1)]
        approval_names_text in \<open>simp add: contribution_of_def approval_names_def\<close>)+
  moreover have "is_object (approval_json (contribution_of x c s r u w))"
    "take_field ''signature'' (approval_json (contribution_of x c s r u w)) = None"
    by (simp_all add: approval_json_def json_object_def map_of_btree_of)
  ultimately show ?thesis
    by (simp add: signable_def)
qed

lemma contribution_sealed_member:
  "index_field (set_field ''signature'' (JString g) (approval_json (contribution_of x c s r u w)))
     ''sealedContribution'' = JString (base64_encode x r)"
  by (simp add: approval_json_def json_object_def btree_insert_map_of map_of_btree_of contribution_of_def)

lemma contribution_opened:
  assumes "json_laws x" "base64_laws x" "hpke_laws x" "hex_laws x" "time_laws x"
    and "is_well_formed x (enr_context en)" "verify_session x e raw = Inr s"
    and "ses_destination_key s = hpke_public_key x dk"
    and "release_contribution x t entropy en sealed s now = Inr con"
  shows "\<exists>obj r w plaintext env. signable ''signature'' obj
    \<and> parse x (con_canonical con)
        = Some (set_field ''signature'' (JString (base64_encode x (sign x (tr_signing_key t) (canonical x obj)))) obj)
    \<and> (\<forall>g. index_field (set_field ''signature'' (JString g) obj) ''sealedContribution'' = JString (base64_encode x r))
    \<and> con_sealed_digest con = digest x r \<and> format_timestamp x (ses_expires_at s) = Some w
    \<and> open_sealed x dk (recovery_info x (ses_session_id s) (enr_context en) (ses_destination_keys_digest s) w) r
        = Inr plaintext
    \<and> opens_to x t (enr_context en) sealed plaintext env"
proof -
  let ?c = "enr_context en"
  obtain plaintext env w u r where rel: "opens_to x t ?c sealed plaintext env"
    "format_timestamp x (ses_expires_at s) = Some w" "format_timestamp x now = Some u"
    "seal x entropy (ses_destination_key s) (recovery_info x (ses_session_id s) ?c
       (ses_destination_keys_digest s) w) plaintext = Inr r"
    "con = \<lparr>con_canonical = sign_object x (approval_json (contribution_of x ?c s r u w)) (tr_signing_key t),
       con_sealed_digest = digest x r\<rparr>"
    using assms(9) unfolding release_contribution_Inr by blast
  have sig: "signable ''signature'' (approval_json (contribution_of x ?c s r u w))"
    using verified_session_text [OF assms(4,7)] timestamp_text [OF assms(5)] rel(2,3)
    by (intro contribution_signable [OF assms(2,6)]) simp
  moreover have "open_sealed x dk (recovery_info x (ses_session_id s) ?c (ses_destination_keys_digest s) w) r
      = Inr plaintext"
    using seal_opens [OF assms(3)] rel(4) assms(8) by simp
  ultimately show ?thesis
    using rel(1,2,5) signed_object_parses [OF assms(1,2) sig] contribution_sealed_member [of _ x ?c s r u w]
    by (intro exI [of _ "approval_json (contribution_of x ?c s r u w)"] exI [of _ r] exI [of _ w]
        exI [of _ plaintext] exI [of _ env]) simp
qed

text \<open>
  C13: The candidate receives exactly what was enrolled: a contribution parses to an object signed
  by the trustee's operator key, and its sealed member opens, with the private key of the session's
  destination and under the release info, to the very bytes the holder sealed for enrollment.
\<close>
theorem contribution_reaches_candidate:
  assumes "json_laws x" "base64_laws x" "ed25519_laws x" "hpke_laws x" "hex_laws x" "time_laws x"
    and "is_well_formed x (enr_context en)" "verify_session x e raw = Inr s"
    and "ses_destination_key s = hpke_public_key x dk"
    and "release_contribution x t entropy en sealed s now = Inr con"
  shows "\<exists>v tx u sg r plaintext env exp. parse x (con_canonical con) = Some v
    \<and> take_string ''signature'' v = Some (tx, u) \<and> signature x tx = Some sg
    \<and> verify x (ed25519_public_key x (tr_signing_key t)) (canonical x u) sg = Inr ()
    \<and> index_field v ''sealedContribution'' = JString (base64_encode x r)
    \<and> con_sealed_digest con = digest x r
    \<and> format_timestamp x (ses_expires_at s) = Some exp
    \<and> open_sealed x dk (recovery_info x (ses_session_id s) (enr_context en)
        (ses_destination_keys_digest s) exp) r = Inr plaintext
    \<and> opens_to x t (enr_context en) sealed plaintext env"
proof -
  obtain obj r w plaintext env where opened: "signable ''signature'' obj"
    "parse x (con_canonical con)
       = Some (set_field ''signature'' (JString (base64_encode x (sign x (tr_signing_key t) (canonical x obj)))) obj)"
    "\<forall>g. index_field (set_field ''signature'' (JString g) obj) ''sealedContribution'' = JString (base64_encode x r)"
    "con_sealed_digest con = digest x r" "format_timestamp x (ses_expires_at s) = Some w"
    "open_sealed x dk (recovery_info x (ses_session_id s) (enr_context en) (ses_destination_keys_digest s) w) r
       = Inr plaintext"
    "opens_to x t (enr_context en) sealed plaintext env"
    using contribution_opened [OF assms(1,2,4-10)] by blast
  moreover have "signature x (base64_encode x (sign x (tr_signing_key t) (canonical x obj)))
      = Some (sign x (tr_signing_key t) (canonical x obj))"
    using assms(2,3) by (simp add: signature_iff sign_length)
  ultimately show ?thesis
    using member_added_taken [OF opened(1)] sign_verifies [OF assms(3)] by metis
qed

section \<open>An honest candidate\<close>

text \<open>The evidence a candidate presents: each factor with its signature.\<close>

definition evidence_texts :: "extern \<Rightarrow> (string \<times> bytes) list \<Rightarrow> (string \<times> string) list" where
  "evidence_texts x fs = map (\<lambda>(f, sg). (f, base64_encode x sg)) fs"

definition core_well_formed :: "extern \<Rightarrow> session_core \<Rightarrow> bool" where
  "core_well_formed x c \<longleftrightarrow>
     core_session_version c = 1
     \<and> hex32 x (core_session_id c) \<noteq> None \<and> hex32 x (core_enrollment_id c) \<noteq> None
     \<and> sequence (core_enrollment_sequence c) \<noteq> None \<and> is_digest x (core_policy_digest c)
     \<and> hex32 x (core_artifact_id c) \<noteq> None \<and> is_digest x (core_artifact_digest c)
     \<and> dst_encryption_suite (core_destination c) = ENCRYPTION_SUITE
     \<and> dst_proof_suite (core_destination c) = PROOF_SUITE"

definition session_of ::
  "extern \<Rightarrow> bytes \<Rightarrow> session_core \<Rightarrow> (string \<times> bytes) list \<Rightarrow> bytes \<Rightarrow> i64 \<Rightarrow> i64 \<Rightarrow> session" where
  "session_of x key c fs dk requested_at expires_at =
     \<lparr>ses_session_id = core_session_id c, ses_enrollment_id = core_enrollment_id c,
      ses_enrollment_sequence = core_enrollment_sequence c, ses_policy_digest = core_policy_digest c,
      ses_artifact_id = core_artifact_id c, ses_artifact_digest = core_artifact_digest c,
      ses_destination_key = dk,
      ses_destination_keys_digest = destination_keys_digest x (index_field (core_json c) ''destination''),
      ses_proof_key = ed25519_public_key x key,
      ses_session_commitment = digest x (canonical x (core_json c)),
      ses_requested_at = requested_at, ses_expires_at = expires_at,
      ses_evidence = map (\<lambda>(f, sg). \<lparr>ev_factor = f, ev_signature = sg\<rparr>) fs,
      ses_canonical = canonical x (candidate_document x key c (evidence_texts x fs))\<rparr>"

lemma evidence_list_written:
  assumes "base64_laws x" "list_all (\<lambda>(f, sg). length sg = 64) fs"
  shows "evidence_list x (evidence_json (evidence_texts x fs))
    = Some (map (\<lambda>(f, sg). \<lparr>ev_factor = f, ev_signature = sg\<rparr>) fs)"
proof -
  have "map (\<lambda>(f, sg). map_option (\<lambda>s. \<lparr>ev_factor = f, ev_signature = s\<rparr>) (signature x sg)) (evidence_texts x fs)
      = map (Some \<circ> (\<lambda>(f, sg). \<lparr>ev_factor = f, ev_signature = sg\<rparr>)) fs"
    using assms by (auto simp: evidence_texts_def list_all_iff signature_iff)
  then show ?thesis
    by (simp add: evidence_list_def evidence_written)
qed

lemma candidate_session_verified:
  assumes "json_laws x" "base64_laws x" "ed25519_laws x"
    and "core_text c" "core_well_formed x c" "list_all (\<lambda>(f, sg). utf8_valid f \<and> length sg = 64) fs"
    and "hex32 x (dst_proof_public_key (core_destination c)) = Some (ed25519_public_key x key)"
    and "hex32 x (dst_encryption_public_key (core_destination c)) = Some dk"
    and "timestamp x (core_requested_at c) = Some requested_at"
    and "timestamp x (core_expires_at c) = Some expires_at"
    and "seal x e dk (as_bytes ''onym-destination-check'') [] = Inr ct"
  shows "verify_session x e (canonical x (candidate_document x key c (evidence_texts x fs)))
    = Inr (session_of x key c fs dk requested_at expires_at)"
proof -
  have ev: "list_all (\<lambda>(f, s). utf8_valid f \<and> utf8_valid s) (evidence_texts x fs)"
    "list_all (\<lambda>(f, sg). length sg = 64) fs"
    using assms(6) base64_text [OF assms(2)] by (auto simp: evidence_texts_def list_all_iff)
  have sig: "signature x (base64_encode x (sign x key m)) = Some (sign x key m)" for m
    using assms(2,3) by (simp add: signature_iff sign_length)
  show ?thesis
    using assms(5,7-) sig
    by (simp add: verify_session_def candidate_document_parses [OF assms(1,2,4) ev(1)]
        candidate_document_taken [OF assms(4) ev(1)] evidenced_signable(2) [OF assms(4) ev(1)]
        core_written evidence_list_written [OF assms(2) ev(2)] sign_verifies [OF assms(3)]
        core_well_formed_def session_of_def Let_def)
qed

text \<open>
  C30: An honest candidate's session verifies: a well-formed session that the candidate's fresh key
  signs, whose destination key can be sealed to, verifies to exactly the session the candidate
  meant, with the commitment its factors sign and the canonical bytes a retry is compared with.
\<close>
theorem honest_session_verified:
  assumes "json_laws x" "base64_laws x" "ed25519_laws x"
    and "core_text c" "core_well_formed x c" "list_all (\<lambda>(f, sg). utf8_valid f \<and> length sg = 64) fs"
    and "hex32 x (dst_proof_public_key (core_destination c)) = Some (ed25519_public_key x key)"
    and "hex32 x (dst_encryption_public_key (core_destination c)) = Some dk"
    and "timestamp x (core_requested_at c) = Some requested_at"
    and "timestamp x (core_expires_at c) = Some expires_at"
    and "seal x e dk (as_bytes ''onym-destination-check'') [] = Inr ct"
  shows "verify_session x e (canonical x (candidate_document x key c (evidence_texts x fs)))
    = Inr (session_of x key c fs dk requested_at expires_at)"
  by (rule candidate_session_verified [OF assms])

text \<open>
  The enrolled factor opens the door: one presentation of the enrolled factor, signed by its
  key over this session's commitment, this trustee and this slot, passes the factor check.
\<close>
lemma enrolled_factor_accepted:
  assumes "ed25519_laws x" "factor_key (enr_policy en) = ed25519_public_key x fk"
    and "ses_evidence s = [\<lparr>ev_factor = FACTOR_ED25519_SESSION @ hex_encode x (ed25519_public_key x fk),
      ev_signature = sign x fk (factor_message x (ses_session_commitment s)
        (ctx_trustee_component_id (enr_context en)) (ctx_slot (enr_context en)))\<rparr>]"
  shows "check_factor x en s = Inr ()"
  using assms(2,3) sign_verifies [OF assms(1)] by (simp add: check_factor_def Let_def)

end
