(* ===== verification/Store_Custody.thy ===== *)
theory Store_Custody
  imports Store_Replay Core_Properties
begin

text \<open>
  What the store holds stays releasable: every stored envelope is one the core accepted for the
  stored enrollment, every stored session one that verified for its enrollment. Both are facts
  that last, so a candidate who comes back when the cooldown is over is served.
\<close>

section \<open>A session verifies again\<close>

lemma verify_any_entropy:
  assumes "seal_key_laws x"
  shows "verify_session x e raw = verify_session x e' raw"
proof -
  have same: "is_ok (seal x e pk i p) = is_ok (seal x e' pk i p)" for pk i p
    using seal_again [OF assms] by (metis is_ok_iff)
  show ?thesis
    unfolding verify_session_def same ..
qed

lemma evidence_list_vec: "evidence_list x v = Some es \<Longrightarrow> as_vec evidence_of_json v \<noteq> None"
  by (auto simp: evidence_list_def bind_eq_Some_conv)

lemma verified_session_no_float:
  assumes "verify_session x e raw = Inr s" "parse x raw = Some v"
  shows "no_float v"
proof -
  obtain proof_text v1 ev v2 where v: "take_string ''candidateProof'' v = Some (proof_text, v1)"
    "take_field ''candidateEvidence'' v1 = Some (ev, v2)" "core_of_json v2 \<noteq> None" "evidence_list x ev \<noteq> None"
    using assms by (auto simp: verify_session_def result_iff Let_def split: if_splits)
  have o: "ordered_value v"
    using assms(2) parse_object by blast
  have tf: "take_field ''candidateProof'' v = Some (JString proof_text, v1)"
    using v(1) by (simp only: take_string_field)
  have "session_form v1"
    using v(2-4) evidence_list_vec by (auto simp: session_form_def)
  then have "no_float v1"
    using session_no_float take_field_ordered [OF tf o] by blast
  then show ?thesis
    using take_field_no_float [OF tf o] by simp
qed

lemma verify_again:
  assumes "json_laws x" "seal_key_laws x" "verify_session x e raw = Inr s"
  shows "verify_session x e' (ses_canonical s) = Inr s"
proof -
  obtain v where v: "parse x raw = Some v"
    using assms(3) by (auto simp: verify_session_def result_iff)
  have c: "ses_canonical s = canonical x v"
    using assms(3) v by (auto simp: verify_session_def result_iff Let_def split: if_splits)
  have again: "parse x (canonical x v) = Some v"
    using parse_again [OF assms(1) v] verified_session_no_float [OF assms(3) v] .
  have "verify_session x e' (canonical x v) = verify_session x e' raw"
    by (simp add: verify_session_def v again)
  then show ?thesis
    using c assms(3) verify_any_entropy [OF assms(2), of e' raw e] by simp
qed

section \<open>What is held\<close>

definition row_held :: "extern \<Rightarrow> trustee \<Rightarrow> enrollment_row \<Rightarrow> bool" where
  "row_held x t r \<longleftrightarrow>
     (erow_status r = Accepted \<longrightarrow>
        (\<exists>sealed at. erow_sealed_envelope r = Some sealed
           \<and> accept_enrollment x t (enr_context (erow_enrollment r)) sealed at = Inr (erow_enrollment r)))"

definition session_held :: "extern \<Rightarrow> enrollment \<Rightarrow> session_row \<Rightarrow> bool" where
  "session_held x en s \<longleftrightarrow>
     (\<exists>e v. verify_session x e (srow_request s) = Inr v \<and> binds v (enr_context en)
        \<and> ses_session_id v = srow_session_id s \<and> ses_expires_at v = srow_expires_at s
        \<and> ses_proof_key v = srow_proof_key s)"

definition held_as :: "enrollment_row \<Rightarrow> (string \<times> u64) \<times> enrollment" where
  "held_as r = (enrollment_key r, erow_enrollment r)"

definition custody_ok :: "extern \<Rightarrow> trustee \<Rightarrow> db \<Rightarrow> bool" where
  "custody_ok x t d \<longleftrightarrow>
     (\<forall>r\<in>set (db_enrollments d). row_held x t r)
     \<and> (\<forall>s\<in>set (db_sessions d). \<exists>en. (session_key s, en) \<in> set (map held_as (db_enrollments d))
          \<and> session_held x en s)"

lemma held_as_updates [simp]:
  "held_as (r\<lparr>erow_attempts_used := n\<rparr>) = held_as r"
  "held_as (r\<lparr>erow_status := st, erow_sealed_envelope := se, erow_protected_artifact := pa\<rparr>) = held_as r"
  by (simp_all add: held_as_def enrollment_key_def)

lemma session_held_updates [simp]:
  "session_held x en (s\<lparr>srow_status := st\<rparr>) = session_held x en s"
  "session_held x en (s\<lparr>srow_status := st, srow_contribution := c\<rparr>) = session_held x en s"
  by (simp_all add: session_held_def)

lemma session_key_updates [simp]:
  "session_key (s\<lparr>srow_status := st\<rparr>) = session_key s"
  "session_key (s\<lparr>srow_status := st, srow_contribution := c\<rparr>) = session_key s"
  by (simp_all add: session_key_def)

lemma custody_ok_frame:
  "custody_ok x t d \<Longrightarrow> db_enrollments d' = db_enrollments d \<Longrightarrow> db_sessions d' = db_sessions d \<Longrightarrow>
     custody_ok x t d'"
  by (simp add: custody_ok_def)

lemma custody_ok_sessions:
  assumes "custody_ok x t d" "db_enrollments d' = db_enrollments d" "db_sessions d' = update_rows P f (db_sessions d)"
    and "\<And>s. session_key (f s) = session_key s" "\<And>en s. session_held x en (f s) = session_held x en s"
  shows "custody_ok x t d'"
  unfolding custody_ok_def assms(2,3)
  by (intro conjI update_rows_all) (use assms(1,4,5) in \<open>auto simp: custody_ok_def\<close>)

lemma custody_ok_enrollments:
  assumes "custody_ok x t d" "db_sessions d' = db_sessions d" "db_enrollments d' = update_rows P f (db_enrollments d)"
    and "\<And>r. held_as (f r) = held_as r" "\<And>r. row_held x t r \<Longrightarrow> row_held x t (f r)"
  shows "custody_ok x t d'"
  unfolding custody_ok_def assms(2,3) map_update_rows [of held_as f, OF assms(4)]
  by (intro conjI update_rows_all) (use assms(1,5) in \<open>auto simp: custody_ok_def\<close>)

lemma custody_ok_step:
  assumes "json_laws x" "seal_key_laws x" "store_inv d" "custody_ok x t d" "store_step x t now d d'"
  shows "custody_ok x t d'"
  using assms(5)
proof cases
  case (step_enroll c i sealed en artifact request_digest rows)
  have "row_held x t (enrolled_row en request_digest now sealed artifact)"
    using step_enroll(4,8) by (auto simp: row_held_def)
  then show ?thesis
    using assms(4) step_enroll(1,9)
    by (simp add: custody_ok_def spend_challenge_def result_iff) blast
next
  case (step_begin entropy raw s row adm st rows)
  let ?d = "d\<lparr>db_enrollments := count_attempt (erow_enrollment row) (db_enrollments d)\<rparr>"
  have counted: "custody_ok x t ?d"
    by (rule custody_ok_enrollments [OF assms(4), where
          f = "\<lambda>r. r\<lparr>erow_attempts_used := erow_attempts_used r + 1\<rparr>"
          and P = "\<lambda>r. enrollment_key r = (ctx_enrollment_id (enr_context (erow_enrollment row)),
            ctx_enrollment_sequence (enr_context (erow_enrollment row)))"]) (simp_all add: row_held_def)
  have row: "row \<in> set (db_enrollments d)"
    using step_begin(5) by (auto dest: load_current_Some)
  have key: "held_as row = ((ctx_enrollment_id (enr_context (erow_enrollment row)),
      ctx_enrollment_sequence (enr_context (erow_enrollment row))), erow_enrollment row)"
    using assms(3) row by (auto simp: held_as_def store_inv_def enrollments_ok_def dest: enrollment_key_ok)
  have "session_held x (erow_enrollment row) (begun_row row s st adm now)"
    using verify_again [OF assms(1,2) step_begin(3)] step_begin(6,7)
    by (auto simp: session_held_def admit_Inr)
  moreover have "(session_key (begun_row row s st adm now), erow_enrollment row)
      \<in> set (map held_as (db_enrollments ?d))"
    using row key map_update_rows [of held_as "\<lambda>r. r\<lparr>erow_attempts_used := erow_attempts_used r + 1\<rparr>"]
    by (simp add: session_key_def image_iff) metis
  ultimately show ?thesis
    using counted step_begin(1,10) by (fastforce simp: custody_ok_def result_iff)
next
  case (step_release i s sg row sealed entropy verified entropy' con d2)
  then have "db_enrollments d' = db_enrollments d"
    "db_sessions d' = release_row i (con_canonical con) (db_sessions d)"
    by (auto simp: spend_nonce_Inr)
  then show ?thesis
    by (rule custody_ok_sessions [OF assms(4)]) simp_all
next
  case (step_cancel i s row sg by_holder st old_state new_state d2)
  then have "db_enrollments d' = db_enrollments d" "db_sessions d' = set_status i st (db_sessions d)"
    by (auto simp: record_outcome_Inr)
  then show ?thesis
    by (rule custody_ok_sessions [OF assms(4)]) simp_all
next
  case (step_end i row sg old_state new_state d2)
  then have "db_sessions d' = db_sessions d" "db_enrollments d' = end_row (erow_enrollment row)
      (ended_status (sg_operation sg) (erow_status row)) (db_enrollments d)"
    by (auto simp: record_outcome_Inr)
  then show ?thesis
    by (rule custody_ok_enrollments [OF assms(4)]) (simp_all add: row_held_def ended_status_def)
qed (use assms(4) in \<open>auto elim!: custody_ok_frame simp: spend_nonce_Inr spend_challenge_def\<close>)

interpretation custody: lasting_fact "some_step x t" store_inv evolves
  "\<lambda>d. json_laws x \<longrightarrow> seal_key_laws x \<longrightarrow> custody_ok x t d" for x t
  by unfold_locales (auto simp: some_step_def intro: custody_ok_step)

lemma new_db_empty: "db_enrollments new_db = [] \<and> db_sessions new_db = []"
  by (simp add: new_db_def empty_db_def MIGRATIONS_def setup_store.simps)

lemma reached_custody:
  "json_laws x \<Longrightarrow> seal_key_laws x \<Longrightarrow> custody_ok x t (serve x t events new_db)"
  using custody.run_fact [OF serve_steps new_db_inv, of x t] new_db_empty
  by (simp add: custody_ok_def)

section \<open>A due recovery is served\<close>

lemma session_row_enrollment:
  assumes "store_inv d" "load_session d i = Some s" "session_enrollment d s = Inr row"
  shows "row \<in> set (db_enrollments d)" "enrollment_key row = session_key s" "s \<in> set (db_sessions d)"
    "srow_sequence s = es_sequence (erow_state row)"
proof -
  show row: "row \<in> set (db_enrollments d)" "enrollment_key row = session_key s"
    using assms(3) by (auto simp: session_enrollment_def load_enrollment_def result_simps session_key_def
        dest!: at_key_Some)
  show "s \<in> set (db_sessions d)"
    using assms(2) load_session_in by blast
  show "srow_sequence s = es_sequence (erow_state row)"
    using row assms(1) by (auto simp: store_inv_def enrollments_ok_def enrollment_ok_def erow_state_def
        enrollment_key_def session_key_def Let_def)
qed

lemma session_releasable:
  assumes "seal_key_laws x" "store_inv d" "custody_ok x t d" "load_session d i = Some s"
    and "session_enrollment d s = Inr row" "erow_status row = Accepted"
    and "format_timestamp x (srow_expires_at s) \<noteq> None" "format_timestamp x now \<noteq> None"
  shows "\<exists>sealed v con. erow_sealed_envelope row = Some sealed
    \<and> is_well_formed x (enr_context (erow_enrollment row))
    \<and> verify_session x e (srow_request s) = Inr v \<and> ses_session_id v = i
    \<and> release_contribution x t e' (erow_enrollment row) sealed v now = Inr con"
proof -
  note row = session_row_enrollment [OF assms(2,4,5)]
  obtain en where en: "(session_key s, en) \<in> set (map held_as (db_enrollments d))" "session_held x en s"
    using assms(3) row(3) unfolding custody_ok_def by blast
  have "en = erow_enrollment row"
    using en(1) row(1,2) assms(2)
    by (auto simp: held_as_def store_inv_def keys_ok_def distinct_map enrollment_key_def session_key_def
        dest: inj_onD)
  then obtain f v where v: "verify_session x f (srow_request s) = Inr v"
    "binds v (enr_context (erow_enrollment row))" "ses_session_id v = srow_session_id s"
    "ses_expires_at v = srow_expires_at s"
    using en(2) by (auto simp: session_held_def)
  obtain sealed at where acc: "erow_sealed_envelope row = Some sealed"
    "accept_enrollment x t (enr_context (erow_enrollment row)) sealed at = Inr (erow_enrollment row)"
    using assms(3,6) row(1) by (auto simp: custody_ok_def row_held_def)
  obtain con where "release_contribution x t e' (erow_enrollment row) sealed v now = Inr con"
    using custody_releasable [OF acc(2) v(1,2) assms(1)] v(4) assms(7,8) by auto
  moreover have "verify_session x e (srow_request s) = Inr v"
    using v(1) verify_any_entropy [OF assms(1)] by metis
  moreover have "ses_session_id v = i"
    using v(3) assms(4) by (auto simp: load_session_def dest: at_key_Some)
  moreover have "is_well_formed x (enr_context (erow_enrollment row))"
    using acc(2) by (simp add: accept_enrollment_Inr)
  ultimately show ?thesis
    using acc(1) by blast
qed

lemma contribution_parses:
  assumes "json_laws x" "base64_laws x" "hex_laws x" "time_laws x" "is_well_formed x (enr_context en)"
    and "verify_session x e raw = Inr s" "release_contribution x t entropy en sealed s now = Inr con"
  shows "\<exists>v. parse x (con_canonical con) = Some v"
proof -
  obtain u w r where rel: "format_timestamp x (ses_expires_at s) = Some w" "format_timestamp x now = Some u"
    "con_canonical con = sign_object x (approval_json (contribution_of x (enr_context en) s r u w)) (tr_signing_key t)"
    using assms(7) unfolding release_contribution_Inr by fastforce
  have "signable ''signature'' (approval_json (contribution_of x (enr_context en) s r u w))"
    using verified_session_text [OF assms(3,6)] timestamp_text [OF assms(4)] rel(1,2)
    by (intro contribution_signable [OF assms(2,5)]) simp
  then show ?thesis
    using signed_object_parses [OF assms(1,2)] rel(3) by simp
qed

lemma unused_nonce:
  assumes "(scope_key sc, sg_request_id sg) \<notin> nonce_key ` set (db_nonces d)"
  shows "\<exists>ns. spend_nonce sc sg t now (d\<lparr>db_high_water := n\<rparr>) = Inr (d\<lparr>db_high_water := n, db_nonces := ns\<rparr>)"
  using assms by (auto simp: spend_nonce_def insert_row_def nonce_key_def Let_def image_iff)

text \<open>The receipt of a poll that releases.\<close>

definition release_receipt ::
  "extern \<Rightarrow> trustee \<Rightarrow> enrollment \<Rightarrow> session_row \<Rightarrow> string \<Rightarrow> i64 \<Rightarrow> json \<Rightarrow> receipt outcome" where
  "release_receipt x t en s request_id now v =
     and_then (session_receipt_fields x t s en ''read-recovery'') (\<lambda>r.
     and_then (time x now) (\<lambda>recorded_at.
     Inr (r\<lparr>rc_request_id := request_id,
       rc_old_state := session_state_name (srow_status s) (srow_cooldown_ends_at s) (srow_expires_at s) now,
       rc_new_state := session_state_name Released (srow_cooldown_ends_at s) (srow_expires_at s) now,
       rc_reason := session_reason Released,
       rc_recorded_at := recorded_at,
       rc_contribution := Some v\<rparr>)))"

lemma release_receipt_made:
  assumes "format_timestamp x now \<noteq> None" "format_timestamp x (srow_expires_at s) \<noteq> None"
    and "format_timestamp x (srow_cooldown_ends_at s) \<noteq> None"
  shows "\<exists>rc. release_receipt x t en s i now v = Inr rc"
  using assms by (auto simp: release_receipt_def session_receipt_fields_def time_def)

lemma due_read:
  assumes "db_high_water d \<le> now" "load_session d i = Some s" "sg_target sg = i"
    and "verify_signature x sg (srow_proof_key s) = Inr ()" "check_fresh sg t now = Inr ()"
    and "(scope_key (Scope_Session i), sg_request_id sg) \<notin> nonce_key ` set (db_nonces d)"
    and "session_enrollment d s = Inr row"
    and "release (erow_state row) (srow_state s) now (db_high_water d) = Inr Emit"
    and "erow_sealed_envelope row = Some sealed" "verify_session x (ent_check e) (srow_request s) = Inr verified"
    and "release_contribution x t (ent_seal e) (erow_enrollment row) sealed verified now = Inr con"
    and "parse x (con_canonical con) = Some v"
    and "release_receipt x t (erow_enrollment row) s (sg_request_id sg) now v = Inr rc"
  shows "\<exists>ns. read_recovery x t e sg now d =
    Inr (d\<lparr>db_high_water := now, db_nonces := ns,
           db_sessions := release_row i (con_canonical con) (db_sessions d)\<rparr>,
         Inr (sign_object x (receipt_json rc) (tr_signing_key t)))"
proof -
  obtain ns where ns: "spend_nonce (Scope_Session i) sg t now (d\<lparr>db_high_water := now\<rparr>)
      = Inr (d\<lparr>db_high_water := now, db_nonces := ns\<rparr>)"
    using unused_nonce [OF assms(6)] by blast
  have same: "load_session (d\<lparr>db_high_water := now\<rparr>) i = Some s"
    "session_enrollment (d\<lparr>db_high_water := now, db_nonces := ns\<rparr>) s = Inr row"
    using assms(2,7) by (simp_all add: load_session_def session_enrollment_def load_enrollment_def)
  have i: "srow_session_id s = i"
    using assms(2) by (auto simp: load_session_def dest: at_key_Some)
  obtain r w where r: "session_receipt_fields x t s (erow_enrollment row) ''read-recovery'' = Inr r"
    "time x now = Inr w"
    using assms(13) by (auto simp: release_receipt_def elim!: and_then_InrE)
  show ?thesis
    using assms(1,3-5,8-13) ns same i r
    by (intro exI [of _ ns])
      (simp add: read_recovery_def transaction_def read_decision_def release_receipt_def Let_def)
qed

lemma release_due:
  assumes "db_high_water d \<le> now" "erow_status row = Accepted" "now < enr_expires_at (erow_enrollment row)"
    and "srow_status s = CoolingDown" "srow_cooldown_ends_at s \<le> now" "now < srow_expires_at s"
    and "srow_sequence s = es_sequence (erow_state row)"
  shows "release (erow_state row) (srow_state s) now (db_high_water d) = Inr Emit"
  using assms by (simp add: release_Inr erow_state_def srow_state_def)

text \<open>A request a client may sign for one operation on one target, issued at a given instant.\<close>

definition request_for :: "extern \<Rightarrow> trustee \<Rightarrow> string \<Rightarrow> string \<Rightarrow> i64 \<Rightarrow> signed_request \<Rightarrow> bool" where
  "request_for x t operation target issued r \<longleftrightarrow>
     request_text r \<and> sr_request_version r = 1 \<and> sr_component_id r = tr_component_id t
     \<and> sr_operation r = operation \<and> signed_target r = Some target
     \<and> hex32 x (sr_request_id r) \<noteq> None \<and> hex32 x target \<noteq> None
     \<and> timestamp x (sr_issued_at r) = Some issued"

definition signed_for :: "extern \<Rightarrow> bytes \<Rightarrow> string \<Rightarrow> i64 \<Rightarrow> signed_request \<Rightarrow> signed" where
  "signed_for x key target issued r =
     \<lparr>sg_operation = sr_operation r, sg_request_id = sr_request_id r, sg_target = target,
      sg_by = sr_by r, sg_issued_at = issued, sg_message = canonical x (request_json r),
      sg_signature = sign x key (canonical x (request_json r)),
      sg_digest = digest x (canonical x (client_value x key r))\<rparr>"

lemma request_parsed:
  assumes "json_laws x" "base64_laws x" "ed25519_laws x" "request_for x t operation target issued r"
  shows "parse x (client_request x key r) = Some (client_value x key r)"
    "index_field (client_value x key r) ''operation'' = JString operation"
    "signed_parse x (client_value x key r) (tr_component_id t) = Some (signed_for x key target issued r)"
    "verify_signature x (signed_for x key target issued r) (ed25519_public_key x key) = Inr ()"
proof -
  note r = assms(4) [unfolded request_for_def]
  show "parse x (client_request x key r) = Some (client_value x key r)"
    using client_request_parses [OF assms(1,2)] r by blast
  show "index_field (client_value x key r) ''operation'' = JString operation"
    using client_value_operation r by metis
  show "signed_parse x (client_value x key r) (tr_component_id t) = Some (signed_for x key target issued r)"
    using client_value_signed [OF assms(2,3), of r target issued key] r by (simp add: signed_for_def)
  show "verify_signature x (signed_for x key target issued r) (ed25519_public_key x key) = Inr ()"
    using sign_verifies [OF assms(3)] by (simp add: verify_signature_def signed_for_def)
qed

lemma due_recovery_served:
  assumes "json_laws x" "base64_laws x" "ed25519_laws x" "hex_laws x" "time_laws x" "seal_key_laws x"
    and "store_inv d" "custody_ok x t d"
    and "load_session d i = Some s" "session_enrollment d s = Inr row"
    and "srow_status s = CoolingDown" "erow_status row = Accepted"
    and "db_high_water d \<le> now" "srow_cooldown_ends_at s \<le> now" "now < srow_expires_at s"
    and "now < enr_expires_at (erow_enrollment row)"
    and "request_for x t ''read-recovery'' i issued r" "srow_proof_key s = ed25519_public_key x key"
    and "clock_time now" "\<bar>issued - now\<bar> \<le> lim_skew_secs (tr_limits t)"
    and "(scope_key (Scope_Session i), sr_request_id r) \<notin> nonce_key ` set (db_nonces d)"
    and "format_timestamp x now \<noteq> None" "format_timestamp x (srow_expires_at s) \<noteq> None"
    and "format_timestamp x (srow_cooldown_ends_at s) \<noteq> None"
  shows "\<exists>d' sealed con v rc verified.
    handle x t e (client_request x key r) now d = (d', Inr (sign_object x (receipt_json rc) (tr_signing_key t)))
    \<and> load_session d' i = Some (s\<lparr>srow_status := Released, srow_contribution := Some (con_canonical con)\<rparr>)
    \<and> erow_sealed_envelope row = Some sealed \<and> verify_session x (ent_check e) (srow_request s) = Inr verified
    \<and> release_contribution x t (ent_seal e) (erow_enrollment row) sealed verified now = Inr con
    \<and> parse x (con_canonical con) = Some v \<and> rc_contribution rc = Some v"
proof -
  let ?sg = "signed_for x key i issued r"
  note parsed = request_parsed [OF assms(1-3,17), of key]
  obtain sealed v con where rel: "erow_sealed_envelope row = Some sealed"
    "is_well_formed x (enr_context (erow_enrollment row))"
    "verify_session x (ent_check e) (srow_request s) = Inr v"
    "release_contribution x t (ent_seal e) (erow_enrollment row) sealed v now = Inr con"
    using session_releasable [OF assms(6-10,12,23,22)] by metis
  obtain w where w: "parse x (con_canonical con) = Some w"
    using contribution_parses [OF assms(1,2,4,5) rel(2-4)] by blast
  obtain rc where rc: "release_receipt x t (erow_enrollment row) s (sg_request_id ?sg) now w = Inr rc"
    using release_receipt_made [OF assms(22-24)] by blast
  have wire: "wire_time issued"
    using assms(17) timestamp_wire [OF assms(5)] by (auto simp: request_for_def)
  have fresh: "check_fresh ?sg t now = Inr ()"
    using check_fresh_iff [of ?sg now t] wire assms(19,20) by (simp add: signed_for_def)
  have emit: "release (erow_state row) (srow_state s) now (db_high_water d) = Inr Emit"
    using assms session_row_enrollment(4) [OF assms(7,9,10)] by (intro release_due)
  obtain ns where read: "read_recovery x t e ?sg now d =
      Inr (d\<lparr>db_high_water := now, db_nonces := ns,
             db_sessions := release_row i (con_canonical con) (db_sessions d)\<rparr>,
           Inr (sign_object x (receipt_json rc) (tr_signing_key t)))"
    using due_read [OF assms(13,9) _ _ fresh _ assms(10) emit rel(1,3,4) w rc] parsed(4) assms(18,21)
    by (fastforce simp: signed_for_def)
  then have "handle_step x t e (client_request x key r) now d =
      Inr (d\<lparr>db_high_water := now, db_nonces := ns,
             db_sessions := release_row i (con_canonical con) (db_sessions d)\<rparr>,
           Inr (sign_object x (receipt_json rc) (tr_signing_key t)))"
    unfolding handle_read [OF parsed(1,2), simplified] by (simp add: parsed(3))
  moreover have "rc_contribution rc = Some w"
    using rc by (auto simp: release_receipt_def elim!: and_then_InrE)
  ultimately show ?thesis
    using rel w assms(9)
    by (auto simp: handle_def run_step_def load_session_def sessions.lookup_update)
qed

text \<open>
  C17: What is stored can be served: after any sequence of invitations and requests to a new
  database, every accepted enrollment holds sealed bytes the core accepted for exactly the stored
  enrollment, and every session row holds a request that verified, names its enrollment and has the
  row's identifier, expiry and proof key.
\<close>
theorem stored_custody_sound:
  assumes "json_laws x" "seal_key_laws x"
  shows "let d = serve x t events new_db in
    (\<forall>r\<in>set (db_enrollments d). erow_status r = Accepted \<longrightarrow>
       (\<exists>sealed at. erow_sealed_envelope r = Some sealed
          \<and> accept_enrollment x t (enr_context (erow_enrollment r)) sealed at = Inr (erow_enrollment r)))
    \<and> (\<forall>s\<in>set (db_sessions d). \<exists>row v e. session_enrollment d s = Inr row
          \<and> verify_session x e (srow_request s) = Inr v \<and> binds v (enr_context (erow_enrollment row))
          \<and> ses_session_id v = srow_session_id s \<and> ses_expires_at v = srow_expires_at s
          \<and> ses_proof_key v = srow_proof_key s)"
proof -
  let ?d = "serve x t events new_db"
  have ok: "custody_ok x t ?d" "store_inv ?d"
    using reached_custody [OF assms] reached_inv by auto
  have "\<exists>row. session_enrollment ?d s = Inr row \<and> session_held x (erow_enrollment row) s"
    if s: "s \<in> set (db_sessions ?d)" for s
  proof -
    obtain r where r: "r \<in> set (db_enrollments ?d)" "enrollment_key r = session_key s"
      "session_held x (erow_enrollment r) s"
      using ok(1) s by (fastforce simp: custody_ok_def held_as_def)
    have "distinct (map enrollment_key (db_enrollments ?d))"
      using ok(2) by (auto simp: store_inv_def keys_ok_def distinct_map inj_on_def enrollment_key_def)
    then have "at_key enrollment_key (db_enrollments ?d) (session_key s) = Some r"
      using r(1,2) by (simp add: at_key_iff)
    then show ?thesis
      using r(3) by (simp add: session_enrollment_def load_enrollment_def session_key_def)
  qed
  then show ?thesis
    using ok(1) unfolding Let_def custody_ok_def row_held_def session_held_def by blast
qed

text \<open>
  C3: A due recovery is served: in every database with the store's invariant and sound custody, when
  a session is cooling down, its cooldown is over, neither it nor its accepted enrollment has
  expired, and the candidate signs a fresh poll with an unused request ID, the trustee answers with
  a signed receipt that carries the contribution sealed for this candidate, and stores it.
\<close>
theorem due_recovery_released:
  assumes "json_laws x" "base64_laws x" "ed25519_laws x" "hex_laws x" "time_laws x" "seal_key_laws x"
    and "store_inv d" "custody_ok x t d"
    and "load_session d i = Some s" "session_enrollment d s = Inr row"
    and "srow_status s = CoolingDown" "erow_status row = Accepted"
    and "db_high_water d \<le> now" "srow_cooldown_ends_at s \<le> now" "now < srow_expires_at s"
    and "now < enr_expires_at (erow_enrollment row)"
    and "request_for x t ''read-recovery'' i issued r" "srow_proof_key s = ed25519_public_key x key"
    and "clock_time now" "\<bar>issued - now\<bar> \<le> lim_skew_secs (tr_limits t)"
    and "(scope_key (Scope_Session i), sr_request_id r) \<notin> nonce_key ` set (db_nonces d)"
    and "format_timestamp x now \<noteq> None" "format_timestamp x (srow_expires_at s) \<noteq> None"
    and "format_timestamp x (srow_cooldown_ends_at s) \<noteq> None"
  shows "\<exists>d' sealed con v rc verified.
    handle x t e (client_request x key r) now d = (d', Inr (sign_object x (receipt_json rc) (tr_signing_key t)))
    \<and> load_session d' i = Some (s\<lparr>srow_status := Released, srow_contribution := Some (con_canonical con)\<rparr>)
    \<and> erow_sealed_envelope row = Some sealed \<and> verify_session x (ent_check e) (srow_request s) = Inr verified
    \<and> release_contribution x t (ent_seal e) (erow_enrollment row) sealed verified now = Inr con
    \<and> parse x (con_canonical con) = Some v \<and> rc_contribution rc = Some v"
  by (rule due_recovery_served [OF assms])

end
