(* ===== verification/Store_Tables.thy ===== *)
theory Store_Tables
  imports Store_Properties
begin

text \<open>
  The tables of every reachable database: their keys and foreign keys, which hold without relying
  on the database engine to enforce them, and what the columns of a row say together.
\<close>

section \<open>Foreign keys\<close>

definition challenges_linked :: "db \<Rightarrow> bool" where
  "challenges_linked d \<longleftrightarrow> (\<forall>c\<in>set (db_challenges d). chl_invitation c \<in> inv_digest ` set (db_invitations d))"

lemma open_challenges_invitation:
  "open_challenges d i now = Some n \<Longrightarrow> i \<in> inv_digest ` set (db_invitations d)"
  by (auto simp: open_challenges_def invitation_open_def split: if_splits option.splits dest!: at_key_Some)

lemma spent_columns:
  "inv_digest ` set (update_rows P (\<lambda>r. r\<lparr>inv_used_at := u\<rparr>) rows) = inv_digest ` set rows"
  "chl_challenge ` set (update_rows Q (\<lambda>r. r\<lparr>chl_used_at := u\<rparr>) cs) = chl_challenge ` set cs"
  "chl_invitation ` set (update_rows Q (\<lambda>r. r\<lparr>chl_used_at := u\<rparr>) cs) = chl_invitation ` set cs"
  by (rule update_rows_keys, simp)+

lemma challenges_linked_iff:
  "challenges_linked d \<longleftrightarrow> chl_invitation ` set (db_challenges d) \<subseteq> inv_digest ` set (db_invitations d)"
  by (auto simp: challenges_linked_def)

lemma challenges_linked_step: "store_step x t now d d' \<Longrightarrow> challenges_linked d \<Longrightarrow> challenges_linked d'"
proof (induction rule: store_step.induct)
  case (step_challenge d i n ch rows)
  then show ?case
    using open_challenges_invitation by (auto simp: challenges_linked_iff result_iff)
qed (auto simp: challenges_linked_iff spend_challenge_def spent_columns spend_nonce_Inr record_outcome_Inr result_iff)

interpretation linked: lasting_fact "some_step x t" store_inv evolves challenges_linked for x t
  by unfold_locales (auto simp: some_step_def intro: challenges_linked_step)

lemma reached_linked: "challenges_linked (serve x t events new_db)"
proof -
  have "challenges_linked new_db"
    by (simp add: challenges_linked_def new_db_def empty_db_def MIGRATIONS_def setup_store.simps)
  then show ?thesis
    using linked.run_fact [OF serve_steps new_db_inv] by blast
qed

text \<open>
  C23: The tables are well formed: after any sequence of invitations and requests to a new database,
  every primary key is unique, every challenge has its invitation, every enrollment its challenge
  and every session its enrollment, the columns of an enrollment repeat its context, a session's
  cooldown ends before it expires, and no recorded time is ahead of the clock.
\<close>
theorem tables_well_formed:
  "let d = serve x t events new_db in
    distinct (map inv_digest (db_invitations d)) \<and> distinct (map chl_challenge (db_challenges d))
    \<and> distinct (map enrollment_key (db_enrollments d)) \<and> distinct (map erow_challenge (db_enrollments d))
    \<and> distinct (map srow_session_id (db_sessions d)) \<and> distinct (map nonce_key (db_nonces d))
    \<and> distinct (map outcome_key (db_outcomes d))
    \<and> list_all (\<lambda>c. chl_invitation c \<in> inv_digest ` set (db_invitations d)) (db_challenges d)
    \<and> list_all (\<lambda>r. erow_challenge r \<in> chl_challenge ` set (db_challenges d)
         \<and> erow_enrollment_id r = ctx_enrollment_id (enr_context (erow_enrollment r))
         \<and> erow_sequence r = ctx_enrollment_sequence (enr_context (erow_enrollment r))
         \<and> erow_challenge r = ctx_trustee_challenge (enr_context (erow_enrollment r))) (db_enrollments d)
    \<and> list_all (\<lambda>s. session_key s \<in> enrollment_key ` set (db_enrollments d)
         \<and> srow_cooldown_ends_at s < srow_expires_at s \<and> srow_created_at s \<le> db_high_water d) (db_sessions d)
    \<and> list_all (\<lambda>r. nr_seen_at r \<le> db_high_water d) (db_nonces d)"
proof -
  let ?d = "serve x t events new_db"
  have inv: "keys_ok ?d" "enrollments_ok ?d" "sessions_ok ?d" "grants_ok ?d" "nonces_ok ?d"
    using reached_inv by (simp_all add: store_inv_def)
  have keys: "distinct (map enrollment_key (db_enrollments ?d))"
    using inv(1) by (auto simp: keys_ok_def distinct_map inj_on_def enrollment_key_def)
  have challenge: "erow_challenge r \<in> chl_challenge ` set (db_challenges ?d)" if "r \<in> set (db_enrollments ?d)" for r
  proof -
    have "\<forall>r\<in>set (db_enrollments ?d). \<exists>i. granted ?d r i"
      using inv(4) unfolding grants_ok_def by (rule conjunct1)
    from bspec [OF this that] obtain i where "granted ?d r i"
      by (rule exE)
    then obtain c where "at_key chl_challenge (db_challenges ?d) (erow_challenge r) = Some c"
      unfolding granted_def by blast
    from at_key_Some [OF this] show ?thesis
      by (metis imageI)
  qed
  show ?thesis
    using inv(1-3,5) keys challenge reached_linked [of x t events]
    unfolding Let_def keys_ok_def list_all_iff enrollments_ok_def enrollment_ok_def sessions_ok_def
      session_ok_def nonces_ok_def challenges_linked_def by auto
qed

section \<open>Ended enrollments answer the same\<close>

text \<open>
  A retried revocation or closing gets the recorded answer: once an outcome is recorded for an
  enrollment, the receipt rebuilt from it has the same bytes after any later requests.
\<close>
lemma end_receipt_stable:
  assumes "store_inv d" "load_enrollment d i n = Inr row"
    and "at_key outcome_key (db_outcomes d) (scope_key (Scope_Enrollment i n), q) = Some oc"
  shows "outcome_receipt x t (serve x t events d) (Scope_Enrollment i n) q
    = outcome_receipt x t d (Scope_Enrollment i n) q"
proof -
  have "at_key enrollment_key (db_enrollments d) (i, n) = Some row"
    using assms(2) by (simp add: load_enrollment_def result_simps)
  then obtain row' where "at_key enrollment_key (db_enrollments (serve x t events d)) (i, n) = Some row'"
    "enrollment_evolves row row'"
    using kept_enrollment [OF assms(1)] by blast
  then have "load_enrollment (serve x t events d) i n = Inr row'" "enrollment_evolves row row'"
    by (simp_all add: load_enrollment_def)
  moreover from this have "erow_enrollment row' = erow_enrollment row"
    by (cases row; cases row') (simp add: enrollment_evolves_def)
  ultimately show ?thesis
    unfolding outcome_receipt_def using kept_outcome [OF assms(1,3)] assms(2,3) by simp
qed

end
