(* ===== verification/Vault.thy ===== *)
theory Vault
  imports Store_Tables
begin

text \<open>
  The contract of custody, without messages, keys or rows: slots that are open or closed and count
  their attempts, recoveries that cool down, are given or stop, and a clock. The store of
  \<open>src/store.rs\<close> is shown to implement it step by step.
\<close>

section \<open>The abstract protocol\<close>

record slot =
  slot_open :: bool
  slot_attempts :: nat
  slot_limit :: nat

datatype phase = Cooling | Given bytes | Stopped

record recovery =
  rec_slot :: "string \<times> u64"
  rec_ready :: i64
  rec_until :: i64
  rec_phase :: phase

record vault =
  va_clock :: i64
  va_slots :: "string \<times> u64 \<Rightarrow> slot option"
  va_recoveries :: "string \<Rightarrow> recovery option"

definition empty_vault :: vault where
  "empty_vault = \<lparr>va_clock = 0, va_slots = Map.empty, va_recoveries = Map.empty\<rparr>"

inductive vault_step :: "vault \<Rightarrow> vault \<Rightarrow> bool" where
  pass:
    "va_clock v \<le> now \<Longrightarrow> vault_step v (v\<lparr>va_clock := now\<rparr>)"
| open_slot:
    "va_clock v \<le> now \<Longrightarrow> va_slots v k = None \<Longrightarrow>
     vault_step v (v\<lparr>va_clock := now, va_slots := (va_slots v)(k \<mapsto>
       \<lparr>slot_open = True, slot_attempts = 0, slot_limit = n\<rparr>)\<rparr>)"
| begin_recovery:
    "va_clock v \<le> now \<Longrightarrow> va_slots v k = Some s \<Longrightarrow> slot_open s \<Longrightarrow>
     slot_attempts s < slot_limit s \<Longrightarrow> va_recoveries v i = None \<Longrightarrow>
     ready < until \<Longrightarrow> now < until \<Longrightarrow> p = Cooling \<or> p = Stopped \<Longrightarrow>
     vault_step v (v\<lparr>va_clock := now,
       va_slots := (va_slots v)(k \<mapsto> s\<lparr>slot_attempts := slot_attempts s + 1\<rparr>),
       va_recoveries := (va_recoveries v)(i \<mapsto>
         \<lparr>rec_slot = k, rec_ready = ready, rec_until = until, rec_phase = p\<rparr>)\<rparr>)"
| give:
    "va_clock v \<le> now \<Longrightarrow> va_recoveries v i = Some r \<Longrightarrow> rec_phase r = Cooling \<Longrightarrow>
     va_slots v (rec_slot r) = Some s \<Longrightarrow> slot_open s \<Longrightarrow>
     rec_ready r \<le> now \<Longrightarrow> now < rec_until r \<Longrightarrow>
     vault_step v (v\<lparr>va_clock := now,
       va_recoveries := (va_recoveries v)(i \<mapsto> r\<lparr>rec_phase := Given b\<rparr>)\<rparr>)"
| stop:
    "va_clock v \<le> now \<Longrightarrow> va_recoveries v i = Some r \<Longrightarrow> rec_phase r \<noteq> Stopped \<Longrightarrow> now < rec_until r \<Longrightarrow>
     vault_step v (v\<lparr>va_clock := now,
       va_recoveries := (va_recoveries v)(i \<mapsto> r\<lparr>rec_phase := Stopped\<rparr>)\<rparr>)"
| close_slot:
    "va_clock v \<le> now \<Longrightarrow> va_slots v k = Some s \<Longrightarrow>
     vault_step v (v\<lparr>va_clock := now, va_slots := (va_slots v)(k \<mapsto> s\<lparr>slot_open := False\<rparr>)\<rparr>)"

section \<open>Simulations\<close>

text \<open>
  A machine whose every step, from a state of its invariant, is a step of another machine on the
  abstracted states.
\<close>

locale simulation = progress step inv ahead
  for step :: "'c \<Rightarrow> 'c \<Rightarrow> bool" and inv ahead +
  fixes spec :: "'a \<Rightarrow> 'a \<Rightarrow> bool" and abs :: "'c \<Rightarrow> 'a"
  assumes simulates: "inv s \<Longrightarrow> step s s' \<Longrightarrow> spec (abs s) (abs s')"
begin

lemma run_simulates: "step\<^sup>*\<^sup>* s s' \<Longrightarrow> inv s \<Longrightarrow> spec\<^sup>*\<^sup>* (abs s) (abs s')"
proof (induction rule: rtranclp_induct)
  case (step s' s'')
  then have "spec (abs s') (abs s'')"
    using run_inv simulates by blast
  with step show ?case
    by (meson rtranclp.rtrancl_into_rtrancl)
qed simp

end

section \<open>The vault of a database\<close>

definition slot_of :: "enrollment_row \<Rightarrow> slot" where
  "slot_of r = \<lparr>slot_open = (erow_status r = Accepted), slot_attempts = unat (erow_attempts_used r),
     slot_limit = unat (maximum_attempts (enr_policy (erow_enrollment r)))\<rparr>"

definition phase_of :: "session_row \<Rightarrow> phase" where
  "phase_of s =
     (case srow_status s of
        CoolingDown \<Rightarrow> Cooling
      | Released \<Rightarrow> (case srow_contribution s of None \<Rightarrow> Stopped | Some b \<Rightarrow> Given b)
      | _ \<Rightarrow> Stopped)"

definition recovery_of :: "session_row \<Rightarrow> recovery" where
  "recovery_of s = \<lparr>rec_slot = session_key s, rec_ready = srow_cooldown_ends_at s,
     rec_until = srow_expires_at s, rec_phase = phase_of s\<rparr>"

definition vault_of :: "db \<Rightarrow> vault" where
  "vault_of d = \<lparr>va_clock = db_high_water d,
     va_slots = (\<lambda>k. map_option slot_of (at_key enrollment_key (db_enrollments d) k)),
     va_recoveries = (\<lambda>i. map_option recovery_of (load_session d i))\<rparr>"

lemma vault_eq:
  "va_clock v = va_clock w \<Longrightarrow> va_slots v = va_slots w \<Longrightarrow> va_recoveries v = va_recoveries w \<Longrightarrow> v = (w :: vault)"
  by simp

lemma vault_of_sel [simp]:
  "va_clock (vault_of d) = db_high_water d"
  "va_slots (vault_of d) k = map_option slot_of (at_key enrollment_key (db_enrollments d) k)"
  "va_recoveries (vault_of d) i = map_option recovery_of (load_session d i)"
  by (simp_all add: vault_of_def)

lemma vault_frame:
  "db_enrollments d' = db_enrollments d \<Longrightarrow> db_sessions d' = db_sessions d \<Longrightarrow>
     vault_of d' = (vault_of d)\<lparr>va_clock := db_high_water d'\<rparr>"
  by (simp add: vault_of_def load_session_def)

lemma vault_pass:
  "db_enrollments d' = db_enrollments d \<Longrightarrow> db_sessions d' = db_sessions d \<Longrightarrow>
     db_high_water d \<le> db_high_water d' \<Longrightarrow> vault_step (vault_of d) (vault_of d')"
  using pass [of "vault_of d" "db_high_water d'"] vault_frame [of d' d] by simp

text \<open>One session's row changes, nothing else.\<close>

lemma vault_session:
  assumes "load_session d i = Some s" "db_enrollments d' = db_enrollments d"
    and "db_sessions d' = update_rows (\<lambda>r. srow_session_id r = i) f (db_sessions d)"
    and "\<And>s. srow_session_id (f s) = srow_session_id s" "recovery_of (f s) = (recovery_of s)\<lparr>rec_phase := p\<rparr>"
  shows "vault_of d' = (vault_of d)\<lparr>va_clock := db_high_water d',
    va_recoveries := (va_recoveries (vault_of d))(i \<mapsto> (recovery_of s)\<lparr>rec_phase := p\<rparr>)\<rparr>"
proof (rule vault_eq)
  show "va_recoveries (vault_of d') = va_recoveries ((vault_of d)\<lparr>va_clock := db_high_water d',
      va_recoveries := (va_recoveries (vault_of d))(i \<mapsto> (recovery_of s)\<lparr>rec_phase := p\<rparr>)\<rparr>)"
    using assms by (intro ext) (simp add: load_session_def sessions.lookup_update)
qed (use assms in \<open>simp_all add: vault_of_def\<close>)

text \<open>One enrollment's row changes, nothing else.\<close>

lemma slots_update:
  assumes "at_key enrollment_key rows k = Some r" "\<And>r. enrollment_key (f r) = enrollment_key r"
  shows "(\<lambda>l. map_option slot_of (at_key enrollment_key (update_rows (\<lambda>r. enrollment_key r = k) f rows) l))
    = (\<lambda>l. map_option slot_of (at_key enrollment_key rows l))(k \<mapsto> slot_of (f r))"
  using assms by (intro ext) (simp add: enrollments.lookup_update)

lemma current_at_key:
  assumes "store_inv d" "load_current_enrollment d i = Some row"
  shows "at_key enrollment_key (db_enrollments d) (ctx_enrollment_id (enr_context (erow_enrollment row)),
    ctx_enrollment_sequence (enr_context (erow_enrollment row))) = Some row"
proof -
  have row: "row \<in> set (db_enrollments d)"
    using assms(2) load_current_Some by blast
  have "distinct (map enrollment_key (db_enrollments d))"
    using assms(1) by (auto simp: store_inv_def keys_ok_def distinct_map inj_on_def enrollment_key_def)
  moreover have "enrollment_key row = (ctx_enrollment_id (enr_context (erow_enrollment row)),
      ctx_enrollment_sequence (enr_context (erow_enrollment row)))"
    using assms(1) row by (intro enrollment_key_ok) (simp add: store_inv_def enrollments_ok_def)
  ultimately show ?thesis
    using row by (simp add: at_key_iff)
qed

lemma vault_enroll:
  assumes "db_high_water d \<le> now" "insert_row enrollment_key r (db_enrollments d) = Some rows"
    and "erow_status r = Accepted" "erow_attempts_used r = 0" "db_enrollments d' = rows"
    and "db_sessions d' = db_sessions d" "db_high_water d' = now"
  shows "vault_step (vault_of d) (vault_of d')"
proof -
  have "at_key enrollment_key (db_enrollments d) (enrollment_key r) = None"
    using assms(2) by (simp add: at_key_None result_iff)
  then have "vault_step (vault_of d) ((vault_of d)\<lparr>va_clock := now, va_slots := (va_slots (vault_of d))(enrollment_key r \<mapsto>
      \<lparr>slot_open = True, slot_attempts = 0, slot_limit = unat (maximum_attempts (enr_policy (erow_enrollment r)))\<rparr>)\<rparr>)"
    using assms(1) by (intro open_slot) simp_all
  also have "\<dots> = vault_of d'"
  proof (rule vault_eq)
    have "at_key enrollment_key rows k = (if k = enrollment_key r then Some r
        else at_key enrollment_key (db_enrollments d) k)" for k
      using enrollments.lookup_insert [OF assms(2)] .
    then show "va_slots ((vault_of d)\<lparr>va_clock := now, va_slots := (va_slots (vault_of d))(enrollment_key r \<mapsto>
        \<lparr>slot_open = True, slot_attempts = 0, slot_limit = unat (maximum_attempts (enr_policy (erow_enrollment r)))\<rparr>)\<rparr>)
        = va_slots (vault_of d')"
      using assms(3-5) by (intro ext) (simp add: slot_of_def)
  qed (use assms(6,7) in \<open>auto simp: load_session_def vault_of_def\<close>)
  finally show ?thesis .
qed

lemma vault_begin:
  assumes "db_high_water d \<le> now" "at_key enrollment_key (db_enrollments d) k = Some row"
    and "erow_status row = Accepted" "erow_attempts_used row < maximum_attempts (enr_policy (erow_enrollment row))"
    and "load_session d (srow_session_id q) = None" "insert_row srow_session_id q (db_sessions d) = Some (db_sessions d')"
    and "srow_cooldown_ends_at q < srow_expires_at q" "now < srow_expires_at q" "session_key q = k"
    and "phase_of q = Cooling \<or> phase_of q = Stopped"
    and "db_enrollments d' = update_rows (\<lambda>r. enrollment_key r = k)
      (\<lambda>r. r\<lparr>erow_attempts_used := erow_attempts_used r + 1\<rparr>) (db_enrollments d)" "db_high_water d' = now"
  shows "vault_step (vault_of d) (vault_of d')"
proof -
  let ?f = "\<lambda>r. r\<lparr>erow_attempts_used := erow_attempts_used r + 1\<rparr>"
  let ?v = "(vault_of d)\<lparr>va_clock := now,
      va_slots := (va_slots (vault_of d))(k \<mapsto> (slot_of row)\<lparr>slot_attempts := slot_attempts (slot_of row) + 1\<rparr>),
      va_recoveries := (va_recoveries (vault_of d))(srow_session_id q \<mapsto>
        \<lparr>rec_slot = k, rec_ready = srow_cooldown_ends_at q, rec_until = srow_expires_at q, rec_phase = phase_of q\<rparr>)\<rparr>"
  have count: "slot_of (?f row) = (slot_of row)\<lparr>slot_attempts := slot_attempts (slot_of row) + 1\<rparr>"
    using inc_no_wrap(2) [OF assms(4)] by (simp add: slot_of_def)
  have "vault_step (vault_of d) ?v"
    using assms(1-5,7,8,10) by (intro begin_recovery) (simp_all add: slot_of_def word_less_nat_alt)
  also have "?v = vault_of d'"
  proof (rule vault_eq)
    have "load_session d' i = (if i = srow_session_id q then Some q else load_session d i)" for i
      using sessions.lookup_insert [OF assms(6)] by (simp add: load_session_def)
    then show "va_recoveries ?v = va_recoveries (vault_of d')"
      using assms(9) by (intro ext) (simp add: recovery_of_def)
  qed (use assms(11,12) slots_update [OF assms(2), of ?f] count in \<open>simp_all add: vault_of_def\<close>)
  finally show ?thesis .
qed

lemma vault_cancel:
  assumes "store_inv d" "db_high_water d \<le> now" "load_session d i = Some s" "st = cancelled_status s by_holder now"
    and "db_enrollments d' = db_enrollments d" "db_sessions d' = set_status i st (db_sessions d)" "db_high_water d' = now"
  shows "vault_step (vault_of d) (vault_of d')"
proof (cases "session_live (srow_status s) \<and> now < srow_expires_at s")
  case True
  then have st: "st = Vetoed \<or> st = Cancelled"
    using assms(4) by (cases by_holder) (auto simp: cancelled_status_def session_live_def Let_def)
  have "srow_status s = Released \<longrightarrow> srow_contribution s \<noteq> None"
    using assms(1) load_session_in [OF assms(3)] by (auto simp: store_inv_def sessions_ok_def session_ok_def)
  then have live: "phase_of s \<noteq> Stopped"
    using True by (auto simp: phase_of_def session_live_def split: option.splits)
  have "vault_of d' = (vault_of d)\<lparr>va_clock := now, va_recoveries := (va_recoveries (vault_of d))(i \<mapsto>
      (recovery_of s)\<lparr>rec_phase := Stopped\<rparr>)\<rparr>"
    using assms(5-7) st vault_session [OF assms(3), of d' "\<lambda>r. r\<lparr>srow_status := st\<rparr>" Stopped]
    by (auto simp: recovery_of_def phase_of_def session_key_def)
  then show ?thesis
    using stop [of "vault_of d" now i "recovery_of s"] assms(2,3) live True
    by (simp add: recovery_of_def)
next
  case False
  then have "st = srow_status s"
    using assms(4) by (auto simp: cancelled_status_def session_live_def Let_def split: bool.splits)
  then have "vault_of d' = (vault_of d)\<lparr>va_clock := now\<rparr>"
    using assms(3,5-7) vault_session [OF assms(3), of d' "\<lambda>r. r\<lparr>srow_status := st\<rparr>" "phase_of s"]
    by (auto simp: recovery_of_def phase_of_def session_key_def intro!: vault_eq)
  then show ?thesis
    using pass [of "vault_of d" now] assms(2) by simp
qed

lemma vault_simulates:
  assumes "store_inv d" "store_step x t now d d'"
  shows "vault_step (vault_of d) (vault_of d')"
  using assms(2)
proof cases
  case (step_enroll c i sealed en artifact request_digest rows)
  then show ?thesis
    by (intro vault_enroll [OF step_enroll(2,9)]) (simp_all add: spend_challenge_def)
next
  case (step_begin entropy raw s row adm st rows)
  have "phase_of (begun_row row s st adm now) = Cooling \<or> phase_of (begun_row row s st adm now) = Stopped"
    using step_begin(8) by (auto simp: phase_of_def split: sum.splits)
  then show ?thesis
    using step_begin
    by (intro vault_begin [OF step_begin(2) current_at_key [OF assms(1) step_begin(5)],
          where q = "begun_row row s st adm now"])
      (auto simp: admit_Inr erow_state_def session_key_def)
next
  case (step_release i s sg row sealed entropy verified entropy' con d2)
  have row: "at_key enrollment_key (db_enrollments d) (session_key s) = Some row"
    using step_release(6) by (simp add: session_enrollment_def load_enrollment_def result_simps session_key_def)
  have "vault_of d' = (vault_of d)\<lparr>va_clock := now, va_recoveries := (va_recoveries (vault_of d))(i \<mapsto>
      (recovery_of s)\<lparr>rec_phase := Given (con_canonical con)\<rparr>)\<rparr>"
    using step_release(1,12) vault_session [OF step_release(3), of d' _ "Given (con_canonical con)"]
    by (auto simp: spend_nonce_Inr recovery_of_def phase_of_def session_key_def)
  then show ?thesis
    using step_release(2,3,7) row give [of "vault_of d" now i "recovery_of s" "slot_of row" "con_canonical con"]
    by (simp add: release_Inr recovery_of_def phase_of_def slot_of_def erow_state_def srow_state_def)
next
  case (step_cancel i s row sg by_holder st old_state new_state d2)
  then show ?thesis
    by (intro vault_cancel [OF assms(1) step_cancel(2,3,8)]) (auto simp: record_outcome_Inr)
next
  case (step_end i row sg old_state new_state d2)
  let ?k = "(ctx_enrollment_id (enr_context (erow_enrollment row)),
    ctx_enrollment_sequence (enr_context (erow_enrollment row)))"
  let ?f = "\<lambda>r. r\<lparr>erow_status := ended_status (sg_operation sg) (erow_status row),
    erow_sealed_envelope := None, erow_protected_artifact := None\<rparr>"
  note k = current_at_key [OF assms(1) step_end(3)]
  have "slot_of (?f row) = (slot_of row)\<lparr>slot_open := False\<rparr>"
    by (simp add: slot_of_def ended_status_def)
  then have "vault_of d' = (vault_of d)\<lparr>va_clock := now,
      va_slots := (va_slots (vault_of d))(?k \<mapsto> (slot_of row)\<lparr>slot_open := False\<rparr>)\<rparr>"
    using step_end(1,5) slots_update [OF k, of ?f]
    by (auto simp: record_outcome_Inr vault_of_def load_session_def)
  then show ?thesis
    using close_slot [of "vault_of d" now ?k "slot_of row"] step_end(2) k by simp
qed (use vault_pass in \<open>auto simp: spend_challenge_def spend_nonce_Inr intro!: vault_pass\<close>)

interpretation custody_vault: simulation "some_step x t" store_inv evolves vault_step vault_of for x t
  by unfold_locales (auto simp: some_step_def intro: vault_simulates)

section \<open>What the protocol guarantees\<close>

text \<open>
  In the protocol, a recovery that was given was given by one step, while its slot was open and
  within its window; the clock and the attempts only grow.
\<close>

definition given_at :: "vault \<Rightarrow> string \<Rightarrow> bytes \<Rightarrow> bool" where
  "given_at v i b \<longleftrightarrow> (\<exists>r. va_recoveries v i = Some r \<and> rec_phase r = Given b)"

lemma given_step:
  assumes "vault_step v w" "given_at w i b"
  shows "given_at v i b
    \<or> (\<exists>r s. va_recoveries v i = Some r \<and> rec_phase r = Cooling \<and> va_slots v (rec_slot r) = Some s
        \<and> slot_open s \<and> va_clock v \<le> va_clock w \<and> rec_ready r \<le> va_clock w \<and> va_clock w < rec_until r)"
  using assms by (induction rule: vault_step.induct) (auto simp: given_at_def split: if_splits)

definition duly_given :: "vault \<Rightarrow> vault \<Rightarrow> string \<Rightarrow> bool" where
  "duly_given u w i \<longleftrightarrow>
     (\<exists>v v' r s. vault_step\<^sup>*\<^sup>* u v \<and> vault_step v v' \<and> vault_step\<^sup>*\<^sup>* v' w
        \<and> va_recoveries v i = Some r \<and> rec_phase r = Cooling \<and> va_slots v (rec_slot r) = Some s
        \<and> slot_open s \<and> rec_ready r \<le> va_clock v' \<and> va_clock v' < rec_until r)"

lemma duly_given_later: "duly_given u v i \<Longrightarrow> vault_step v w \<Longrightarrow> duly_given u w i"
  unfolding duly_given_def by (elim exE conjE, intro exI conjI, assumption+,
    erule (1) rtranclp.rtrancl_into_rtrancl, assumption+)

lemma given_run:
  "vault_step\<^sup>*\<^sup>* u w \<Longrightarrow> given_at w i b \<Longrightarrow> given_at u i b \<or> duly_given u w i"
proof (induction rule: rtranclp_induct)
  case (step v w)
  show ?case
  proof (cases "given_at v i b")
    case True
    then show ?thesis
      using step(2,3) duly_given_later by blast
  next
    case False
    then obtain r s where "va_recoveries v i = Some r" "rec_phase r = Cooling" "va_slots v (rec_slot r) = Some s"
      "slot_open s" "rec_ready r \<le> va_clock w" "va_clock w < rec_until r"
      using given_step [OF step(2,4)] by blast
    then have "duly_given u w i"
      unfolding duly_given_def using step(1,2) by (intro exI conjI) (assumption | simp)+
    then show ?thesis ..
  qed
qed simp

text \<open>
  C5: The store implements the custody protocol: in every run from a database with the store's
  invariant, such as a new one, whatever invitations and requests come, the vault its rows stand for
  goes through the protocol's steps alone, opening slots, beginning recoveries within a slot's
  attempts, giving only what cooled down in an open slot within its window, stopping and closing;
  and a contribution it holds at the end and not at the start was given in exactly such a step.
\<close>
theorem store_refines_protocol:
  assumes "store_inv d"
  shows "vault_step\<^sup>*\<^sup>* (vault_of d) (vault_of (serve x t events d))
    \<and> (given_at (vault_of (serve x t events d)) i b \<longrightarrow>
        given_at (vault_of d) i b \<or> duly_given (vault_of d) (vault_of (serve x t events d)) i)"
proof -
  have run: "vault_step\<^sup>*\<^sup>* (vault_of d) (vault_of (serve x t events d))"
    by (rule custody_vault.run_simulates [OF serve_steps assms])
  then show ?thesis
    using given_run [OF run] by blast
qed

end
