(* ===== verification/Store_Authority.thy ===== *)
theory Store_Authority
  imports Vault
begin

text \<open>
  Who may change what: every change of a session that is stored, and every end of an enrollment, is
  asked for by a request signed with the key that owns it.
\<close>

section \<open>Operations that touch no one else's rows\<close>

definition untouched :: "db \<Rightarrow> db \<Rightarrow> bool" where
  "untouched d d' \<longleftrightarrow>
     rows_lead (\<lambda>s s'. s' = s) (load_session d) (load_session d')
     \<and> rows_lead (\<lambda>r r'. erow_status r' = erow_status r) (at_key enrollment_key (db_enrollments d))
         (at_key enrollment_key (db_enrollments d'))"

lemma untouched_frame:
  "db_sessions d' = db_sessions d \<Longrightarrow> db_enrollments d' = db_enrollments d \<Longrightarrow> untouched d d'"
proof -
  assume same: "db_sessions d' = db_sessions d" "db_enrollments d' = db_enrollments d"
  then have "load_session d' = load_session d"
    by (intro ext) (simp add: load_session_def)
  with same show ?thesis
    by (simp add: untouched_def rows_lead_refl)
qed

lemma untouched_refl [simp]: "untouched d d"
  by (rule untouched_frame) simp_all

lemma issue_challenge_untouched: "issue_challenge x t e request now d = Inr (d', r) \<Longrightarrow> untouched d d'"
  by (auto simp: issue_challenge_def insert_challenge_def Let_def result_iff split: if_splits option.splits
      intro!: untouched_frame)

lemma read_enrollment_untouched: "read_enrollment x t sg now d = Inr (d', r) \<Longrightarrow> untouched d d'"
  unfolding read_enrollment_def Let_def
  by (auto elim!: and_then_InrE simp: result_simps transaction_Inr spend_nonce_clock spend_nonce_Inr
      intro!: untouched_frame)

lemma insert_untouched:
  assumes "insert_row enrollment_key row (db_enrollments d) = Some rows"
  shows "rows_lead (\<lambda>r r'. erow_status r' = erow_status r) (at_key enrollment_key (db_enrollments d))
    (at_key enrollment_key rows)"
  by (rule lead_insert [OF assms]) simp

lemma enroll_untouched:
  assumes "enroll x t request now d = Inr (d', r)"
  shows "untouched d d'"
proof -
  note insert_row_Some [simp del] and imageE [rule del] and result_simps [simp]
  have same: "db_sessions d' = db_sessions d
      \<and> (db_enrollments d' = db_enrollments d
         \<or> (\<exists>row. insert_row enrollment_key row (db_enrollments d) = Some (db_enrollments d')))"
    using assms unfolding enroll_def Let_def
    by (auto elim!: and_then_InrE split: if_split_asm option.split_asm
        simp: transaction_Inr insert_enrollment_Inr spend_challenge_def)
  then have "load_session d' = load_session d"
    by (intro ext) (simp add: load_session_def)
  then show ?thesis
    using same insert_untouched by (auto simp: untouched_def rows_lead_refl)
qed

lemma begin_recovery_untouched:
  assumes "begin_recovery x t e request now d = Inr (d', r)"
  shows "untouched d d'"
proof -
  note insert_row_Some [simp del] and imageE [rule del] and result_simps [simp]
  have "d' = d \<or> (\<exists>row en. insert_row srow_session_id row (db_sessions d) = Some (db_sessions d')
      \<and> db_enrollments d' = count_attempt en (db_enrollments d))"
    using assms unfolding begin_recovery_def Let_def
    by (clarsimp elim!: and_then_InrE split: if_split_asm option.split_asm
        simp: transaction_Inr insert_session_Inr bind_eq_Some_conv) blast
  then show ?thesis
  proof (elim disjE exE conjE)
    fix row en
    assume new: "insert_row srow_session_id row (db_sessions d) = Some (db_sessions d')"
      and count: "db_enrollments d' = count_attempt en (db_enrollments d)"
    have "rows_lead (\<lambda>s s'. s' = s) (load_session d) (load_session d')"
      unfolding load_session_lead [symmetric] by (rule lead_insert [OF new]) simp
    moreover have "rows_lead (\<lambda>r r'. erow_status r' = erow_status r) (at_key enrollment_key (db_enrollments d))
        (at_key enrollment_key (db_enrollments d'))"
      unfolding count by (rule lead_update) simp_all
    ultimately show ?thesis
      by (simp add: untouched_def)
  qed simp
qed

section \<open>Operations of the key holders\<close>

lemma read_recovery_form:
  assumes "read_recovery x t e sg now d = Inr (d', r)"
  shows "\<exists>s row. load_session d (sg_target sg) = Some s \<and> session_enrollment d s = Inr row
    \<and> verify_signature x sg (srow_proof_key s) = Inr () \<and> db_enrollments d' = db_enrollments d
    \<and> (db_sessions d' = db_sessions d \<or> (\<exists>b. db_sessions d' = release_row (sg_target sg) b (db_sessions d)))"
proof -
  obtain s d2 row st con where s: "load_session d (sg_target sg) = Some s"
    "verify_signature x sg (srow_proof_key s) = Inr ()"
    "spend_nonce (Scope_Session (sg_target sg)) sg t now d = Inr d2"
    "session_enrollment d s = Inr row"
    "read_decision x t e row s now (db_high_water d) (d2\<lparr>db_high_water := now\<rparr>) = Inr (d', st, con)"
    using assms unfolding read_recovery_def Let_def
    by (auto elim!: and_then_InrE simp: result_simps transaction_Inr spend_nonce_clock session_enrollment_nonces)
  have "db_enrollments d2 = db_enrollments d" "db_sessions d2 = db_sessions d"
    using s(3) by (auto simp: spend_nonce_Inr)
  then show ?thesis
    using s(1,2,4) read_decision_Inr [OF s(5)] load_session_id [OF s(1)] by auto
qed

lemma cancel_recovery_form:
  assumes "cancel_recovery x t sg now d = Inr (d', r)"
  shows "d' = d \<or> (\<exists>b s row st. by_holder_of (sg_by sg) = Inr b \<and> load_session d (sg_target sg) = Some s
    \<and> session_enrollment d s = Inr row
    \<and> verify_signature x sg (if b then enr_authorization_key (erow_enrollment row) else srow_proof_key s) = Inr ()
    \<and> db_enrollments d' = db_enrollments d \<and> db_sessions d' = set_status (sg_target sg) st (db_sessions d))"
  using assms unfolding cancel_recovery_def Let_def
  by (clarsimp elim!: and_then_InrE split: option.split_asm
      simp: result_simps transaction_Inr record_outcome_clock record_outcome_Inr simp del: insert_row_Some)
    (fastforce split: if_splits)

lemma end_enrollment_form:
  assumes "end_enrollment x t sg now d = Inr (d', r)"
  shows "d' = d \<or> (\<exists>row st. load_current_enrollment d (sg_target sg) = Some row
    \<and> verify_signature x sg (enr_authorization_key (erow_enrollment row)) = Inr ()
    \<and> db_sessions d' = db_sessions d \<and> db_enrollments d' = end_row (erow_enrollment row) st (db_enrollments d))"
  using assms unfolding end_enrollment_def Let_def
  by (clarsimp elim!: and_then_InrE split: option.split_asm
      simp: result_simps transaction_Inr record_outcome_clock record_outcome_Inr simp del: insert_row_Some) blast

section \<open>Changes by request\<close>

text \<open>
  What a committed request was: one that touches no other row, or a signed poll, cancellation or
  end, by the operation its body names.
\<close>

definition asked_for :: "extern \<Rightarrow> trustee \<Rightarrow> bytes \<Rightarrow> string \<Rightarrow> signed \<Rightarrow> bool" where
  "asked_for x t body operation sg \<longleftrightarrow>
     (\<exists>v. parse x body = Some v \<and> index_field v ''operation'' = JString operation
        \<and> signed_parse x v (tr_component_id t) = Some sg)"

lemma handle_named:
  assumes "handle_step x t e body now d = Inr p"
  shows "\<exists>v op. parse x body = Some v \<and> index_field v ''operation'' = JString op
    \<and> (op = ''issue-challenge'' \<and> issue_challenge x t e v now d = Inr p
      \<or> op = ''enroll'' \<and> enroll x t v now d = Inr p
      \<or> op = ''begin-recovery'' \<and> begin_recovery x t e v now d = Inr p
      \<or> (\<exists>sg. signed_parse x v (tr_component_id t) = Some sg
        \<and> (op = ''read-enrollment'' \<and> read_enrollment x t sg now d = Inr p
          \<or> op = ''read-recovery'' \<and> read_recovery x t e sg now d = Inr p
          \<or> op = ''cancel-recovery'' \<and> cancel_recovery x t sg now d = Inr p
          \<or> op \<in> {''revoke-enrollment'', ''close-enrollment''} \<and> end_enrollment x t sg now d = Inr p)))"
proof -
  obtain v where v: "parse x body = Some v"
    using assms by (auto simp: handle_step_def result_simps elim!: and_then_InrE)
  obtain op where op: "(case as_str (index_field v ''operation'') of None \<Rightarrow> [] | Some s \<Rightarrow> s) = op"
    by simp
  let ?signed = "\<lambda>f. and_then (ok_or InvalidRequest (signed_parse x v (tr_component_id t))) f"
  have signed: "?signed f = Inr p \<longleftrightarrow> (\<exists>sg. signed_parse x v (tr_component_id t) = Some sg \<and> f sg = Inr p)" for f
    by (cases "signed_parse x v (tr_component_id t)") simp_all
  have run: "(if op = ''issue-challenge'' then issue_challenge x t e v now d
        else if op = ''enroll'' then enroll x t v now d
        else if op = ''read-enrollment'' then ?signed (\<lambda>sg. read_enrollment x t sg now d)
        else if op = ''begin-recovery'' then begin_recovery x t e v now d
        else if op = ''read-recovery'' then ?signed (\<lambda>sg. read_recovery x t e sg now d)
        else if op = ''cancel-recovery'' then ?signed (\<lambda>sg. cancel_recovery x t sg now d)
        else if op = ''revoke-enrollment'' \<or> op = ''close-enrollment'' then
          ?signed (\<lambda>sg. end_enrollment x t sg now d)
        else Inl (refused_code op)) = Inr p"
    using assms by (simp add: handle_step_def Let_def v op cong: if_cong)
  then have "op \<noteq> []"
    by auto
  then have "index_field v ''operation'' = JString op"
    using op by (auto simp: as_str_iff split: option.splits)
  then show ?thesis
    using v run by (intro exI [of _ v] exI [of _ op]) (simp add: signed split: if_split_asm)
qed

lemma handle_asked:
  assumes "handle_step x t e body now d = Inr (d', r)"
  shows "untouched d d'
    \<or> (\<exists>sg. asked_for x t body ''read-recovery'' sg \<and> read_recovery x t e sg now d = Inr (d', r))
    \<or> (\<exists>sg. asked_for x t body ''cancel-recovery'' sg \<and> cancel_recovery x t sg now d = Inr (d', r))
    \<or> (\<exists>sg op. op \<in> {''revoke-enrollment'', ''close-enrollment''} \<and> asked_for x t body op sg
        \<and> end_enrollment x t sg now d = Inr (d', r))"
proof -
  obtain v op where v: "parse x body = Some v" "index_field v ''operation'' = JString op"
    and run: "op = ''issue-challenge'' \<and> issue_challenge x t e v now d = Inr (d', r)
      \<or> op = ''enroll'' \<and> enroll x t v now d = Inr (d', r)
      \<or> op = ''begin-recovery'' \<and> begin_recovery x t e v now d = Inr (d', r)
      \<or> (\<exists>sg. signed_parse x v (tr_component_id t) = Some sg
        \<and> (op = ''read-enrollment'' \<and> read_enrollment x t sg now d = Inr (d', r)
          \<or> op = ''read-recovery'' \<and> read_recovery x t e sg now d = Inr (d', r)
          \<or> op = ''cancel-recovery'' \<and> cancel_recovery x t sg now d = Inr (d', r)
          \<or> op \<in> {''revoke-enrollment'', ''close-enrollment''} \<and> end_enrollment x t sg now d = Inr (d', r)))"
    using handle_named [OF assms] by (elim exE conjE) (rule that)
  have asked: "asked_for x t body op sg" if "signed_parse x v (tr_component_id t) = Some sg" for sg
    using v that by (auto simp: asked_for_def)
  show ?thesis
    using run
  proof (elim disjE exE conjE)
    fix sg assume "signed_parse x v (tr_component_id t) = Some sg" "op = ''read-recovery''"
      "read_recovery x t e sg now d = Inr (d', r)"
    then show ?thesis
      using asked [of sg] by (intro disjI2 [OF disjI1]) blast
  next
    fix sg assume "signed_parse x v (tr_component_id t) = Some sg" "op = ''cancel-recovery''"
      "cancel_recovery x t sg now d = Inr (d', r)"
    then show ?thesis
      using asked [of sg] by (intro disjI2 [OF disjI2 [OF disjI1]]) blast
  next
    fix sg assume "signed_parse x v (tr_component_id t) = Some sg"
      "op \<in> {''revoke-enrollment'', ''close-enrollment''}" "end_enrollment x t sg now d = Inr (d', r)"
    then show ?thesis
      using asked [of sg] by (intro disjI2 [OF disjI2 [OF disjI2]]) blast
  qed (rule disjI1, erule issue_challenge_untouched enroll_untouched begin_recovery_untouched read_enrollment_untouched)+
qed

section \<open>Who asked\<close>

lemma cancel_asked_by:
  assumes "cancel_recovery x t sg now d = Inr (d', r)" "load_session d i = Some s" "load_session d' i \<noteq> Some s"
  shows "\<exists>row. session_enrollment d s = Inr row \<and> sg_target sg = i
    \<and> (sg_by sg = Some ''candidate'' \<and> verify_signature x sg (srow_proof_key s) = Inr ()
      \<or> sg_by sg = Some ''holder'' \<and> verify_signature x sg (enr_authorization_key (erow_enrollment row)) = Inr ())"
  using cancel_recovery_form [OF assms(1)]
proof (elim disjE exE conjE)
  fix b q row st
  assume q: "by_holder_of (sg_by sg) = Inr b" "load_session d (sg_target sg) = Some q"
    "session_enrollment d q = Inr row"
    "verify_signature x sg (if b then enr_authorization_key (erow_enrollment row) else srow_proof_key q) = Inr ()"
    "db_sessions d' = set_status (sg_target sg) st (db_sessions d)"
  have "load_session d' i = load_session d i" if "sg_target sg \<noteq> i"
    using q(5) that by (simp add: load_session_def sessions.lookup_update)
  moreover have "sg_by sg = Some (if b then ''holder'' else ''candidate'')"
    using q(1) by (cases "sg_by sg") (auto split: if_splits)
  ultimately show ?thesis
    using q(2-4) assms(2,3) by (cases "sg_target sg = i"; cases b) auto
qed (use assms(2,3) in simp)

lemma session_change_asked:
  assumes "handle_step x t e body now d = Inr (d', answer)" "load_session d i = Some s" "load_session d' i \<noteq> Some s"
  shows "\<exists>sg row. session_enrollment d s = Inr row \<and> sg_target sg = i
    \<and> (asked_for x t body ''read-recovery'' sg \<and> verify_signature x sg (srow_proof_key s) = Inr ()
      \<or> asked_for x t body ''cancel-recovery'' sg
        \<and> (sg_by sg = Some ''candidate'' \<and> verify_signature x sg (srow_proof_key s) = Inr ()
          \<or> sg_by sg = Some ''holder''
            \<and> verify_signature x sg (enr_authorization_key (erow_enrollment row)) = Inr ()))"
  using handle_asked [OF assms(1)]
proof (elim disjE exE conjE)
  assume "untouched d d'"
  then show ?thesis
    using assms(2,3) unfolding untouched_def by (auto dest: rows_leadD)
next
  fix sg assume sg: "asked_for x t body ''read-recovery'' sg" "read_recovery x t e sg now d = Inr (d', answer)"
  obtain q row where q: "load_session d (sg_target sg) = Some q" "session_enrollment d q = Inr row"
    "verify_signature x sg (srow_proof_key q) = Inr ()"
    "db_sessions d' = db_sessions d \<or> (\<exists>b. db_sessions d' = release_row (sg_target sg) b (db_sessions d))"
    using read_recovery_form [OF sg(2)] by blast
  have "load_session d' i = load_session d i" if "sg_target sg \<noteq> i"
    using q(4) that by (auto simp: load_session_def sessions.lookup_update)
  then show ?thesis
    using q(1-3) sg(1) assms(2,3) by (cases "sg_target sg = i") auto
next
  fix sg assume "asked_for x t body ''cancel-recovery'' sg" "cancel_recovery x t sg now d = Inr (d', answer)"
  then show ?thesis
    using cancel_asked_by assms(2,3) by blast
next
  fix sg op assume "end_enrollment x t sg now d = Inr (d', answer)"
  then have "db_sessions d' = db_sessions d"
    using end_enrollment_form by blast
  then show ?thesis
    using assms(2,3) by (simp add: load_session_def)
qed

lemma status_change_asked:
  assumes "store_inv d" "handle_step x t e body now d = Inr (d', answer)"
    and "at_key enrollment_key (db_enrollments d) k = Some r"
    and "map_option erow_status (at_key enrollment_key (db_enrollments d') k) \<noteq> Some (erow_status r)"
  shows "\<exists>sg op. op \<in> {''revoke-enrollment'', ''close-enrollment''} \<and> asked_for x t body op sg
    \<and> sg_target sg = erow_enrollment_id r
    \<and> verify_signature x sg (enr_authorization_key (erow_enrollment r)) = Inr ()"
proof -
  have moved: "db_enrollments d' \<noteq> db_enrollments d"
    using assms(3,4) by auto
  have "\<not> untouched d d'"
    using assms(3,4) unfolding untouched_def by (auto dest: rows_leadD)
  moreover have "\<not> read_recovery x t e sg now d = Inr (d', answer)" "\<not> cancel_recovery x t sg now d = Inr (d', answer)" for sg
    using moved read_recovery_form [of x t e sg now d d' answer] cancel_recovery_form [of x t sg now d d' answer] by auto
  ultimately obtain sg op where sg: "op \<in> {''revoke-enrollment'', ''close-enrollment''}" "asked_for x t body op sg"
    "end_enrollment x t sg now d = Inr (d', answer)"
    using handle_asked [OF assms(2)] by (auto simp del: insert_iff intro: that)
  obtain row st where q: "load_current_enrollment d (sg_target sg) = Some row"
    "verify_signature x sg (enr_authorization_key (erow_enrollment row)) = Inr ()"
    "db_enrollments d' = end_row (erow_enrollment row) st (db_enrollments d)"
    using end_enrollment_form [OF sg(3)] moved by auto
  have "k = (ctx_enrollment_id (enr_context (erow_enrollment row)),
      ctx_enrollment_sequence (enr_context (erow_enrollment row)))"
    using assms(3,4) by (simp add: q(3) enrollments.lookup_update split: if_split_asm)
  then have "r = row"
    using current_at_key [OF assms(1) q(1)] assms(3) by simp
  then have "sg_target sg = erow_enrollment_id r"
    "verify_signature x sg (enr_authorization_key (erow_enrollment r)) = Inr ()"
    using q(2) load_current_Some [OF q(1)] by simp_all
  with sg(1,2) show ?thesis
    by (intro exI [of _ sg] exI [of _ op] conjI)
qed

text \<open>
  C2: Only its keys move custody: when a request changes what a session's row holds, its body is a
  poll signed with the session's proof key, or a cancellation signed with the proof key for the
  candidate or with the enrollment's authorization key for the holder; and when it changes the
  status of an enrollment, its body is a revocation or closing signed with that enrollment's
  authorization key. Each names the row it changes and this trustee.
\<close>
theorem changes_authorized:
  assumes "store_inv d" "d' = fst (handle x t e body now d)"
  shows "(load_session d i = Some s \<longrightarrow> load_session d' i \<noteq> Some s \<longrightarrow>
      (\<exists>sg row. session_enrollment d s = Inr row \<and> sg_target sg = i
         \<and> (asked_for x t body ''read-recovery'' sg \<and> verify_signature x sg (srow_proof_key s) = Inr ()
            \<or> asked_for x t body ''cancel-recovery'' sg
              \<and> (sg_by sg = Some ''candidate'' \<and> verify_signature x sg (srow_proof_key s) = Inr ()
                 \<or> sg_by sg = Some ''holder''
                   \<and> verify_signature x sg (enr_authorization_key (erow_enrollment row)) = Inr ()))))
    \<and> (at_key enrollment_key (db_enrollments d) k = Some r \<longrightarrow>
       map_option erow_status (at_key enrollment_key (db_enrollments d') k) \<noteq> Some (erow_status r) \<longrightarrow>
      (\<exists>sg op. op \<in> {''revoke-enrollment'', ''close-enrollment''} \<and> asked_for x t body op sg
         \<and> sg_target sg = erow_enrollment_id r
         \<and> verify_signature x sg (enr_authorization_key (erow_enrollment r)) = Inr ()))"
proof (cases "handle_step x t e body now d")
  case (Inl c)
  then show ?thesis
    using assms(2) by (simp add: handle_def run_step_def)
next
  case (Inr p)
  then obtain answer where "handle_step x t e body now d = Inr (d', answer)"
    using assms(2) by (cases p) (simp add: handle_def run_step_def)
  note asked = session_change_asked [OF this] status_change_asked [OF assms(1) this]
  show ?thesis
    using asked by (intro conjI impI)
qed

end
