(* ===== verification/Store_Retries.thy ===== *)
theory Store_Retries
  imports Store_Custody Store_Authority Store_Tables
begin

text \<open>
  Retries: a client that lost the answer to a request that changed something sends the same body
  again. Each such handler is shown to leave enough behind to recognise its own body, what it left
  is kept by every later run, and so the recorded answer comes back.
\<close>

section \<open>Dispatch\<close>

lemma handle_changes:
  assumes "parse x body = Some v" "index_field v ''operation'' = JString op"
  shows "op = ''enroll'' \<Longrightarrow> handle_step x t e body now d = enroll x t v now d"
    "op = ''begin-recovery'' \<Longrightarrow> handle_step x t e body now d = begin_recovery x t e v now d"
    "op = ''cancel-recovery'' \<Longrightarrow> handle_step x t e body now d =
       and_then (ok_or InvalidRequest (signed_parse x v (tr_component_id t))) (\<lambda>sg. cancel_recovery x t sg now d)"
    "op \<in> {''revoke-enrollment'', ''close-enrollment''} \<Longrightarrow> handle_step x t e body now d =
       and_then (ok_or InvalidRequest (signed_parse x v (tr_component_id t))) (\<lambda>sg. end_enrollment x t sg now d)"
  using assms by (auto simp: handle_step_def Let_def)

lemma handle_answered: "handle x t e body now d = (d', Inr a) \<longleftrightarrow> handle_step x t e body now d = Inr (d', Inr a)"
  by (auto simp: handle_def run_step_def split: sum.splits)

section \<open>Beginning a recovery again\<close>

definition begun :: "extern \<Rightarrow> json \<Rightarrow> string \<Rightarrow> bytes \<Rightarrow> bool" where
  "begun x v i raw \<longleftrightarrow>
     (\<exists>r e s. begin_request_of_json v = Some r \<and> br_request_version r = 1
        \<and> verify_session x e (canonical x (br_session r)) = Inr s \<and> ses_session_id s = i \<and> ses_canonical s = raw)"

lemma session_receipt_clock [simp]:
  "session_receipt x t (d\<lparr>db_high_water := n\<rparr>) i = session_receipt x t d i"
  by (simp add: session_receipt_def)

lemma begin_answered:
  assumes "begin_recovery x t e v now d = Inr (d', Inr a)"
  shows "\<exists>i raw s. begun x v i raw \<and> load_session d' i = Some s \<and> srow_request s = raw
    \<and> session_receipt x t d' i = Inr a"
proof -
  note insert_row_Some [simp del]
  obtain r s where r: "begin_request_of_json v = Some r" "br_request_version r = 1"
    "verify_session x (ent_check e) (canonical x (br_session r)) = Inr s"
    using assms unfolding begin_recovery_def
    by (auto elim!: and_then_InrE simp: result_simps split: if_split_asm)
  then have begun: "begun x v (ses_session_id s) (ses_canonical s)"
    unfolding begun_def by blast
  have "\<exists>q. load_session d' (ses_session_id s) = Some q \<and> srow_request q = ses_canonical s
      \<and> session_receipt x t d' (ses_session_id s) = Inr a"
    using assms r unfolding begin_recovery_def Let_def
    by (clarsimp elim!: and_then_InrE split: if_split_asm option.split_asm
        simp: result_simps transaction_Inr insert_session_Inr bind_eq_Some_conv)
      (auto simp: load_session_def sessions.lookup_insert)
  with begun show ?thesis
    by blast
qed

lemma begin_again:
  assumes "seal_key_laws x" "begun x v i raw" "load_session d i = Some s" "srow_request s = raw"
    and "db_high_water d \<le> now"
  shows "begin_recovery x t e v now d = Inr (d, session_receipt x t d i)"
proof -
  obtain r f q where r: "begin_request_of_json v = Some r" "br_request_version r = 1"
    "verify_session x f (canonical x (br_session r)) = Inr q" "ses_session_id q = i" "ses_canonical q = raw"
    using assms(2) unfolding begun_def by blast
  moreover have "verify_session x (ent_check e) (canonical x (br_session r)) = Inr q"
    using r(3) verify_any_entropy [OF assms(1)] by metis
  ultimately show ?thesis
    using assms(3-5) by (simp add: begin_recovery_def transaction_def)
qed

section \<open>Enrolling again\<close>

definition enrolled_by :: "extern \<Rightarrow> json \<Rightarrow> string \<Rightarrow> bytes \<Rightarrow> bytes \<Rightarrow> bool" where
  "enrolled_by x v challenge sealed artifact \<longleftrightarrow>
     (\<exists>r. enroll_request_of_json v = Some r \<and> base64 x (er_sealed_envelope r) = Some sealed
        \<and> er_request_version r = 1 \<and> canonical x (er_protected_artifact r) = artifact
        \<and> ctx_trustee_challenge (er_context r) = challenge)"

lemma enrollment_receipt_clock [simp]:
  "enrollment_receipt x t (d\<lparr>db_high_water := n\<rparr>) c s a = enrollment_receipt x t d c s a"
  by (simp add: enrollment_receipt_def)

lemma select_challenge:
  assumes "distinct (map erow_challenge rows)"
  shows "select_row (\<lambda>r. erow_challenge r = c) rows = Some row \<longleftrightarrow> row \<in> set rows \<and> erow_challenge row = c"
  using at_key_iff [OF assms, of c row] by (simp add: at_key_def)

lemma select_inserted:
  assumes "insert_row key r t = Some t'" "select_row P t = None" "P r"
  shows "select_row P t' = Some r"
proof -
  have "t' = t @ [r]"
    using assms(1) by (auto simp: insert_row_def split: if_splits)
  moreover have "find P (t @ [r]) = Some r" if "find P t = None"
    using that assms(3) by (induction t) (auto split: if_splits)
  ultimately show ?thesis
    using assms(2) by (simp add: select_row_def)
qed

lemma enroll_answered:
  assumes "enroll x t v now d = Inr (d', Inr a)"
  shows "\<exists>c sealed artifact row. enrolled_by x v c sealed artifact
    \<and> select_row (\<lambda>r. erow_challenge r = c) (db_enrollments d') = Some row
    \<and> erow_request_digest row = digest x (canonical x v) \<and> enrollment_receipt x t d' c sealed artifact = Inr a"
proof -
  note insert_row_Some [simp del] and imageE [rule del]
  obtain r sealed where r: "enroll_request_of_json v = Some r" "base64 x (er_sealed_envelope r) = Some sealed"
    "er_request_version r = 1"
    using assms unfolding enroll_def Let_def
    by (auto elim!: and_then_InrE simp: result_simps bind_eq_Some_conv split: if_split_asm)
  let ?c = "ctx_trustee_challenge (er_context r)" and ?artifact = "canonical x (er_protected_artifact r)"
  have body: "enrolled_by x v ?c sealed ?artifact"
    using r by (auto simp: enrolled_by_def)
  have "\<exists>row. select_row (\<lambda>r. erow_challenge r = ?c) (db_enrollments d') = Some row
      \<and> erow_request_digest row = digest x (canonical x v)
      \<and> enrollment_receipt x t d' ?c sealed ?artifact = Inr a"
    using assms r unfolding enroll_def Let_def
    by (auto elim!: and_then_InrE split: if_split_asm option.split_asm
        simp: result_simps transaction_Inr insert_enrollment_Inr bind_eq_Some_conv spend_challenge_def select_inserted)
  with body show ?thesis
    by blast
qed

lemma enroll_again:
  assumes "enrolled_by x v c sealed artifact" "db_high_water d \<le> now"
    and "select_row (\<lambda>r. erow_challenge r = c) (db_enrollments d) = Some row"
    and "erow_request_digest row = digest x (canonical x v)"
  shows "enroll x t v now d = Inr (d, if ended (erow_status row) then Inl EnrollmentRevoked
    else enrollment_receipt x t d c sealed artifact)"
  using assms by (auto simp: enrolled_by_def enroll_def transaction_def ended_def Let_def)

section \<open>Stopping a session and ending an enrollment again\<close>

lemma outcome_receipt_clock [simp]:
  "outcome_receipt x t (d\<lparr>db_high_water := n\<rparr>) sc i = outcome_receipt x t d sc i"
  by (cases sc) (simp_all add: outcome_receipt_def)

lemma recorded_again:
  "record_outcome sc sg a b now d = Inr d' \<Longrightarrow> recorded_outcome d' sc sg = Some (sg_digest sg)"
  by (auto simp: record_outcome_Inr recorded_outcome_def at_key_insert outcome_key_def simp del: insert_row_Some)

lemma cancel_answered:
  assumes "cancel_recovery x t sg now d = Inr (d', Inr a)"
  shows "\<exists>b s row. by_holder_of (sg_by sg) = Inr b \<and> load_session d' (sg_target sg) = Some s
    \<and> session_enrollment d' s = Inr row
    \<and> verify_signature x sg (if b then enr_authorization_key (erow_enrollment row) else srow_proof_key s) = Inr ()
    \<and> recorded_outcome d' (Scope_Session (sg_target sg)) sg = Some (sg_digest sg)
    \<and> outcome_receipt x t d' (Scope_Session (sg_target sg)) (sg_request_id sg) = Inr a"
proof -
  obtain b s row where b: "by_holder_of (sg_by sg) = Inr b" "db_high_water d \<le> now"
    "load_session d (sg_target sg) = Some s" "session_enrollment d s = Inr row"
    "verify_signature x sg (if b then enr_authorization_key (erow_enrollment row) else srow_proof_key s) = Inr ()"
    using assms unfolding cancel_recovery_def Let_def
    by (auto elim!: and_then_InrE simp: result_simps transaction_Inr)
  let ?sc = "Scope_Session (sg_target sg)"
  show ?thesis
  proof (cases "recorded_outcome d ?sc sg")
    case (Some digest_text)
    then show ?thesis
      using assms b unfolding cancel_recovery_def Let_def
      by (auto simp: transaction_def replayed_outcome_def split: if_split_asm)
  next
    case None
    let ?st = "cancelled_status s b now"
    obtain e f d2 where run: "record_outcome ?sc sg e f now
        (d\<lparr>db_high_water := now, db_sessions := set_status (sg_target sg) ?st (db_sessions d)\<rparr>) = Inr d2"
      "d' = d2" "outcome_receipt x t d2 ?sc (sg_request_id sg) = Inr a"
      using assms b None unfolding cancel_recovery_def Let_def
      by (auto simp: transaction_def elim!: and_then_InrE)
    have "load_session d2 (sg_target sg) = Some (s\<lparr>srow_status := ?st\<rparr>)"
      "session_enrollment d2 (s\<lparr>srow_status := ?st\<rparr>) = Inr row"
      using run(1) b(3,4)
      by (auto simp: record_outcome_Inr load_session_def sessions.lookup_update session_enrollment_def
          load_enrollment_def simp del: insert_row_Some)
    then show ?thesis
      using b(1,5) run recorded_again [OF run(1)] by auto
  qed
qed

lemma cancel_again:
  assumes "by_holder_of (sg_by sg) = Inr b" "load_session d (sg_target sg) = Some s" "session_enrollment d s = Inr row"
    and "verify_signature x sg (if b then enr_authorization_key (erow_enrollment row) else srow_proof_key s) = Inr ()"
    and "recorded_outcome d (Scope_Session (sg_target sg)) sg = Some (sg_digest sg)" "db_high_water d \<le> now"
  shows "cancel_recovery x t sg now d
    = Inr (d, outcome_receipt x t d (Scope_Session (sg_target sg)) (sg_request_id sg))"
  using assms by (simp add: cancel_recovery_def transaction_def replayed_outcome_def)

lemma end_answered:
  assumes "store_inv d" "end_enrollment x t sg now d = Inr (d', Inr a)"
  shows "\<exists>row. load_current_enrollment d' (sg_target sg) = Some row
    \<and> verify_signature x sg (enr_authorization_key (erow_enrollment row)) = Inr ()
    \<and> recorded_outcome d' (scope_of_enrollment (erow_enrollment row)) sg = Some (sg_digest sg)
    \<and> outcome_receipt x t d' (scope_of_enrollment (erow_enrollment row)) (sg_request_id sg) = Inr a"
proof -
  obtain row where row: "db_high_water d \<le> now" "load_current_enrollment d (sg_target sg) = Some row"
    "verify_signature x sg (enr_authorization_key (erow_enrollment row)) = Inr ()"
    using assms(2) unfolding end_enrollment_def Let_def
    by (auto elim!: and_then_InrE simp: result_simps transaction_Inr)
  let ?sc = "scope_of_enrollment (erow_enrollment row)"
  show ?thesis
  proof (cases "recorded_outcome d ?sc sg")
    case (Some digest_text)
    then show ?thesis
      using assms(2) row unfolding end_enrollment_def Let_def
      by (auto simp: transaction_def replayed_outcome_def split: if_split_asm)
  next
    case None
    obtain e f d2 where run: "record_outcome ?sc sg e f now
        (d\<lparr>db_high_water := now, db_enrollments := end_row (erow_enrollment row)
           (ended_status (sg_operation sg) (erow_status row)) (db_enrollments d)\<rparr>) = Inr d2"
      "d' = d2" "outcome_receipt x t d2 ?sc (sg_request_id sg) = Inr a"
      using assms(2) row None unfolding end_enrollment_def Let_def
      by (auto simp: transaction_def elim!: and_then_InrE)
    have step: "store_step x t now d d'"
      using end_enrollment_steps [OF assms(2)] .
    obtain row' where row': "load_current_enrollment d' (sg_target sg) = Some row'" "enrollment_evolves row row'"
      using current_kept [OF assms(1) store_inv_step [OF step assms(1)] evolves_step [OF step assms(1)] row(2)]
      by blast
    have "erow_enrollment row' = erow_enrollment row"
      using row'(2) by (cases row; cases row') (simp add: enrollment_evolves_def)
    then show ?thesis
      using row(3) row'(1) run recorded_again [OF run(1)] by auto
  qed
qed

lemma end_again:
  assumes "load_current_enrollment d (sg_target sg) = Some row" "db_high_water d \<le> now"
    and "verify_signature x sg (enr_authorization_key (erow_enrollment row)) = Inr ()"
    and "recorded_outcome d (scope_of_enrollment (erow_enrollment row)) sg = Some (sg_digest sg)"
  shows "end_enrollment x t sg now d
    = Inr (d, outcome_receipt x t d (scope_of_enrollment (erow_enrollment row)) (sg_request_id sg))"
  using assms by (simp add: end_enrollment_def transaction_def replayed_outcome_def)

section \<open>What was left is kept\<close>

lemma evolves_binding:
  "enrollment_evolves r r' \<Longrightarrow> erow_enrollment r' = erow_enrollment r \<and> erow_challenge r' = erow_challenge r
     \<and> erow_request_digest r' = erow_request_digest r \<and> erow_stored_at r' = erow_stored_at r"
  by (cases r; cases r') (simp add: enrollment_evolves_def)

lemma begin_retried:
  assumes "seal_key_laws x" "store_inv d" "begin_recovery x t e v now d = Inr (d', Inr a)" "store_inv d'"
    and "db_high_water (serve x t events d') \<le> later"
  shows "begin_recovery x t e' v later (serve x t events d') = Inr (serve x t events d', Inr a)"
proof -
  obtain i raw s where i: "begun x v i raw" "load_session d' i = Some s" "srow_request s = raw"
    "session_receipt x t d' i = Inr a"
    using begin_answered [OF assms(3)] by blast
  obtain s' where s': "load_session (serve x t events d') i = Some s'" "srow_request s' = raw"
    using kept_session [OF assms(4) i(2)] evolved_row i(3) by metis
  show ?thesis
    using begin_again [OF assms(1) i(1) s' assms(5)] begin_receipt_stable [OF assms(4) i(2)] i(4) by simp
qed

lemma enroll_retried:
  assumes "store_inv d'" "enroll x t v now d = Inr (d', Inr a)" "db_high_water (serve x t events d') \<le> later"
  shows "\<exists>r. enroll x t v later (serve x t events d') = Inr (serve x t events d', r)
    \<and> (r = Inr a \<or> r = Inl EnrollmentRevoked)"
proof -
  let ?d = "serve x t events d'"
  obtain c sealed artifact row where row: "enrolled_by x v c sealed artifact"
    "select_row (\<lambda>r. erow_challenge r = c) (db_enrollments d') = Some row"
    "erow_request_digest row = digest x (canonical x v)" "enrollment_receipt x t d' c sealed artifact = Inr a"
    using enroll_answered [OF assms(2)] by blast
  have inv: "store_inv ?d"
    using serve_inv [OF assms(1)] .
  have "row \<in> set (db_enrollments d')" "erow_challenge row = c"
    using select_row_Some [OF row(2)] by auto
  then have "load_current_enrollment d' (erow_enrollment_id row) = Some row"
    using current_iff [OF assms(1)] by simp
  then obtain row' where row': "load_current_enrollment ?d (erow_enrollment_id row) = Some row'"
    "enrollment_evolves row row'"
    using current_kept [OF assms(1) inv serve_evolves [OF assms(1)]] by blast
  then have found: "select_row (\<lambda>r. erow_challenge r = c) (db_enrollments ?d) = Some row'"
    using inv evolves_binding [OF row'(2)] \<open>erow_challenge row = c\<close>
    by (subst select_challenge) (auto simp: store_inv_def keys_ok_def current_iff [OF inv])
  note again = enroll_again [OF row(1) assms(3) found]
  show ?thesis
  proof (cases "ended (erow_status row')")
    case True
    then show ?thesis
      using again evolves_binding [OF row'(2)] row(3) by simp
  next
    case False
    have "row' \<in> set (db_enrollments ?d)"
      using row'(1) by (simp add: current_iff [OF inv])
    then have "erow_status row' = Accepted"
      using inv False by (cases "erow_status row'") (auto simp: store_inv_def enrollments_ok_def enrollment_ok_def ended_def)
    then have "enrollment_receipt x t ?d c sealed artifact = enrollment_receipt x t d' c sealed artifact"
      using row'(2) evolves_binding [OF row'(2)] found row(2)
      by (simp add: enrollment_receipt_def enrollment_evolves_def)
    then show ?thesis
      using again evolves_binding [OF row'(2)] row(3,4) False by simp
  qed
qed

lemma cancel_retried:
  assumes "store_inv d'" "cancel_recovery x t sg now d = Inr (d', Inr a)" "db_high_water (serve x t events d') \<le> later"
  shows "cancel_recovery x t sg later (serve x t events d') = Inr (serve x t events d', Inr a)"
proof -
  let ?d = "serve x t events d'" and ?sc = "Scope_Session (sg_target sg)"
  obtain b s row where b: "by_holder_of (sg_by sg) = Inr b" "load_session d' (sg_target sg) = Some s"
    "session_enrollment d' s = Inr row"
    "verify_signature x sg (if b then enr_authorization_key (erow_enrollment row) else srow_proof_key s) = Inr ()"
    "recorded_outcome d' ?sc sg = Some (sg_digest sg)" "outcome_receipt x t d' ?sc (sg_request_id sg) = Inr a"
    using cancel_answered [OF assms(2)] by blast
  obtain oc where oc: "at_key outcome_key (db_outcomes d') (scope_key ?sc, sg_request_id sg) = Some oc"
    using b(5) by (auto simp: recorded_outcome_def)
  have recorded: "recorded_outcome ?d ?sc sg = Some (sg_digest sg)"
    using kept_outcome [OF assms(1) oc] oc b(5) by (simp add: recorded_outcome_def)
  have s: "load_session ?d (sg_target sg) = Some s"
    using stopped_session_kept [OF assms(1) oc] b(2) by auto
  have "s \<in> set (db_sessions d')"
    using b(2) load_session_in by blast
  then obtain row' where row': "session_enrollment ?d s = Inr row'" "erow_enrollment row' = erow_enrollment row"
    using evolved_enrollment [OF assms(1)] b(3) unfolding session_enrollment_def by force
  have key: "verify_signature x sg
      (if b then enr_authorization_key (erow_enrollment row') else srow_proof_key s) = Inr ()"
    unfolding row'(2) by (rule b(4))
  show ?thesis
    unfolding cancel_again [OF b(1) s row'(1) key recorded assms(3)] cancel_receipt_stable [OF assms(1) oc] b(6) ..
qed

lemma end_retried:
  assumes "store_inv d" "store_inv d'" "end_enrollment x t sg now d = Inr (d', Inr a)"
    and "db_high_water (serve x t events d') \<le> later"
  shows "end_enrollment x t sg later (serve x t events d') = Inr (serve x t events d', Inr a)"
proof -
  let ?d = "serve x t events d'"
  obtain row where row: "load_current_enrollment d' (sg_target sg) = Some row"
    "verify_signature x sg (enr_authorization_key (erow_enrollment row)) = Inr ()"
    "recorded_outcome d' (scope_of_enrollment (erow_enrollment row)) sg = Some (sg_digest sg)"
    "outcome_receipt x t d' (scope_of_enrollment (erow_enrollment row)) (sg_request_id sg) = Inr a"
    using end_answered [OF assms(1,3)] by blast
  let ?sc = "scope_of_enrollment (erow_enrollment row)"
  obtain row' where row': "load_current_enrollment ?d (sg_target sg) = Some row'" "enrollment_evolves row row'"
    using current_kept [OF assms(2) serve_inv [OF assms(2)] serve_evolves [OF assms(2)] row(1)] by blast
  obtain oc where oc: "at_key outcome_key (db_outcomes d') (scope_key ?sc, sg_request_id sg) = Some oc"
    using row(3) by (auto simp: recorded_outcome_def)
  have recorded: "recorded_outcome ?d ?sc sg = Some (sg_digest sg)"
    using kept_outcome [OF assms(2) oc] oc row(3) by (simp add: recorded_outcome_def)
  have "outcome_receipt x t ?d ?sc (sg_request_id sg) = Inr a"
    using row(4) current_at_key [OF assms(2) row(1)]
    by (simp add: scope_of_enrollment_def load_enrollment_def
        end_receipt_stable [OF assms(2) _ oc [unfolded scope_of_enrollment_def]])
  then show ?thesis
    using end_again [OF row'(1) assms(4)] row(2) recorded evolves_binding [OF row'(2)] by simp
qed

text \<open>The operations that commit a change for good, told from the polls and the challenges.\<close>

definition LASTING :: "string list" where
  "LASTING = [''enroll'', ''begin-recovery'', ''cancel-recovery'', ''revoke-enrollment'', ''close-enrollment'']"


end
