(* ===== verification/Store_Served.thy ===== *)
theory Store_Served
  imports Store_Retries
begin

text \<open>
  What the key holders can always bring about: whatever was stored before, a well-formed request
  signed with the right key is answered with a signed receipt and has its effect for good.
\<close>

declare scope_key.simps [simp del]

section \<open>Receipts that can be written\<close>

definition writable :: "extern \<Rightarrow> i64 list \<Rightarrow> bool" where
  "writable x ns \<longleftrightarrow> list_all (\<lambda>n. format_timestamp x n \<noteq> None) ns"

lemma time_writable: "writable x ns \<Longrightarrow> n \<in> set ns \<Longrightarrow> \<exists>w. time x n = Inr w"
  by (auto simp: writable_def list_all_iff time_def)

lemma session_outcome_receipt:
  assumes "at_key outcome_key (db_outcomes d) (scope_key (Scope_Session i), q) = Some oc"
    and "load_session d i = Some s" "session_enrollment d s = Inr row"
    and "writable x [srow_expires_at s, srow_cooldown_ends_at s, or_recorded_at oc]"
  shows "\<exists>rc. outcome_receipt x t d (Scope_Session i) q = Inr (sign_object x (receipt_json rc) (tr_signing_key t))"
proof -
  obtain u v w where "time x (srow_expires_at s) = Inr u" "time x (srow_cooldown_ends_at s) = Inr v"
    "time x (or_recorded_at oc) = Inr w"
    using time_writable [OF assms(4)] by (metis list.set_intros)
  then show ?thesis
    using assms(1-3) by (auto simp: outcome_receipt_def session_receipt_fields_def)
qed

section \<open>Stopping a live session\<close>

lemma live_no_outcome:
  assumes "store_inv d" "load_session d i = Some s" "srow_status s \<in> {CoolingDown, Released}"
    and "db_high_water d \<le> now" "now < srow_expires_at s"
  shows "at_key outcome_key (db_outcomes d) (scope_key (Scope_Session i), q) = None"
proof (rule ccontr)
  assume "at_key outcome_key (db_outcomes d) (scope_key (Scope_Session i), q) \<noteq> None"
  then obtain oc where "oc \<in> set (db_outcomes d)" "or_scope oc = scope_key (Scope_Session i)"
    by (auto dest!: at_key_Some simp: outcome_key_def)
  then have "session_final (db_high_water d) s"
    using assms(1,2) unfolding store_inv_def outcomes_ok_def by fastforce
  then show False
    using assms(3-5) by (auto simp: session_final_def session_live_def)
qed

lemma stop_runs:
  assumes "by_holder_of (sg_by sg) = Inr b" "db_high_water d \<le> now" "load_session d i = Some s"
    and "sg_target sg = i" "session_enrollment d s = Inr row"
    and "verify_signature x sg (if b then enr_authorization_key (erow_enrollment row) else srow_proof_key s) = Inr ()"
    and "check_fresh sg t now = Inr ()" "srow_status s \<in> {CoolingDown, Released}" "now < srow_expires_at s"
    and "at_key outcome_key (db_outcomes d) (scope_key (Scope_Session i), sg_request_id sg) = None"
    and "writable x [srow_expires_at s, srow_cooldown_ends_at s, now]"
  shows "\<exists>d' rc. cancel_recovery x t sg now d = Inr (d', Inr (sign_object x (receipt_json rc) (tr_signing_key t)))
    \<and> load_session d' i = Some (s\<lparr>srow_status := if b then Vetoed else Cancelled\<rparr>)"
proof -
  let ?sc = "Scope_Session i" and ?st = "if b then Vetoed else Cancelled"
  let ?state = "\<lambda>st. session_state_name st (srow_cooldown_ends_at s) (srow_expires_at s) now"
  let ?oc = "\<lparr>or_scope = scope_key ?sc, or_request_id = sg_request_id sg, or_request_digest = sg_digest sg,
    or_operation = sg_operation sg, or_old_state = ?state (srow_status s), or_new_state = ?state ?st,
    or_recorded_at = now\<rparr>"
  let ?d = "d\<lparr>db_high_water := now, db_sessions := set_status i ?st (db_sessions d)\<rparr>"
  have st: "cancelled_status s b now = ?st"
    using assms(8,9) by (auto simp: cancelled_status_def Let_def)
  have recorded: "record_outcome ?sc sg (?state (srow_status s)) (?state ?st) now ?d
      = Inr (?d\<lparr>db_outcomes := db_outcomes d @ [?oc]\<rparr>)"
    using assms(10) by (auto simp: record_outcome_def insert_row_def at_key_None outcome_key_def Let_def)
  let ?d' = "?d\<lparr>db_outcomes := db_outcomes d @ [?oc]\<rparr>" and ?s = "s\<lparr>srow_status := ?st\<rparr>"
  have i: "srow_session_id s = i"
    using assms(3) load_session_in by blast
  have s: "load_session ?d' i = Some ?s" "session_enrollment ?d' ?s = Inr row"
    using assms(3,5) by (simp_all add: load_session_def sessions.lookup_update session_enrollment_def
        load_enrollment_def)
  have "at_key outcome_key (db_outcomes ?d') (scope_key ?sc, sg_request_id sg) = Some ?oc"
    using assms(10) at_key_insert [of outcome_key ?oc "db_outcomes d" "db_outcomes d @ [?oc]"]
    by (simp add: insert_row_def at_key_None outcome_key_def)
  from session_outcome_receipt [OF this s, of x t] assms(11)
  obtain rc where rc: "outcome_receipt x t ?d' ?sc (sg_request_id sg)
      = Inr (sign_object x (receipt_json rc) (tr_signing_key t))"
    by auto
  have "recorded_outcome (d\<lparr>db_high_water := now\<rparr>) ?sc sg = None"
    using assms(10) by (simp add: recorded_outcome_def)
  then have "cancel_recovery x t sg now d = Inr (?d', outcome_receipt x t ?d' ?sc (sg_request_id sg))"
    using assms(1-7) recorded unfolding st [symmetric] by (simp add: cancel_recovery_def transaction_def Let_def)
  then show ?thesis
    unfolding rc using s(1) by (intro exI conjI)
qed

text \<open>A signed request of a client that is fresh at \<open>now\<close>.\<close>

definition fresh_for ::
  "extern \<Rightarrow> trustee \<Rightarrow> string \<Rightarrow> string \<Rightarrow> i64 \<Rightarrow> i64 \<Rightarrow> signed_request \<Rightarrow> bool" where
  "fresh_for x t operation target issued now r \<longleftrightarrow>
     request_for x t operation target issued r \<and> clock_time now \<and> \<bar>issued - now\<bar> \<le> lim_skew_secs (tr_limits t)"

lemma signed_for_fields [simp]:
  "sg_target (signed_for x key target issued r) = target"
  "sg_by (signed_for x key target issued r) = sr_by r"
  "sg_request_id (signed_for x key target issued r) = sr_request_id r"
  "sg_operation (signed_for x key target issued r) = sr_operation r"
  "sg_issued_at (signed_for x key target issued r) = issued"
  by (simp_all add: signed_for_def)

lemma fresh_for_checks:
  assumes "time_laws x" "fresh_for x t op i issued now r"
  shows "check_fresh (signed_for x key i issued r) t now = Inr ()"
proof -
  have "wire_time issued"
    using timestamp_wire [OF assms(1)] assms(2) by (auto simp: fresh_for_def request_for_def)
  then show ?thesis
    using assms(2) by (simp add: check_fresh_iff fresh_for_def)
qed

text \<open>The key that may stop a session, by the member \<open>by\<close> of the request.\<close>

definition stopping_key :: "string option \<Rightarrow> enrollment_row \<Rightarrow> session_row \<Rightarrow> (bytes \<times> session_status) option" where
  "stopping_key who row s =
     (if who = Some ''holder'' then Some (enr_authorization_key (erow_enrollment row), Vetoed)
      else if who = Some ''candidate'' then Some (srow_proof_key s, Cancelled)
      else None)"

lemma stopping_key_Some:
  "stopping_key who row s = Some (k, st) \<Longrightarrow> \<exists>b. by_holder_of who = Inr b
     \<and> k = (if b then enr_authorization_key (erow_enrollment row) else srow_proof_key s)
     \<and> st = (if b then Vetoed else Cancelled)"
  by (auto simp: stopping_key_def split: if_splits)

lemma stop_served:
  assumes "json_laws x" "base64_laws x" "ed25519_laws x" "time_laws x" "store_inv d"
    and "load_session d i = Some s" "session_enrollment d s = Inr row"
    and "srow_status s \<in> {CoolingDown, Released}" "db_high_water d \<le> now" "now < srow_expires_at s"
    and "fresh_for x t ''cancel-recovery'' i issued now r"
    and "stopping_key (sr_by r) row s = Some (ed25519_public_key x key, st)"
    and "writable x [srow_expires_at s, srow_cooldown_ends_at s, now]"
  shows "\<exists>d' rc. handle x t e (client_request x key r) now d
      = (d', Inr (sign_object x (receipt_json rc) (tr_signing_key t)))
    \<and> load_session d' i = Some (s\<lparr>srow_status := st\<rparr>)"
proof -
  let ?sg = "signed_for x key i issued r"
  have r: "request_for x t ''cancel-recovery'' i issued r"
    using assms(11) by (simp add: fresh_for_def)
  note parsed = request_parsed [OF assms(1-3) r, of key]
  obtain b where b: "by_holder_of (sg_by ?sg) = Inr b"
    "ed25519_public_key x key = (if b then enr_authorization_key (erow_enrollment row) else srow_proof_key s)"
    "st = (if b then Vetoed else Cancelled)"
    using stopping_key_Some [OF assms(12)] by auto
  have key: "verify_signature x ?sg
      (if b then enr_authorization_key (erow_enrollment row) else srow_proof_key s) = Inr ()"
    using parsed(4) unfolding b(2) .
  obtain d' rc where "cancel_recovery x t ?sg now d = Inr (d', Inr (sign_object x (receipt_json rc) (tr_signing_key t)))"
    "load_session d' i = Some (s\<lparr>srow_status := st\<rparr>)"
    using stop_runs [OF b(1) assms(9,6) _ assms(7) key fresh_for_checks [OF assms(4,11)] assms(8,10)
        live_no_outcome [OF assms(5,6,8,9,10)] assms(13)] b(3) by auto
  then show ?thesis
    using handle_changes(3) [OF parsed(1,2) refl] parsed(3) by (auto simp: handle_def run_step_def)
qed

text \<open>
  C8: A live recovery can always be stopped, for good: in every database with the store's invariant,
  while a session is cooling down or released and has not expired, a fresh veto signed with the
  authorization key of its enrollment, or a fresh cancellation signed with the session's proof key,
  is answered with a signed receipt; the session is then vetoed or cancelled, and nothing that
  follows changes its row.
\<close>
theorem live_recovery_stopped:
  assumes "json_laws x" "base64_laws x" "ed25519_laws x" "time_laws x" "store_inv d"
    and "load_session d i = Some s" "session_enrollment d s = Inr row"
    and "srow_status s \<in> {CoolingDown, Released}" "db_high_water d \<le> now" "now < srow_expires_at s"
    and "fresh_for x t ''cancel-recovery'' i issued now r"
    and "stopping_key (sr_by r) row s = Some (ed25519_public_key x key, st)"
    and "writable x [srow_expires_at s, srow_cooldown_ends_at s, now]"
  shows "\<exists>d' rc. handle x t e (client_request x key r) now d
      = (d', Inr (sign_object x (receipt_json rc) (tr_signing_key t)))
    \<and> (\<forall>events. load_session (serve x t events d') i = Some (s\<lparr>srow_status := st\<rparr>))"
proof -
  obtain d' rc where d': "handle x t e (client_request x key r) now d
      = (d', Inr (sign_object x (receipt_json rc) (tr_signing_key t)))"
    "load_session d' i = Some (s\<lparr>srow_status := st\<rparr>)"
    using stop_served [OF assms, of e] by blast
  have inv: "store_inv d'"
    using handle_inv [OF assms(5), of x t e "client_request x key r" now] d'(1) by simp
  have "session_final h (s\<lparr>srow_status := st\<rparr>)" for h
    using stopping_key_Some [OF assms(12)] by (auto simp: session_final_def session_live_def split: if_split_asm)
  then have "load_session (serve x t events d') i = Some (s\<lparr>srow_status := st\<rparr>)" for events
    using kept_session [OF inv d'(2)] unfolding session_evolves_def by metis
  then show ?thesis
    using d'(1) by blast
qed

section \<open>Ending an enrollment\<close>

lemma enrollment_outcome_receipt:
  assumes "at_key outcome_key (db_outcomes d) (scope_key (scope_of_enrollment en), q) = Some oc"
    and "at_key enrollment_key (db_enrollments d)
      (ctx_enrollment_id (enr_context en), ctx_enrollment_sequence (enr_context en)) = Some row"
    and "writable x [enr_expires_at (erow_enrollment row), or_recorded_at oc]"
  shows "\<exists>rc. outcome_receipt x t d (scope_of_enrollment en) q
    = Inr (sign_object x (receipt_json rc) (tr_signing_key t))"
proof -
  obtain u v where "time x (enr_expires_at (erow_enrollment row)) = Inr u" "time x (or_recorded_at oc) = Inr v"
    using time_writable [OF assms(3)] by (metis list.set_intros)
  then show ?thesis
    using assms(1,2) by (auto simp: outcome_receipt_def scope_of_enrollment_def load_enrollment_def)
qed

lemma end_runs:
  assumes "store_inv d" "db_high_water d \<le> now" "load_current_enrollment d (sg_target sg) = Some row"
    and "verify_signature x sg (enr_authorization_key (erow_enrollment row)) = Inr ()"
    and "check_fresh sg t now = Inr ()"
    and "at_key outcome_key (db_outcomes d) (scope_key (scope_of_enrollment (erow_enrollment row)), sg_request_id sg) = None"
    and "writable x [enr_expires_at (erow_enrollment row), now]"
  shows "\<exists>d' rc. end_enrollment x t sg now d = Inr (d', Inr (sign_object x (receipt_json rc) (tr_signing_key t)))
    \<and> at_key enrollment_key (db_enrollments d') (ctx_enrollment_id (enr_context (erow_enrollment row)),
        ctx_enrollment_sequence (enr_context (erow_enrollment row)))
      = Some (row\<lparr>erow_status := ended_status (sg_operation sg) (erow_status row),
          erow_sealed_envelope := None, erow_protected_artifact := None\<rparr>)"
proof -
  let ?en = "erow_enrollment row" and ?sc = "scope_of_enrollment (erow_enrollment row)"
  let ?st = "ended_status (sg_operation sg) (erow_status row)"
  let ?state = "\<lambda>st. enrollment_state_name st (enr_expires_at ?en) now"
  let ?oc = "\<lparr>or_scope = scope_key ?sc, or_request_id = sg_request_id sg, or_request_digest = sg_digest sg,
    or_operation = sg_operation sg, or_old_state = ?state (erow_status row), or_new_state = ?state ?st,
    or_recorded_at = now\<rparr>"
  let ?d = "d\<lparr>db_high_water := now, db_enrollments := end_row ?en ?st (db_enrollments d)\<rparr>"
  let ?d' = "?d\<lparr>db_outcomes := db_outcomes d @ [?oc]\<rparr>"
  have recorded: "record_outcome ?sc sg (?state (erow_status row)) (?state ?st) now ?d = Inr ?d'"
    using assms(6) by (auto simp: record_outcome_def insert_row_def at_key_None outcome_key_def Let_def)
  have row: "at_key enrollment_key (db_enrollments ?d')
      (ctx_enrollment_id (enr_context ?en), ctx_enrollment_sequence (enr_context ?en))
      = Some (row\<lparr>erow_status := ?st, erow_sealed_envelope := None, erow_protected_artifact := None\<rparr>)"
    using current_at_key [OF assms(1,3)] by (simp add: enrollments.lookup_update)
  have "at_key outcome_key (db_outcomes ?d') (scope_key ?sc, sg_request_id sg) = Some ?oc"
    using assms(6) at_key_insert [of outcome_key ?oc "db_outcomes d" "db_outcomes d @ [?oc]"]
    by (simp add: insert_row_def at_key_None outcome_key_def)
  from enrollment_outcome_receipt [OF this row, of x t] assms(7)
  obtain rc where rc: "outcome_receipt x t ?d' ?sc (sg_request_id sg)
      = Inr (sign_object x (receipt_json rc) (tr_signing_key t))"
    by auto
  have "recorded_outcome (d\<lparr>db_high_water := now\<rparr>) ?sc sg = None"
    using assms(6) by (simp add: recorded_outcome_def)
  then have "end_enrollment x t sg now d = Inr (?d', outcome_receipt x t ?d' ?sc (sg_request_id sg))"
    using assms(2-5) recorded by (simp add: end_enrollment_def transaction_def Let_def)
  then show ?thesis
    unfolding rc using row by (intro exI conjI)
qed

lemma ended_stays:
  assumes "store_inv d" "load_current_enrollment d i = Some r" "ended (erow_status r)"
  shows "\<exists>r'. load_current_enrollment (serve x t events d) i = Some r' \<and> erow_enrollment r' = erow_enrollment r
    \<and> ended (erow_status r') \<and> erow_sealed_envelope r' = None \<and> erow_protected_artifact r' = None
    \<and> (\<forall>s n m k. release (erow_state r') s n m \<noteq> Inr k)"
proof -
  have inv: "store_inv (serve x t events d)"
    using serve_inv [OF assms(1)] .
  obtain r' where r': "load_current_enrollment (serve x t events d) i = Some r'" "enrollment_evolves r r'"
    using current_kept [OF assms(1) inv serve_evolves [OF assms(1)] assms(2)] by blast
  have st: "ended (erow_status r')"
    using r'(2) assms(3) by (simp add: enrollment_evolves_def)
  have "enrollment_ok r'"
    using inv r'(1) current_iff [OF inv] by (simp add: store_inv_def enrollments_ok_def)
  then have "erow_sealed_envelope r' = None \<and> erow_protected_artifact r' = None"
    using ended_custody st by blast
  moreover have "release (erow_state r') s n m \<noteq> Inr k" for s n m k
    using st by (auto simp: release_Inr erow_state_def ended_def)
  ultimately show ?thesis
    using r'(1) st evolves_binding [OF r'(2)] by blast
qed

lemma end_served:
  assumes "json_laws x" "base64_laws x" "ed25519_laws x" "time_laws x" "store_inv d"
    and "load_current_enrollment d i = Some row" "db_high_water d \<le> now"
    and "op \<in> {''revoke-enrollment'', ''close-enrollment''}" "fresh_for x t op i issued now r"
    and "enr_authorization_key (erow_enrollment row) = ed25519_public_key x key"
    and "at_key outcome_key (db_outcomes d)
      (scope_key (scope_of_enrollment (erow_enrollment row)), sr_request_id r) = None"
    and "writable x [enr_expires_at (erow_enrollment row), now]"
  shows "\<exists>d' rc r'. handle x t e (client_request x key r) now d
      = (d', Inr (sign_object x (receipt_json rc) (tr_signing_key t)))
    \<and> load_current_enrollment d' i = Some r' \<and> ended (erow_status r') \<and> erow_enrollment r' = erow_enrollment row"
proof -
  let ?sg = "signed_for x key i issued r"
  have r: "request_for x t op i issued r" "sr_operation r = op"
    using assms(9) by (simp_all add: fresh_for_def request_for_def)
  note parsed = request_parsed [OF assms(1-3) r(1), of key]
  have key: "verify_signature x ?sg (enr_authorization_key (erow_enrollment row)) = Inr ()"
    using parsed(4) unfolding assms(10) .
  obtain d' rc where run: "end_enrollment x t ?sg now d = Inr (d', Inr (sign_object x (receipt_json rc) (tr_signing_key t)))"
    "at_key enrollment_key (db_enrollments d') (ctx_enrollment_id (enr_context (erow_enrollment row)),
        ctx_enrollment_sequence (enr_context (erow_enrollment row)))
      = Some (row\<lparr>erow_status := ended_status op (erow_status row),
          erow_sealed_envelope := None, erow_protected_artifact := None\<rparr>)"
    using end_runs [OF assms(5,7) _ key fresh_for_checks [OF assms(4,9)] _ assms(12)] assms(6,11) r(2)
    by auto
  have h: "handle x t e (client_request x key r) now d
      = (d', Inr (sign_object x (receipt_json rc) (tr_signing_key t)))"
    using handle_changes(4) [OF parsed(1,2) assms(8)] parsed(3) run(1) by (simp add: handle_def run_step_def)
  have inv: "store_inv d'"
    using handle_inv [OF assms(5), of x t e "client_request x key r" now] h by simp
  have "load_current_enrollment d' i = Some (row\<lparr>erow_status := ended_status op (erow_status row),
          erow_sealed_envelope := None, erow_protected_artifact := None\<rparr>)"
    unfolding current_iff [OF inv] using run(2) load_current_Some [OF assms(6)] by (auto dest: at_key_Some)
  then show ?thesis
    using h by (auto simp: ended_def ended_status_def)
qed

text \<open>
  C9: A holder can always take custody back, for good: in every database with the store's invariant, a
  fresh revocation or closing with an unused request ID, signed with the authorization key of an
  enrollment that was stored, is answered with a signed receipt; from then on the enrollment's row
  holds neither envelope nor artifact, and no session of it is ever releasable.
\<close>
theorem enrollment_ended_for_good:
  assumes "json_laws x" "base64_laws x" "ed25519_laws x" "time_laws x" "store_inv d"
    and "load_current_enrollment d i = Some row" "db_high_water d \<le> now"
    and "op \<in> {''revoke-enrollment'', ''close-enrollment''}" "fresh_for x t op i issued now r"
    and "enr_authorization_key (erow_enrollment row) = ed25519_public_key x key"
    and "at_key outcome_key (db_outcomes d)
      (scope_key (scope_of_enrollment (erow_enrollment row)), sr_request_id r) = None"
    and "writable x [enr_expires_at (erow_enrollment row), now]"
  shows "\<exists>d' rc. handle x t e (client_request x key r) now d
      = (d', Inr (sign_object x (receipt_json rc) (tr_signing_key t)))
    \<and> (\<forall>events. \<exists>r'. load_current_enrollment (serve x t events d') i = Some r'
        \<and> erow_enrollment r' = erow_enrollment row
        \<and> erow_sealed_envelope r' = None \<and> erow_protected_artifact r' = None
        \<and> (\<forall>s n m k. release (erow_state r') s n m \<noteq> Inr k))"
proof -
  obtain d' rc r' where d': "handle x t e (client_request x key r) now d
      = (d', Inr (sign_object x (receipt_json rc) (tr_signing_key t)))"
    "load_current_enrollment d' i = Some r'" "ended (erow_status r')" "erow_enrollment r' = erow_enrollment row"
    using end_served [OF assms, of e] by blast
  have inv: "store_inv d'"
    using handle_inv [OF assms(5), of x t e "client_request x key r" now] d'(1) by simp
  show ?thesis
    using d'(1,4) ended_stays [OF inv d'(2,3)] by fastforce
qed

section \<open>Admission without wrap-around\<close>

text \<open>The limits every configuration of the service gives its trustee.\<close>

definition serving :: "trustee \<Rightarrow> bool" where
  "serving t \<longleftrightarrow> tr_limits t = service_limits (lim_min_cooldown_secs (tr_limits t))
     \<and> 0 < lim_min_cooldown_secs (tr_limits t)"

lemma accepted_durations:
  assumes "serving t" "custody_ok x t d" "row \<in> set (db_enrollments d)" "erow_status row = Accepted"
  shows "0 < cooldown_secs (enr_policy (erow_enrollment row))"
    "cooldown_secs (enr_policy (erow_enrollment row)) < session_lifetime_secs (enr_policy (erow_enrollment row))"
    "session_lifetime_secs (enr_policy (erow_enrollment row)) \<le> 30 * DAY"
proof -
  obtain sealed at where "accept_enrollment x t (enr_context (erow_enrollment row)) sealed at
      = Inr (erow_enrollment row)"
    using assms(2-4) by (auto simp: custody_ok_def row_held_def)
  then obtain e where "admit_envelope x t e (enr_context (erow_enrollment row)) at = Inr (erow_enrollment row)"
    by (auto simp: accept_enrollment_Inr)
  note bounds = policy_bounds [OF admit_envelope_Inr(6) [OF this]]
  have "lim_max_session_lifetime_secs (tr_limits t) = 30 * DAY"
    using assms(1) unfolding serving_def by (metis limits.select_convs(4) service_limits_def)
  then show "0 < cooldown_secs (enr_policy (erow_enrollment row))"
    "cooldown_secs (enr_policy (erow_enrollment row)) < session_lifetime_secs (enr_policy (erow_enrollment row))"
    "session_lifetime_secs (enr_policy (erow_enrollment row)) \<le> 30 * DAY"
    using bounds assms(1) unfolding serving_def by linarith+
qed

text \<open>When a recovery may begin, in exact arithmetic.\<close>

definition admissible :: "trustee \<Rightarrow> enrollment_row \<Rightarrow> session \<Rightarrow> i64 \<Rightarrow> bool" where
  "admissible t row s now \<longleftrightarrow>
     (let p = enr_policy (erow_enrollment row) in
      erow_status row = Accepted \<and> now < enr_expires_at (erow_enrollment row)
      \<and> erow_attempts_used row < maximum_attempts p
      \<and> \<bar>ses_requested_at s - now\<bar> \<le> lim_skew_secs (tr_limits t)
      \<and> now + cooldown_secs p < ses_expires_at s
      \<and> ses_expires_at s \<le> now + session_lifetime_secs p
      \<and> ses_expires_at s \<le> enr_expires_at (erow_enrollment row))"

lemma admit_exact:
  assumes "serving t" "custody_ok x t d" "row \<in> set (db_enrollments d)" "clock_time now"
    and "wire_time (ses_requested_at s)"
  shows "admit (erow_state row) (enr_policy (erow_enrollment row)) (erow_attempts_used row)
      (ses_requested_at s) (ses_expires_at s) now (lim_skew_secs (tr_limits t)) = Inr a
    \<longleftrightarrow> admissible t row s now
      \<and> a = \<lparr>adm_cooldown_ends_at = now + cooldown_secs (enr_policy (erow_enrollment row)),
            adm_expires_at = ses_expires_at s\<rparr>"
proof (cases "erow_status row = Accepted")
  case True
  note durations = accepted_durations [OF assms(1-3) True]
  let ?p = "enr_policy (erow_enrollment row)"
  have "\<bar>ses_requested_at s - now\<bar> < 2 ^ 63"
    using assms(4,5) unfolding wire_time_def clock_time_def by (simp add: abs_less_iff)
  then have "in_i64 (ses_requested_at s - now)" "in_i64 \<bar>ses_requested_at s - now\<bar>"
    by (auto simp: in_i64_def)
  moreover have "in_i64 (now + cooldown_secs ?p)" "in_i64 (now + session_lifetime_secs ?p)"
    using durations assms(4) by (auto simp: in_i64_def clock_time_def DAY_def)
  ultimately show ?thesis
    using True durations by (auto simp: admit_Inr admissible_def erow_state_def i64_exact Let_def)
qed (auto simp: admit_Inr admissible_def erow_state_def)

lemma verified_requested_at:
  assumes "time_laws x" "verify_session x e raw = Inr s"
  shows "wire_time (ses_requested_at s)"
proof -
  obtain w where "timestamp x w = Some (ses_requested_at s)"
    using assms(2) by (auto simp: verify_session_def result_iff Let_def split: if_splits)
  then show ?thesis
    by (rule timestamp_wire [OF assms(1)])
qed

section \<open>Beginning a recovery\<close>

lemma begin_receipt_made:
  assumes "load_session d i = Some s" "session_enrollment d s = Inr row"
    and "writable x [srow_expires_at s, srow_cooldown_ends_at s, srow_created_at s]"
  shows "\<exists>rc. session_receipt x t d i = Inr (sign_object x (receipt_json rc) (tr_signing_key t))"
proof -
  obtain u v w where "time x (srow_expires_at s) = Inr u" "time x (srow_cooldown_ends_at s) = Inr v"
    "time x (srow_created_at s) = Inr w"
    using time_writable [OF assms(3)] by (metis list.set_intros)
  then show ?thesis
    using assms(1,2) by (auto simp: session_receipt_def session_receipt_fields_def Let_def)
qed

lemma begin_runs:
  assumes "store_inv d" "db_high_water d \<le> now"
    and "begin_request_of_json v = Some r" "br_request_version r = 1"
    and "verify_session x (ent_check e) (canonical x (br_session r)) = Inr s"
    and "load_session d (ses_session_id s) = None" "load_current_enrollment d (ses_enrollment_id s) = Some row"
    and "binds s (enr_context (erow_enrollment row))"
    and "admit (erow_state row) (enr_policy (erow_enrollment row)) (erow_attempts_used row)
      (ses_requested_at s) (ses_expires_at s) now (lim_skew_secs (tr_limits t)) = Inr adm"
    and "writable x [adm_expires_at adm, adm_cooldown_ends_at adm, now]"
    and "st = (case check_factor x (erow_enrollment row) s of Inr _ \<Rightarrow> CoolingDown | Inl _ \<Rightarrow> Refused)"
  shows "\<exists>d' rc. begin_recovery x t e v now d = Inr (d', Inr (sign_object x (receipt_json rc) (tr_signing_key t)))
    \<and> load_session d' (ses_session_id s) = Some (begun_row row s st adm now)
    \<and> session_enrollment d' (begun_row row s st adm now)
      = Inr (row\<lparr>erow_attempts_used := erow_attempts_used row + 1\<rparr>)
    \<and> db_nonces d' = db_nonces d"
proof -
  let ?en = "erow_enrollment row" and ?s = "begun_row row s st adm now"
  let ?k = "(ctx_enrollment_id (enr_context ?en), ctx_enrollment_sequence (enr_context ?en))"
  let ?d = "d\<lparr>db_high_water := now, db_enrollments := count_attempt ?en (db_enrollments d)\<rparr>"
  let ?d' = "?d\<lparr>db_sessions := db_sessions d @ [?s]\<rparr>"
  have row: "at_key enrollment_key (db_enrollments ?d') ?k
      = Some (row\<lparr>erow_attempts_used := erow_attempts_used row + 1\<rparr>)"
    using current_at_key [OF assms(1,7)] by (simp add: enrollments.lookup_update)
  have "?k \<in> enrollment_key ` set (db_enrollments ?d)"
    using at_key_Some [OF current_at_key [OF assms(1,7)]] by (simp add: image_iff) metis
  moreover have new: "insert_row srow_session_id ?s (db_sessions d) = Some (db_sessions d @ [?s])"
    using assms(6) by (simp add: insert_row_def load_session_def at_key_None)
  ultimately have inserted: "insert_session ?s ?d = Inr ?d'"
    by (simp add: insert_session_def)
  have s: "load_session ?d' (ses_session_id s) = Some ?s"
    using sessions.lookup_insert [OF new] by (simp add: load_session_def)
  have en: "session_enrollment ?d' ?s = Inr (row\<lparr>erow_attempts_used := erow_attempts_used row + 1\<rparr>)"
    using row by (simp add: session_enrollment_def load_enrollment_def)
  obtain rc where rc: "session_receipt x t ?d' (ses_session_id s)
      = Inr (sign_object x (receipt_json rc) (tr_signing_key t))"
    using begin_receipt_made [OF s en] assms(10) by auto
  have "begin_recovery x t e v now d = Inr (?d', session_receipt x t ?d' (ses_session_id s))"
    using assms(2-9) inserted unfolding assms(11) by (simp add: begin_recovery_def transaction_def Let_def)
  moreover have "db_nonces ?d' = db_nonces d"
    by simp
  ultimately show ?thesis
    unfolding rc using s en by (intro exI conjI)
qed

text \<open>
  C15: An admissible recovery begins: in every database with the store's invariant and sound custody,
  a new session that verifies and repeats the context of an accepted enrollment, asked for within the
  clock skew, expiring after the policy's cooldown and inside its lifetime and the enrollment's term,
  with an attempt left, is answered with a signed receipt and stored. It cools down for exactly the
  policy's cooldown when it presents the enrolled factor and is refused otherwise, and it costs one
  attempt either way. No sum wraps around for the limits the service sets.
\<close>
theorem recovery_begun:
  assumes "time_laws x" "serving t" "store_inv d" "custody_ok x t d" "db_high_water d \<le> now" "clock_time now"
    and "parse x body = Some v" "index_field v ''operation'' = JString ''begin-recovery''"
    and "begin_request_of_json v = Some r" "br_request_version r = 1"
    and "verify_session x (ent_check e) (canonical x (br_session r)) = Inr s"
    and "load_session d (ses_session_id s) = None" "load_current_enrollment d (ses_enrollment_id s) = Some row"
    and "binds s (enr_context (erow_enrollment row))" "admissible t row s now"
    and "ends = now + cooldown_secs (enr_policy (erow_enrollment row))" "writable x [ses_expires_at s, ends, now]"
  shows "\<exists>d' rc q. handle x t e body now d = (d', Inr (sign_object x (receipt_json rc) (tr_signing_key t)))
    \<and> load_session d' (ses_session_id s) = Some q
    \<and> srow_status q = (if check_factor x (erow_enrollment row) s = Inr () then CoolingDown else Refused)
    \<and> srow_request q = ses_canonical s \<and> srow_proof_key q = ses_proof_key s
    \<and> srow_cooldown_ends_at q = ends \<and> srow_expires_at q = ses_expires_at s \<and> srow_contribution q = None
    \<and> session_enrollment d' q = Inr (row\<lparr>erow_attempts_used := erow_attempts_used row + 1\<rparr>)"
proof -
  have "row \<in> set (db_enrollments d)"
    using assms(13) load_current_Some by blast
  from admit_exact [OF assms(2,4) this assms(6) verified_requested_at [OF assms(1,11)]] assms(15,16)
  have admitted: "admit (erow_state row) (enr_policy (erow_enrollment row)) (erow_attempts_used row)
      (ses_requested_at s) (ses_expires_at s) now (lim_skew_secs (tr_limits t))
    = Inr \<lparr>adm_cooldown_ends_at = ends, adm_expires_at = ses_expires_at s\<rparr>"
    by simp
  let ?st = "case check_factor x (erow_enrollment row) s of Inr _ \<Rightarrow> CoolingDown | Inl _ \<Rightarrow> Refused"
  let ?q = "begun_row row s ?st \<lparr>adm_cooldown_ends_at = ends, adm_expires_at = ses_expires_at s\<rparr> now"
  obtain d' rc where run: "begin_recovery x t e v now d = Inr (d', Inr (sign_object x (receipt_json rc) (tr_signing_key t)))"
    "load_session d' (ses_session_id s) = Some ?q"
    "session_enrollment d' ?q = Inr (row\<lparr>erow_attempts_used := erow_attempts_used row + 1\<rparr>)"
    using begin_runs [OF assms(3,5,9-14) admitted _ refl] assms(17) by auto
  have "handle x t e body now d = (d', Inr (sign_object x (receipt_json rc) (tr_signing_key t)))"
    using handle_changes(2) [OF assms(7,8) refl] run(1) by (simp add: handle_def run_step_def)
  moreover have "?st = (if check_factor x (erow_enrollment row) s = Inr () then CoolingDown else Refused)"
    by (cases "check_factor x (erow_enrollment row) s") auto
  ultimately show ?thesis
    using run(2,3) by (intro exI [of _ d'] exI [of _ rc] exI [of _ ?q]) simp
qed

end
