(* ===== verification/Store_Enrolling.thy ===== *)
theory Store_Enrolling
  imports Store_Served
begin

text \<open>
  An enrollment that passes the core's checks is stored, and uses its invitation up for good.
\<close>

declare scope_key.simps [simp del]

section \<open>The answer to a challenge request\<close>

text \<open>The one answer of \<open>handle\<close> that is no receipt: a plain object without a signature.\<close>

lemma challenge_answer_unsigned:
  assumes "issue_challenge x t e v now d = Inr (d', Inr b)"
  shows "\<exists>challenge until. b = canonical x (json_object
      [(''challenge'', JString challenge), (''componentId'', JString (tr_component_id t)),
       (''expiresAt'', JString until), (''trusteeKeyId'', JString (key_id x t))])"
  using assms unfolding issue_challenge_def Let_def
  by (auto elim!: and_then_InrE simp: result_simps transaction_Inr split: if_split_asm) (intro exI, rule refl)

section \<open>Enrolling\<close>

lemma open_invitation_rows:
  assumes "open_invitation_of d ch now = Some i"
  shows "\<exists>c v. at_key chl_challenge (db_challenges d) ch = Some c \<and> chl_invitation c = i \<and> chl_used_at c = None
    \<and> at_key inv_digest (db_invitations d) i = Some v \<and> inv_used_at v = None"
  using assms
  by (auto simp: open_invitation_of_def invitation_open_def challenge_open_def split: option.splits if_splits)

lemma open_challenge_unused:
  assumes "store_inv d" "open_invitation_of d ch now = Some i"
  shows "ch \<notin> erow_challenge ` set (db_enrollments d)" "ch \<in> chl_challenge ` set (db_challenges d)"
proof -
  obtain c where c: "at_key chl_challenge (db_challenges d) ch = Some c" "chl_used_at c = None"
    using open_invitation_rows [OF assms(2)] by blast
  show "ch \<in> chl_challenge ` set (db_challenges d)"
    using at_key_Some [OF c(1)] by blast
  show "ch \<notin> erow_challenge ` set (db_enrollments d)"
  proof
    assume "ch \<in> erow_challenge ` set (db_enrollments d)"
    then obtain r j where "erow_challenge r = ch" "granted d r j"
      using assms(1) unfolding store_inv_def grants_ok_def by blast
    then show False
      using c by (auto simp: granted_def)
  qed
qed

lemma enroll_runs:
  assumes "store_inv d" "db_high_water d \<le> now"
    and "enroll_request_of_json v = Some r" "er_request_version r = 1" "base64 x (er_sealed_envelope r) = Some sealed"
    and "er_context r = c" "canonical x (er_protected_artifact r) = artifact" "er_trustee_key_id r = key_id x t"
    and "open_invitation_of d (ctx_trustee_challenge c) now = Some i"
    and "accept_enrollment x t c sealed now = Inr en" "check_artifact x t en artifact = Inr ()"
    and "load_current_enrollment d (ctx_enrollment_id c) = None" "writable x [now, enr_expires_at en]"
    and "row = enrolled_row en (digest x (canonical x v)) now sealed artifact"
    and "d' = spend_challenge (ctx_trustee_challenge c) i now
      (d\<lparr>db_high_water := now, db_enrollments := db_enrollments d @ [row]\<rparr>)"
  shows "\<exists>rc. enroll x t v now d = Inr (d', Inr (sign_object x (receipt_json rc) (tr_signing_key t)))"
proof -
  let ?ch = "ctx_trustee_challenge c"
  have ctx: "enr_context en = c"
    using accepted_context [OF assms(10)] .
  have unused: "select_row (\<lambda>row. erow_challenge row = ?ch) (db_enrollments d) = None"
    using open_challenge_unused(1) [OF assms(1,9)] by (simp add: select_row_fresh)
  have new: "insert_row enrollment_key row (db_enrollments d) = Some (db_enrollments d @ [row])"
    using assms(12) ctx unfolding load_current_None assms(14)
    by (auto simp: insert_row_def enrollment_key_def image_iff)
  then have inserted: "insert_enrollment row (d\<lparr>db_high_water := now\<rparr>)
      = Inr (d\<lparr>db_high_water := now, db_enrollments := db_enrollments d @ [row]\<rparr>)"
    using open_challenge_unused [OF assms(1,9)] ctx unfolding assms(14) by (simp add: insert_enrollment_def)
  have "select_row (\<lambda>r. erow_challenge r = ?ch) (db_enrollments d') = Some row"
    using select_inserted [OF new unused] ctx unfolding assms(14,15) by (simp add: spend_challenge_def)
  moreover obtain u w where "time x now = Inr u" "time x (enr_expires_at en) = Inr w"
    using time_writable [OF assms(13)] by (metis list.set_intros)
  ultimately have "\<exists>rc. enrollment_receipt x t d' ?ch sealed artifact
      = Inr (sign_object x (receipt_json rc) (tr_signing_key t))"
    unfolding assms(14) by (auto simp: enrollment_receipt_def Let_def)
  moreover have "enroll x t v now d = Inr (d', enrollment_receipt x t d' ?ch sealed artifact)"
    using assms(2-12) unused inserted ctx unfolding assms(14,15)
    by (simp add: enroll_def transaction_def Let_def)
  ultimately show ?thesis
    by simp
qed

lemma spent_closed:
  assumes "open_invitation_of d ch n = Some i" "grants_kept (spend_challenge ch i now (d\<lparr>db_high_water := m, db_enrollments := rs\<rparr>)) d'"
  shows "open_invitation_of d' ch k = None" "\<not> invitation_open d' i k"
proof -
  let ?d = "spend_challenge ch i now (d\<lparr>db_high_water := m, db_enrollments := rs\<rparr>)"
  obtain c v where c: "at_key chl_challenge (db_challenges d) ch = Some c"
    "at_key inv_digest (db_invitations d) i = Some v"
    using open_invitation_rows [OF assms(1)] by blast
  have "at_key chl_challenge (db_challenges ?d) ch = Some (c\<lparr>chl_used_at := Some now\<rparr>)"
    "at_key inv_digest (db_invitations ?d) i = Some (v\<lparr>inv_used_at := Some now\<rparr>)"
    using c by (simp_all add: spend_challenge_def challenges.lookup_update invitations.lookup_update)
  then obtain c' v' where "at_key chl_challenge (db_challenges d') ch = Some c'" "chl_used_at c' \<noteq> None"
    "at_key inv_digest (db_invitations d') i = Some v'" "inv_used_at v' \<noteq> None"
    using assms(2) unfolding grants_kept_def by (fastforce dest!: rows_leadD)
  then show "open_invitation_of d' ch k = None" "\<not> invitation_open d' i k"
    by (auto simp: open_invitation_of_def invitation_open_def challenge_open_def)
qed

text \<open>
  C16: An acceptable enrollment is stored once: in every database with the store's invariant, when the
  context answers an open challenge, names a free enrollment ID, and the core accepts envelope and
  artifact, \<open>enroll\<close> is answered with a signed receipt. Exactly one row is added, which holds the
  received bytes, the digest of the request and no spent attempt; every other row, and every session
  and outcome, is as before; and from then on neither the challenge nor its invitation is ever open.
\<close>
theorem enrollment_stored:
  assumes "store_inv d" "db_high_water d \<le> now"
    and "parse x body = Some v" "index_field v ''operation'' = JString ''enroll''"
    and "enroll_request_of_json v = Some r" "er_request_version r = 1" "base64 x (er_sealed_envelope r) = Some sealed"
    and "er_context r = c" "canonical x (er_protected_artifact r) = artifact" "er_trustee_key_id r = key_id x t"
    and "open_invitation_of d (ctx_trustee_challenge c) now = Some i"
    and "accept_enrollment x t c sealed now = Inr en" "check_artifact x t en artifact = Inr ()"
    and "load_current_enrollment d (ctx_enrollment_id c) = None" "writable x [now, enr_expires_at en]"
  shows "\<exists>d' rc. handle x t e body now d = (d', Inr (sign_object x (receipt_json rc) (tr_signing_key t)))
    \<and> db_enrollments d' = db_enrollments d @ [enrolled_row en (digest x (canonical x v)) now sealed artifact]
    \<and> db_sessions d' = db_sessions d \<and> db_outcomes d' = db_outcomes d
    \<and> (\<forall>events k. open_invitation_of (serve x t events d') (ctx_trustee_challenge c) k = None
        \<and> \<not> invitation_open (serve x t events d') i k)"
proof -
  let ?rows = "db_enrollments d @ [enrolled_row en (digest x (canonical x v)) now sealed artifact]"
  let ?d' = "spend_challenge (ctx_trustee_challenge c) i now (d\<lparr>db_high_water := now, db_enrollments := ?rows\<rparr>)"
  obtain rc where "enroll x t v now d = Inr (?d', Inr (sign_object x (receipt_json rc) (tr_signing_key t)))"
    using enroll_runs [OF assms(1,2,5-15) refl refl] by blast
  then have h: "handle x t e body now d = (?d', Inr (sign_object x (receipt_json rc) (tr_signing_key t)))"
    using handle_changes(1) [OF assms(3,4) refl] by (simp add: handle_def run_step_def)
  have "store_inv ?d'"
    using handle_inv [OF assms(1), of x t e body now] h by simp
  then have "grants_kept ?d' (serve x t events ?d')" for events
    using serve_evolves by (simp add: evolves_def)
  then have "open_invitation_of (serve x t events ?d') (ctx_trustee_challenge c) k = None
      \<and> \<not> invitation_open (serve x t events ?d') i k" for events k
    using spent_closed [OF assms(11)] by blast
  then show ?thesis
    using h by (intro exI [of _ ?d'] exI [of _ rc]) (simp add: spend_challenge_def)
qed

end
