(* ===== verification/Custody_Recovered.thy ===== *)
theory Custody_Recovered
  imports Store_Enrolling
begin

text \<open>
  The whole of custody: an enrollment, a recovery begun later, and the candidate's poll, each in the
  database the requests in between have left. The three requests are described by what an honest
  sender makes true of them.
\<close>

section \<open>Enrolling\<close>

text \<open>An acceptable enrollment: the body asks the trustee to hold \<open>sealed\<close>, and it is accepted as \<open>en\<close>.\<close>

definition enrolls :: "extern \<Rightarrow> trustee \<Rightarrow> db \<Rightarrow> bytes \<Rightarrow> i64 \<Rightarrow> bytes \<Rightarrow> enrollment \<Rightarrow> bool" where
  "enrolls x t d body now sealed en \<longleftrightarrow>
     (\<exists>v r i. parse x body = Some v \<and> index_field v ''operation'' = JString ''enroll''
        \<and> enroll_request_of_json v = Some r \<and> er_request_version r = 1
        \<and> base64 x (er_sealed_envelope r) = Some sealed \<and> er_trustee_key_id r = key_id x t
        \<and> open_invitation_of d (ctx_trustee_challenge (er_context r)) now = Some i
        \<and> accept_enrollment x t (er_context r) sealed now = Inr en
        \<and> check_artifact x t en (canonical x (er_protected_artifact r)) = Inr ()
        \<and> load_current_enrollment d (ctx_enrollment_id (er_context r)) = None)
     \<and> db_high_water d \<le> now \<and> writable x [now, enr_expires_at en]"

lemma enrolls_stored:
  assumes "store_inv d" "enrolls x t d body now sealed en" "handle x t e body now d = (d', a)"
  shows "\<exists>row. load_current_enrollment d' (ctx_enrollment_id (enr_context en)) = Some row
    \<and> erow_status row = Accepted \<and> erow_enrollment row = en \<and> erow_sealed_envelope row = Some sealed
    \<and> erow_attempts_used row = 0"
    "db_sessions d' = db_sessions d" "db_nonces d' = db_nonces d" "db_high_water d' = now"
proof -
  obtain v r i where r: "parse x body = Some v" "index_field v ''operation'' = JString ''enroll''"
    "enroll_request_of_json v = Some r" "er_request_version r = 1"
    "base64 x (er_sealed_envelope r) = Some sealed" "er_trustee_key_id r = key_id x t"
    "open_invitation_of d (ctx_trustee_challenge (er_context r)) now = Some i"
    "accept_enrollment x t (er_context r) sealed now = Inr en"
    "check_artifact x t en (canonical x (er_protected_artifact r)) = Inr ()"
    "load_current_enrollment d (ctx_enrollment_id (er_context r)) = None"
    "db_high_water d \<le> now" "writable x [now, enr_expires_at en]"
    using assms(2) by (auto simp: enrolls_def)
  let ?row = "enrolled_row en (digest x (canonical x v)) now sealed (canonical x (er_protected_artifact r))"
  let ?d' = "spend_challenge (ctx_trustee_challenge (er_context r)) i now
    (d\<lparr>db_high_water := now, db_enrollments := db_enrollments d @ [?row]\<rparr>)"
  obtain rc where "enroll x t v now d = Inr (?d', Inr (sign_object x (receipt_json rc) (tr_signing_key t)))"
    using enroll_runs [OF assms(1) r(11,3-5) refl refl r(6-10,12) refl refl] by blast
  then have d': "d' = ?d'"
    using handle_changes(1) [OF r(1,2) refl] assms(3) by (simp add: handle_def run_step_def)
  have "store_inv d'"
    using handle_inv [OF assms(1), of x t e body now] assms(3) by simp
  moreover have "?row \<in> set (db_enrollments d')" "erow_enrollment_id ?row = ctx_enrollment_id (enr_context en)"
    by (simp_all add: d' spend_challenge_def)
  ultimately have "load_current_enrollment d' (ctx_enrollment_id (enr_context en)) = Some ?row"
    using current_iff by blast
  then show "\<exists>row. load_current_enrollment d' (ctx_enrollment_id (enr_context en)) = Some row
    \<and> erow_status row = Accepted \<and> erow_enrollment row = en \<and> erow_sealed_envelope row = Some sealed
    \<and> erow_attempts_used row = 0"
    by (intro exI [of _ ?row]) simp
  show "db_sessions d' = db_sessions d" "db_nonces d' = db_nonces d" "db_high_water d' = now"
    by (simp_all add: d' spend_challenge_def)
qed

section \<open>Beginning\<close>

text \<open>A recovery that is admitted: the body carries a session that verifies as \<open>s\<close> and presents the factor.\<close>

definition begins :: "extern \<Rightarrow> trustee \<Rightarrow> entropy \<Rightarrow> db \<Rightarrow> bytes \<Rightarrow> i64 \<Rightarrow> session \<Rightarrow> bool" where
  "begins x t e d body now s \<longleftrightarrow>
     (\<exists>v r row. parse x body = Some v \<and> index_field v ''operation'' = JString ''begin-recovery''
        \<and> begin_request_of_json v = Some r \<and> br_request_version r = 1
        \<and> verify_session x (ent_check e) (canonical x (br_session r)) = Inr s
        \<and> load_session d (ses_session_id s) = None
        \<and> load_current_enrollment d (ses_enrollment_id s) = Some row
        \<and> binds s (enr_context (erow_enrollment row)) \<and> admissible t row s now
        \<and> check_factor x (erow_enrollment row) s = Inr ()
        \<and> writable x [ses_expires_at s, now + cooldown_secs (enr_policy (erow_enrollment row)), now])
     \<and> db_high_water d \<le> now \<and> clock_time now"

lemma begins_stored:
  assumes "json_laws x" "seal_key_laws x" "time_laws x" "serving t" "store_inv d" "custody_ok x t d"
    and "begins x t e d body now s" "handle x t e body now d = (d', a)"
    and "load_current_enrollment d (ses_enrollment_id s) = Some row" "erow_enrollment row = en"
  shows "\<exists>q. load_session d' (ses_session_id s) = Some q \<and> srow_status q = CoolingDown
    \<and> session_key q = (ctx_enrollment_id (enr_context en), ctx_enrollment_sequence (enr_context en))
    \<and> srow_request q = ses_canonical s \<and> srow_proof_key q = ses_proof_key s
    \<and> srow_cooldown_ends_at q = now + cooldown_secs (enr_policy en)
    \<and> srow_expires_at q = ses_expires_at s
    \<and> session_enrollment d' q = Inr (row\<lparr>erow_attempts_used := erow_attempts_used row + 1\<rparr>)"
    "ses_expires_at s \<le> enr_expires_at en" "db_nonces d' = db_nonces d"
    "verify_session x e' (ses_canonical s) = Inr s"
    "writable x [ses_expires_at s, now + cooldown_secs (enr_policy en), now]"
proof -
  obtain v r where r: "parse x body = Some v" "index_field v ''operation'' = JString ''begin-recovery''"
    "begin_request_of_json v = Some r" "br_request_version r = 1"
    "verify_session x (ent_check e) (canonical x (br_session r)) = Inr s"
    "load_session d (ses_session_id s) = None" "binds s (enr_context en)" "admissible t row s now"
    "check_factor x en s = Inr ()"
    "writable x [ses_expires_at s, now + cooldown_secs (enr_policy en), now]" "db_high_water d \<le> now" "clock_time now"
    using assms(7,9,10) by (auto simp: begins_def)
  have "row \<in> set (db_enrollments d)"
    using assms(9) load_current_Some by blast
  from admit_exact [OF assms(4,6) this r(12) verified_requested_at [OF assms(3) r(5)]] r(8)
  have admitted: "admit (erow_state row) (enr_policy (erow_enrollment row)) (erow_attempts_used row)
      (ses_requested_at s) (ses_expires_at s) now (lim_skew_secs (tr_limits t))
    = Inr \<lparr>adm_cooldown_ends_at = now + cooldown_secs (enr_policy en), adm_expires_at = ses_expires_at s\<rparr>"
    using assms(10) by simp
  let ?q = "begun_row row s CoolingDown
    \<lparr>adm_cooldown_ends_at = now + cooldown_secs (enr_policy en), adm_expires_at = ses_expires_at s\<rparr> now"
  obtain d'' rc where run: "begin_recovery x t e v now d = Inr (d'', Inr (sign_object x (receipt_json rc) (tr_signing_key t)))"
    "load_session d'' (ses_session_id s) = Some ?q"
    "session_enrollment d'' ?q = Inr (row\<lparr>erow_attempts_used := erow_attempts_used row + 1\<rparr>)"
    "db_nonces d'' = db_nonces d"
    using begin_runs [OF assms(5) r(11,3-6) assms(9) _ admitted _, of CoolingDown] r(7,9,10) assms(10) by auto
  have d': "d'' = d'"
    using handle_changes(2) [OF r(1,2) refl] run(1) assms(8) by (simp add: handle_def run_step_def)
  show "\<exists>q. load_session d' (ses_session_id s) = Some q \<and> srow_status q = CoolingDown
    \<and> session_key q = (ctx_enrollment_id (enr_context en), ctx_enrollment_sequence (enr_context en))
    \<and> srow_request q = ses_canonical s \<and> srow_proof_key q = ses_proof_key s
    \<and> srow_cooldown_ends_at q = now + cooldown_secs (enr_policy en)
    \<and> srow_expires_at q = ses_expires_at s
    \<and> session_enrollment d' q = Inr (row\<lparr>erow_attempts_used := erow_attempts_used row + 1\<rparr>)"
    using run(2,3) assms(10) by (intro exI [of _ ?q]) (simp add: d' session_key_def)
  show "ses_expires_at s \<le> enr_expires_at en"
    using r(8) assms(10) by (simp add: admissible_def Let_def)
  show "db_nonces d' = db_nonces d"
    using run(4) by (simp add: d')
  show "verify_session x e' (ses_canonical s) = Inr s"
    using verify_again [OF assms(1,2) r(5)] .
  show "writable x [ses_expires_at s, now + cooldown_secs (enr_policy en), now]"
    by (rule r(10))
qed

section \<open>Polling\<close>

definition polls :: "extern \<Rightarrow> trustee \<Rightarrow> db \<Rightarrow> i64 \<Rightarrow> string \<Rightarrow> signed_request \<Rightarrow> bool" where
  "polls x t d now i r \<longleftrightarrow>
     (\<exists>issued. fresh_for x t ''read-recovery'' i issued now r)
     \<and> (scope_key (Scope_Session i), sr_request_id r) \<notin> nonce_key ` set (db_nonces d)
     \<and> db_high_water d \<le> now \<and> writable x [now]"

text \<open>Nobody has stopped the recovery, ended the enrollment or been given the contribution.\<close>

definition undisturbed :: "db \<Rightarrow> enrollment \<Rightarrow> session \<Rightarrow> bool" where
  "undisturbed d en s \<longleftrightarrow>
     (case load_current_enrollment d (ctx_enrollment_id (enr_context en)) of
        None \<Rightarrow> False | Some row \<Rightarrow> erow_status row = Accepted)
     \<and> (case load_session d (ses_session_id s) of
        None \<Rightarrow> False | Some q \<Rightarrow> srow_status q = CoolingDown)"

lemma handle_custody:
  assumes "json_laws x" "seal_key_laws x" "store_inv d" "custody_ok x t d"
  shows "custody_ok x t (fst (handle x t e body now d))"
  using custody_ok_step [OF assms handle_steps] .

lemma serve_custody:
  assumes "json_laws x" "seal_key_laws x" "store_inv d" "custody_ok x t d"
  shows "custody_ok x t (serve x t events d)"
  using custody.run_fact [OF serve_steps assms(3), of x t events] assms(1,2,4) by blast

section \<open>From enrollment to recovery\<close>

text \<open>What later requests leave of the two rows.\<close>

lemma rows_left:
  assumes "store_inv d" "load_current_enrollment d (ctx_enrollment_id (enr_context en)) = Some row"
    and "erow_enrollment row = en" "erow_sealed_envelope row = Some sealed"
    and "load_current_enrollment (serve x t events d) (ctx_enrollment_id (enr_context en)) = Some row'"
    and "erow_status row' = Accepted"
  shows "erow_enrollment row' = en" "erow_sealed_envelope row' = Some sealed"
proof -
  obtain r where "load_current_enrollment (serve x t events d) (ctx_enrollment_id (enr_context en)) = Some r"
    "enrollment_evolves row r"
    using current_kept [OF assms(1) serve_inv [OF assms(1)] serve_evolves [OF assms(1)] assms(2)] by blast
  then have "enrollment_evolves row row'"
    using assms(5) by simp
  moreover from this have "erow_enrollment row' = erow_enrollment row"
    by (cases row; cases row') (simp add: enrollment_evolves_def)
  ultimately show "erow_enrollment row' = en" "erow_sealed_envelope row' = Some sealed"
    using assms(3,4,6) by (simp_all add: enrollment_evolves_def)
qed

text \<open>The two rows when the candidate polls.\<close>

definition waiting_rows :: "db \<Rightarrow> bytes \<Rightarrow> enrollment \<Rightarrow> session \<Rightarrow> i64 \<Rightarrow> session_row \<Rightarrow> enrollment_row \<Rightarrow> bool" where
  "waiting_rows d sealed en s ends q row \<longleftrightarrow>
     load_session d (ses_session_id s) = Some q \<and> session_enrollment d q = Inr row
     \<and> srow_status q = CoolingDown \<and> srow_request q = ses_canonical s \<and> srow_proof_key q = ses_proof_key s
     \<and> srow_cooldown_ends_at q = ends \<and> srow_expires_at q = ses_expires_at s
     \<and> erow_status row = Accepted \<and> erow_enrollment row = en \<and> erow_sealed_envelope row = Some sealed"

lemma rows_waiting:
  assumes "json_laws x" "seal_key_laws x" "time_laws x" "serving t" "store_inv d1" "custody_ok x t d1"
    and "load_current_enrollment d1 (ctx_enrollment_id (enr_context en)) = Some row1" "erow_enrollment row1 = en"
    and "erow_sealed_envelope row1 = Some sealed"
    and "d2 = serve x t between d1" "begins x t e' d2 body' now' s"
    and "ses_enrollment_id s = ctx_enrollment_id (enr_context en)" "handle x t e' body' now' d2 = (d3, a3)"
    and "d4 = serve x t waiting d3" "undisturbed d4 en s"
  shows "\<exists>q row. waiting_rows d4 sealed en s (now' + cooldown_secs (enr_policy en)) q row"
    "ses_expires_at s \<le> enr_expires_at en" "verify_session x f (ses_canonical s) = Inr s"
    "writable x [ses_expires_at s, now' + cooldown_secs (enr_policy en), now']"
    "store_inv d4" "custody_ok x t d4"
proof -
  let ?id = "ctx_enrollment_id (enr_context en)" and ?i = "ses_session_id s"
  have d4: "d4 = serve x t (Request e' body' now' # waiting) d2"
    using assms(13,14) by simp
  have inv: "store_inv d2" "store_inv d3"
    using handle_inv [of d2 x t e' body' now'] serve_inv [OF assms(5)] assms(10,13) by auto
  have custody: "custody_ok x t d2"
    using serve_custody [OF assms(1,2,5,6)] assms(10) by simp
  show inv4: "store_inv d4" and "custody_ok x t d4"
    using serve_inv [OF inv(1)] serve_custody [OF assms(1,2) inv(1) custody] by (simp_all only: d4)
  obtain row2 where row2: "load_current_enrollment d2 ?id = Some row2" "erow_status row2 = Accepted"
    using assms(11,12) by (auto simp: begins_def admissible_def Let_def)
  note left2 = rows_left [OF assms(5,7-9), of x t between, folded assms(10), OF row2]
  have "load_current_enrollment d2 (ses_enrollment_id s) = Some row2"
    using assms(12) row2 by simp
  note stored = begins_stored [OF assms(1-4) inv(1) custody assms(11,13) this left2(1)]
  show "ses_expires_at s \<le> enr_expires_at en" "verify_session x f (ses_canonical s) = Inr s"
    "writable x [ses_expires_at s, now' + cooldown_secs (enr_policy en), now']"
    by (fact stored(2,4,5))+
  obtain q where q: "load_session d3 ?i = Some q" "session_key q = (?id, ctx_enrollment_sequence (enr_context en))"
    "srow_request q = ses_canonical s" "srow_proof_key q = ses_proof_key s"
    "srow_cooldown_ends_at q = now' + cooldown_secs (enr_policy en)" "srow_expires_at q = ses_expires_at s"
    using stored(1) by blast
  obtain row4 q4 where now4: "load_current_enrollment d4 ?id = Some row4" "erow_status row4 = Accepted"
    "load_session d4 ?i = Some q4" "srow_status q4 = CoolingDown"
    using assms(15) by (auto simp: undisturbed_def split: option.splits)
  note left4 = rows_left [OF inv(1) row2(1) left2, of x t "Request e' body' now' # waiting", folded d4, OF now4(1,2)]
  have "session_evolves (db_high_water d3) q q4"
    using kept_session [OF inv(2) q(1), of x t waiting] now4(3) assms(14) by auto
  then have kept: "session_key q4 = session_key q" "srow_request q4 = srow_request q" "srow_proof_key q4 = srow_proof_key q"
    "srow_cooldown_ends_at q4 = srow_cooldown_ends_at q" "srow_expires_at q4 = srow_expires_at q"
    by (cases q; cases q4; simp add: session_evolves_def session_key_def)+
  have "session_enrollment d4 q4 = Inr row4"
    using current_at_key [OF inv4 now4(1)] left4(1) kept(1) q(2)
    by (simp add: session_enrollment_def load_enrollment_def session_key_def)
  then show "\<exists>q row. waiting_rows d4 sealed en s (now' + cooldown_secs (enr_policy en)) q row"
    using now4 left4 kept q by (auto simp: waiting_rows_def)
qed

text \<open>
  C4: Custody comes back: in any sound database, when an acceptable enrollment is sent, and later an
  admissible recovery that presents the enrolled factor, and later still the candidate's poll, after the
  policy's cooldown and before the session expires, with any requests of anyone in between that leave the
  enrollment accepted and the recovery neither stopped nor served, then the poll is answered with a signed
  receipt, and the sealed member of its contribution opens, with the private key of the candidate, to the
  very share envelope the holder sealed.
\<close>
theorem custody_recovered:
  assumes "json_laws x" "base64_laws x" "ed25519_laws x" "hpke_laws x" "hex_laws x" "time_laws x" "seal_key_laws x"
    and "serving t" "store_inv d" "custody_ok x t d"
    and "enrolls x t d body now sealed en" "handle x t e body now d = (d1, a1)"
    and "open_sealed x (tr_hpke_key t) (context_info x (enr_context en)) sealed = Inr share"
    and "d2 = serve x t between d1" "begins x t e' d2 body' now' s"
    and "ses_enrollment_id s = ctx_enrollment_id (enr_context en)" "handle x t e' body' now' d2 = (d3, a3)"
    and "d4 = serve x t waiting d3" "undisturbed d4 en s" "polls x t d4 now'' (ses_session_id s) r"
    and "now' + cooldown_secs (enr_policy en) \<le> now''" "now'' < ses_expires_at s"
    and "ses_proof_key s = ed25519_public_key x key" "ses_destination_key s = hpke_public_key x dk"
  shows "\<exists>d5 rc v w b.
    handle x t e'' (client_request x key r) now'' d4 = (d5, Inr (sign_object x (receipt_json rc) (tr_signing_key t)))
    \<and> rc_contribution rc = Some v \<and> index_field v ''sealedContribution'' = JString (base64_encode x b)
    \<and> format_timestamp x (ses_expires_at s) = Some w
    \<and> open_sealed x dk (recovery_info x (ses_session_id s) (enr_context en) (ses_destination_keys_digest s) w) b
        = Inr share"
proof -
  have sound: "store_inv d1" "custody_ok x t d1"
    using handle_inv [OF assms(9), of x t e body now] handle_custody [OF assms(1,7,9,10), of e body now] assms(12) by auto
  obtain row1 where row1: "load_current_enrollment d1 (ctx_enrollment_id (enr_context en)) = Some row1"
    "erow_enrollment row1 = en" "erow_sealed_envelope row1 = Some sealed"
    using enrolls_stored(1) [OF assms(9,11,12)] by blast
  note waits = rows_waiting [OF assms(1,7,6,8) sound row1 assms(14-19)]
  obtain q row where rows: "load_session d4 (ses_session_id s) = Some q" "session_enrollment d4 q = Inr row"
    "srow_status q = CoolingDown" "erow_status row = Accepted" "erow_enrollment row = en"
    "erow_sealed_envelope row = Some sealed" "srow_request q = ses_canonical s" "srow_proof_key q = ses_proof_key s"
    "srow_cooldown_ends_at q = now' + cooldown_secs (enr_policy en)" "srow_expires_at q = ses_expires_at s"
    using waits(1) by (auto simp: waiting_rows_def)
  obtain issued where poll: "request_for x t ''read-recovery'' (ses_session_id s) issued r" "clock_time now''"
    "\<bar>issued - now''\<bar> \<le> lim_skew_secs (tr_limits t)"
    "(scope_key (Scope_Session (ses_session_id s)), sr_request_id r) \<notin> nonce_key ` set (db_nonces d4)"
    "db_high_water d4 \<le> now''" "format_timestamp x now'' \<noteq> None"
    using assms(20) by (auto simp: polls_def fresh_for_def writable_def)
  have writes: "format_timestamp x (srow_expires_at q) \<noteq> None" "format_timestamp x (srow_cooldown_ends_at q) \<noteq> None"
    using waits(4) rows(9,10) by (simp_all add: writable_def)
  have times: "srow_cooldown_ends_at q \<le> now''" "now'' < srow_expires_at q"
    "now'' < enr_expires_at (erow_enrollment row)" "srow_proof_key q = ed25519_public_key x key"
    using assms(21-23) waits(2) rows by simp_all
  obtain d5 con v rc where served:
    "handle x t e'' (client_request x key r) now'' d4 = (d5, Inr (sign_object x (receipt_json rc) (tr_signing_key t)))"
    "release_contribution x t (ent_seal e'') en sealed s now'' = Inr con"
    "parse x (con_canonical con) = Some v" "rc_contribution rc = Some v"
    using due_recovery_served [OF assms(1-3,5-7) waits(5,6) rows(1-4) poll(5) times(1-3) poll(1)
        times(4) poll(2-4,6) writes, of e''] rows(5-7) waits(3) by auto
  have "is_well_formed x (enr_context en)"
    using session_releasable [OF assms(7) waits(5,6) rows(1,2,4) writes(1) poll(6)] rows(5) by auto
  then show ?thesis
    using contribution_opened [OF assms(1,2,4-6) _ waits(3) assms(24) served(2)] assms(13) served(1,3,4)
    by (fastforce simp: opens_to_def)
qed

end
