(* ===== verification/Client_Bodies.thy ===== *)
theory Client_Bodies
  imports Core_Properties
begin

text \<open>
  The bodies of the two unsigned mutations as an honest client writes them: the holder's \<open>enroll\<close>
  with its context and protected artifact, and the candidate's \<open>begin-recovery\<close> with its session
  document. Each is read back as what it was written from.
\<close>

section \<open>The candidate's body\<close>

definition begin_fields :: "string list" where
  "begin_fields = [''requestVersion'', ''operation'', ''session'']"

definition begin_value :: "json \<Rightarrow> json" where
  "begin_value doc = json_object (zip begin_fields [JU64 1, JString ''begin-recovery'', doc])"

lemma index_written:
  "distinct names \<Longrightarrow> length vs = length names \<Longrightarrow> i < length names \<Longrightarrow>
     index_field (json_object (zip names vs)) (names ! i) = vs ! i"
  using map_of_zip_nth [of names vs i]
  by (simp add: json_object_def map_of_btree_of_distinct)

lemma begin_value_read:
  "begin_request_of_json (begin_value doc) = Some \<lparr>br_request_version = 1, br_session = doc\<rparr>"
  unfolding begin_request_of_json_def begin_value_def begin_fields_def
  by (subst struct_written) simp_all

lemma begin_value_operation: "index_field (begin_value doc) ''operation'' = JString ''begin-recovery''"
  using index_written [of begin_fields "[JU64 1, JString ''begin-recovery'', doc]" 1]
  by (simp add: begin_value_def begin_fields_def)

lemma body_names_text:
  "list_all utf8_valid (''artifactDigest'' # ''begin-recovery'' # ''enroll'' # ''aead'' # ''nonce'' # ''trusteeKeyId''
     # ''sealedEnvelope'' # ''protectedArtifact'' # ''context'' # begin_fields @ context_fields @ artifact_fields)"
proof -
  have "list_all ascii (''artifactDigest'' # ''begin-recovery'' # ''enroll'' # ''aead'' # ''nonce'' # ''trusteeKeyId''
     # ''sealedEnvelope'' # ''protectedArtifact'' # ''context'' # begin_fields @ context_fields @ artifact_fields)"
    by (simp add: begin_fields_def context_fields_def artifact_fields_def in_bytes_def)
  then show ?thesis
    by (auto simp: list_all_iff ascii_utf8)
qed

lemma begin_value_parses:
  assumes "json_laws x" "plain_value doc" "json_depth doc < 127"
  shows "parse x (canonical x (begin_value doc)) = Some (begin_value doc)"
proof (rule parse_canonical [OF assms(1)])
  show "plain_value (begin_value doc)" "json_depth (begin_value doc) \<le> 127"
    unfolding begin_value_def
    by (intro plain_object [where n = 127]; use assms body_names_text in \<open>simp add: begin_fields_def\<close>)+
qed (simp add: begin_value_def json_object_def)

lemma set_field_object:
  assumes "is_object v" "plain_value v" "json_depth v \<le> n" "utf8_valid k" "plain_value w" "json_depth w < n"
  shows "plain_value (set_field k w v) \<and> json_depth (set_field k w v) \<le> n \<and> is_object (set_field k w v)"
proof -
  obtain kvs where v: "v = JObject kvs"
    using assms(1) by (auto simp: is_object_iff)
  then have "is_object (set_field k w v)"
    by simp
  then show ?thesis
    using set_field_plain assms(2-) unfolding v by blast
qed

text \<open>A session document nests to depth three: evidence in a list in the document.\<close>

lemma evidenced_depth:
  assumes "core_text s" "list_all (\<lambda>(f, s). utf8_valid f \<and> utf8_valid s) es"
  shows "plain_value (evidenced s es)" "json_depth (evidenced s es) \<le> 3" "is_object (evidenced s es)"
proof -
  let ?d = "core_destination s"
  let ?o = "json_object (zip destination_names [JString (dst_encryption_suite ?d),
      JString (dst_encryption_public_key ?d), JString (dst_proof_suite ?d),
      JString (dst_proof_public_key ?d)])"
  have "plain_value ?o" "json_depth ?o \<le> 1"
    by (intro plain_object [where n = 1]; use assms session_names_text in
        \<open>simp add: core_text_def destination_names_def\<close>)+
  then have "json_depth (core_json s) \<le> 3"
    unfolding core_json_def
    by (intro plain_object [where n = 3]; use assms session_names_text in
        \<open>simp add: core_text_def core_fields_def\<close>)+
  moreover have "json_depth (evidence_json es) \<le> 2"
  proof -
    have "json_depth (json_object (zip evidence_names [JString f, JString s])) \<le> 1"
      if "utf8_valid f" "utf8_valid s" for f s
      by (intro plain_object [where n = 1]; use that session_names_text in \<open>simp add: evidence_names_def\<close>)+
    then show ?thesis
      using assms(2) unfolding evidence_json_def depth_array by (auto simp: list_all_iff)
  qed
  moreover have "is_object (core_json s)"
    by (simp add: core_json_def json_object_def)
  ultimately have "plain_value (evidenced s es) \<and> json_depth (evidenced s es) \<le> 3 \<and> is_object (evidenced s es)"
    unfolding evidenced_def using core_plain(1) [OF assms(1)] evidence_plain(1) [OF assms(2)] session_names_text
    by (intro set_field_object) simp_all
  then show "plain_value (evidenced s es)" "json_depth (evidenced s es) \<le> 3" "is_object (evidenced s es)"
    by blast+
qed

lemma candidate_document_depth:
  assumes "base64_laws x" "core_text s" "list_all (\<lambda>(f, s). utf8_valid f \<and> utf8_valid s) es"
  shows "plain_value (candidate_document x key s es)" "json_depth (candidate_document x key s es) \<le> 3"
proof -
  have "plain_value (candidate_document x key s es) \<and> json_depth (candidate_document x key s es) \<le> 3
      \<and> is_object (candidate_document x key s es)"
    unfolding candidate_document_def
    using evidenced_depth [OF assms(2,3)] base64_text [OF assms(1)] session_names_text
    by (intro set_field_object) simp_all
  then show "plain_value (candidate_document x key s es)" "json_depth (candidate_document x key s es) \<le> 3"
    by blast+
qed

section \<open>The holder's body\<close>

definition context_json :: "enrollment_context \<Rightarrow> json" where
  "context_json c = json_object (zip context_fields
     [JString (ctx_implementation_profile_id c), JString (ctx_enrollment_id c), JU64 (ctx_enrollment_sequence c),
      JString (ctx_policy_digest c), JString (ctx_artifact_id c), JString (ctx_artifact_digest c),
      JString (ctx_trustee_component_id c), JString (ctx_slot c), JString (ctx_trustee_challenge c),
      JString (ctx_authorization_key_digest c)])"

lemma context_written: "context_of_json (context_json c) = Some c"
  unfolding context_of_json_def context_json_def
  by (subst struct_written) (simp_all add: context_fields_def)

definition artifact_json :: "protected_artifact \<Rightarrow> json" where
  "artifact_json a = json_object (zip artifact_fields
     [JU64 (pa_version a), JString (pa_implementation_profile_id a), JString (pa_enrollment_id a),
      JU64 (pa_enrollment_sequence a), JString (pa_policy_digest a), JString (pa_identity_binding_commitment a),
      JString (pa_recovery_mode a), JString (pa_artifact_id a),
      json_object (zip [''aead'', ''nonce''] [JString (pa_aead a), JString (pa_nonce a)]),
      JString (pa_ciphertext a)])"

lemma artifact_written: "artifact_of_json (artifact_json a) = Some a"
proof -
  have "protection_of_json (json_object (zip [''aead'', ''nonce''] [JString u, JString v])) = Some (u, v)" for u v
    unfolding protection_of_json_def by (subst struct_written) simp_all
  then show ?thesis
    unfolding artifact_of_json_def artifact_json_def
    by (subst struct_written) (simp_all add: artifact_fields_def)
qed

definition artifact_text :: "protected_artifact \<Rightarrow> bool" where
  "artifact_text a \<longleftrightarrow> list_all utf8_valid [pa_implementation_profile_id a, pa_enrollment_id a, pa_policy_digest a,
     pa_identity_binding_commitment a, pa_recovery_mode a, pa_artifact_id a, pa_aead a, pa_nonce a, pa_ciphertext a]"

lemma artifact_plain:
  assumes "artifact_text a"
  shows "plain_value (artifact_json a)" "json_depth (artifact_json a) \<le> 2"
proof -
  have "plain_value (json_object (zip [''aead'', ''nonce''] [JString (pa_aead a), JString (pa_nonce a)]))"
    "json_depth (json_object (zip [''aead'', ''nonce''] [JString (pa_aead a), JString (pa_nonce a)])) \<le> 1"
    by (intro plain_object [where n = 1]; use assms body_names_text in \<open>simp add: artifact_text_def\<close>)+
  then show "plain_value (artifact_json a)" "json_depth (artifact_json a) \<le> 2"
    unfolding artifact_json_def
    by (intro plain_object [where n = 2]; use assms body_names_text in
        \<open>simp add: artifact_text_def artifact_fields_def\<close>)+
qed

definition artifact_digest :: "extern \<Rightarrow> protected_artifact \<Rightarrow> string" where
  "artifact_digest x a = digest x (canonical x (artifact_json a))"

definition artifact_document :: "extern \<Rightarrow> protected_artifact \<Rightarrow> json" where
  "artifact_document x a = set_field ''artifactDigest'' (JString (artifact_digest x a)) (artifact_json a)"

lemma artifact_document_plain:
  assumes "hex_laws x" "artifact_text a"
  shows "plain_value (artifact_document x a)" "json_depth (artifact_document x a) \<le> 2"
    "take_string ''artifactDigest'' (artifact_document x a) = Some (artifact_digest x a, artifact_json a)"
    "is_object (artifact_document x a)"
proof -
  have "utf8_valid (artifact_digest x a)"
    using digest_ascii [OF assms(1)] ascii_utf8 by (simp add: artifact_digest_def)
  moreover have object: "is_object (artifact_json a)"
    by (simp add: artifact_json_def json_object_def)
  ultimately have "plain_value (artifact_document x a) \<and> json_depth (artifact_document x a) \<le> 2
      \<and> is_object (artifact_document x a)"
    unfolding artifact_document_def using artifact_plain [OF assms(2)] body_names_text
    by (intro set_field_object) simp_all
  then show "plain_value (artifact_document x a)" "json_depth (artifact_document x a) \<le> 2"
    "is_object (artifact_document x a)"
    by blast+
  have "take_field ''artifactDigest'' (artifact_json a) = None"
    unfolding artifact_json_def by (rule not_a_member) (simp add: artifact_fields_def)
  then have "signable ''artifactDigest'' (artifact_json a)"
    using artifact_plain [OF assms(2)] object by (simp add: signable_def)
  then show "take_string ''artifactDigest'' (artifact_document x a) = Some (artifact_digest x a, artifact_json a)"
    unfolding artifact_document_def by (rule member_added_taken)
qed

text \<open>What a holder's artifact must repeat of the enrollment it belongs to.\<close>

definition artifact_fits :: "extern \<Rightarrow> trustee \<Rightarrow> enrollment \<Rightarrow> protected_artifact \<Rightarrow> bool" where
  "artifact_fits x t en a \<longleftrightarrow>
     (let c = enr_context en in
      pa_version a = 1 \<and> pa_aead a = ARTIFACT_AEAD \<and> hex_bytes x 12 (pa_nonce a) \<noteq> None
      \<and> (\<exists>ct. base64 x (pa_ciphertext a) = Some ct \<and> 16 \<le> length ct
           \<and> length ct \<le> unat (lim_max_artifact_bytes (tr_limits t)))
      \<and> artifact_digest x a = ctx_artifact_digest c
      \<and> pa_implementation_profile_id a = ctx_implementation_profile_id c
      \<and> pa_enrollment_id a = ctx_enrollment_id c \<and> pa_enrollment_sequence a = ctx_enrollment_sequence c
      \<and> pa_policy_digest a = ctx_policy_digest c
      \<and> pa_identity_binding_commitment a = enr_identity_binding_commitment en
      \<and> pa_recovery_mode a = RECOVERY_MODE \<and> pa_artifact_id a = ctx_artifact_id c)"

lemma fitting_artifact_checked:
  assumes "json_laws x" "hex_laws x" "artifact_text a" "artifact_fits x t en a"
  shows "check_artifact x t en (canonical x (artifact_document x a)) = Inr ()"
proof -
  note doc = artifact_document_plain [OF assms(2,3)]
  have "parse x (canonical x (artifact_document x a)) = Some (artifact_document x a)"
    using parse_canonical [OF assms(1) doc(1) _ doc(4)] doc(2) by simp
  then show ?thesis
    using assms(4) doc(3) by (auto simp: check_artifact_def artifact_written artifact_fits_def
        artifact_digest_def Let_def)
qed

definition enroll_fields :: "string list" where
  "enroll_fields = [''requestVersion'', ''operation'', ''context'', ''trusteeKeyId'', ''sealedEnvelope'',
     ''protectedArtifact'']"

definition enroll_value ::
  "extern \<Rightarrow> enrollment_context \<Rightarrow> string \<Rightarrow> bytes \<Rightarrow> protected_artifact \<Rightarrow> json" where
  "enroll_value x c trustee_key_id sealed a = json_object (zip enroll_fields
     [JU64 1, JString ''enroll'', context_json c, JString trustee_key_id,
      JString (base64_encode x sealed), artifact_document x a])"

lemma enroll_value_read:
  "enroll_request_of_json (enroll_value x c k sealed a) = Some
     \<lparr>er_request_version = 1, er_context = c, er_trustee_key_id = k,
      er_sealed_envelope = base64_encode x sealed, er_protected_artifact = artifact_document x a\<rparr>"
  unfolding enroll_request_of_json_def enroll_value_def enroll_fields_def
  by (subst struct_written) (simp_all add: context_written)

lemma enroll_value_operation: "index_field (enroll_value x c k sealed a) ''operation'' = JString ''enroll''"
  using index_written [of enroll_fields "[JU64 1, JString ''enroll'', context_json c, JString k,
      JString (base64_encode x sealed), artifact_document x a]" 1]
  by (simp add: enroll_value_def enroll_fields_def)

lemma enroll_value_parses:
  assumes "json_laws x" "base64_laws x" "hex_laws x" "is_well_formed x c" "utf8_valid (ctx_implementation_profile_id c)"
    and "utf8_valid k" "artifact_text a"
  shows "parse x (canonical x (enroll_value x c k sealed a)) = Some (enroll_value x c k sealed a)"
proof (rule parse_canonical [OF assms(1)])
  have "plain_value (context_json c)" "json_depth (context_json c) \<le> 2"
    unfolding context_json_def
    by (intro plain_object [where n = 2]; use well_formed_text [OF assms(4)] assms(5) body_names_text in
        \<open>simp add: context_fields_def\<close>)+
  then show "plain_value (enroll_value x c k sealed a)" "json_depth (enroll_value x c k sealed a) \<le> 127"
    unfolding enroll_value_def
    by (intro plain_object [where n = 127]; use assms(6) base64_text [OF assms(2)] body_names_text
        artifact_document_plain [OF assms(3,7)] in \<open>simp add: enroll_fields_def begin_fields_def\<close>)+
qed (simp add: enroll_value_def json_object_def)

end
