(* ===== verification/Core_Example.thy ===== *)
theory Core_Example
  imports Client_Bodies Store_Example
begin

text \<open>
  One honest enrollment and one honest recovery on the example crates: the holder's envelope, its
  acceptance, the candidate's session and the contribution, for the witnesses of the core's
  properties.
\<close>

section \<open>The parties\<close>

definition holder_key :: bytes where
  "holder_key = replicate 32 7"

definition factor_signing_key :: bytes where
  "factor_signing_key = replicate 32 8"

definition candidate_key :: bytes where
  "candidate_key = replicate 32 9"

definition destination_private_key :: bytes where
  "destination_private_key = replicate 32 10"

lemma crates_keys [simp]:
  "ed25519_public_key crates k = k" "kem_public_key crates k = k" "kem_public_key_ok crates k"
  "ed25519_point_ok crates k" "\<not> ed25519_is_weak crates k"
  by (simp_all add: crates_def)

lemma crates_hex32: "length b = 32 \<Longrightarrow> hex32 crates (hex_encode crates b) = Some b"
  by (simp add: hex32_iff [OF crates_hex])

lemma crates_digest: "is_digest crates (digest crates b)"
  unfolding is_digest_iff digest_def
  using crates_hex32 [of "sha256_digest crates b"] by (auto simp: crates_def)

lemma crates_seal: "seal crates e pk i p = Inr (take 32 (e @ replicate 32 0) @ seal_frame pk i @ p)"
  by (simp add: seal_def) (simp add: crates_def)

lemma crates_seal_key: "seal_key_laws crates"
  by (simp add: seal_key_laws_def crates_def)

lemma crates_time_text:
  "timestamp crates ''62167219300'' = Some 100" "timestamp crates ''62167219900'' = Some 700"
  "timestamp crates ''62167319200'' = Some 100000"
  by (subst timestamp_iff [OF crates_time];
      simp add: format_timestamp_def crates_def epoch_offset_def decimal_text.simps char_of_def bit_0)+

section \<open>The enrollment\<close>

lemma words_ascii: "list_all ascii WORDLIST"
  unfolding WORDLIST_def by (simp add: in_bytes_def)

lemma mnemonic_text:
  assumes "list_indices is"
  shows "utf8_valid (mnemonic_of is)"
proof -
  have word: "ascii (word_at i)" if "unat i < 1024" for i
    using that words_ascii WORDLIST_length by (simp add: word_at_def list_all_length)
  have "ascii (join_words ws)" if "list_all ascii ws" for ws
    using that by (induction ws rule: join_words.induct) (auto simp: in_bytes_def)
  then show ?thesis
    using assms word unfolding mnemonic_of_def list_indices_def
    by (intro ascii_utf8) (simp add: list_all_iff word_less_nat_alt)
qed

definition enrolled_artifact :: protected_artifact where
  "enrolled_artifact = \<lparr>pa_version = 1, pa_implementation_profile_id = IMPLEMENTATION_PROFILE_ID,
     pa_enrollment_id = example_hex, pa_enrollment_sequence = 1, pa_policy_digest = ''sha256:'' @ example_hex,
     pa_identity_binding_commitment = ''sha256:'' @ example_hex, pa_recovery_mode = RECOVERY_MODE,
     pa_artifact_id = example_hex, pa_aead = ARTIFACT_AEAD, pa_nonce = hex_encode crates (replicate 12 7),
     pa_ciphertext = base64_encode crates (replicate 16 5)\<rparr>"

definition enrolled_context :: enrollment_context where
  "enrolled_context = example_context_hex\<lparr>
     ctx_artifact_digest := artifact_digest crates enrolled_artifact,
     ctx_authorization_key_digest := key_digest crates holder_key\<rparr>"

definition enrolled_policy :: policy_fields where
  "enrolled_policy = \<lparr>
     pf_candidate_factors = [FACTOR_ED25519_SESSION @ hex_encode crates factor_signing_key],
     pf_cooldown = ''PT2M'', pf_session_lifetime = ''PT10M'', pf_maximum_attempts = 3,
     pf_notifications = [NOTICE_HOLDER_POLL], pf_holder_veto = VETO_AUTHORIZATION_KEY,
     pf_lapse_policy = LAPSE_NONE\<rparr>"

definition enrolled_envelope :: share_envelope where
  "enrolled_envelope = \<lparr>env_version = 1, env_implementation_profile_id = IMPLEMENTATION_PROFILE_ID,
     env_enrollment_id = example_hex, env_enrollment_sequence = 1,
     env_policy_digest = ''sha256:'' @ example_hex,
     env_identity_binding_commitment = ''sha256:'' @ example_hex,
     env_artifact_digest = artifact_digest crates enrolled_artifact, env_artifact_id = example_hex,
     env_recovery_mode = RECOVERY_MODE, env_trustee_component_id = ''onym:component:t1'',
     env_slot = example_hex, env_trustee_challenge = example_hex, env_member_index = 3,
     env_member_threshold = 2, env_member_count = 5, env_trustee_policy = enrolled_policy,
     env_slip39_share = mnemonic_of example_indices, env_created_at = ''62167219300'',
     env_expires_at = ''62167319200'', env_authorization_public_key = hex_encode crates holder_key\<rparr>"

definition enrolled :: enrollment where
  "enrolled = \<lparr>enr_context = enrolled_context,
     enr_identity_binding_commitment = ''sha256:'' @ example_hex, enr_member_index = 3,
     enr_member_threshold = 2, enr_member_count = 5,
     enr_policy = \<lparr>factor_key = factor_signing_key, cooldown_secs = 120, session_lifetime_secs = 600,
       maximum_attempts = 3\<rparr>,
     enr_created_at = 100, enr_expires_at = 100000, enr_authorization_key = holder_key\<rparr>"

lemma enrolled_keys:
  "hex32 crates (hex_encode crates holder_key) = Some holder_key"
  "hex32 crates (hex_encode crates factor_signing_key) = Some factor_signing_key"
  by (rule crates_hex32, simp add: holder_key_def factor_signing_key_def)+

lemma enrolled_well_formed: "is_well_formed crates enrolled_context"
  using example_context_well_formed crates_digest
  by (simp add: enrolled_context_def is_well_formed_def key_digest_def artifact_digest_def)

lemma enrolled_repeats: "repeats crates enrolled_envelope enrolled_context"
  by (simp add: repeats_def enrolled_envelope_def enrolled_context_def example_context_hex_def enrolled_keys)

lemma enrolled_durations: "duration ''PT2M'' = Some 120" "duration ''PT10M'' = Some 600"
  by code_simp+

lemma enrolled_policy_ok:
  "policy crates (service_limits 60) enrolled_policy = Inr (enr_policy enrolled)"
proof -
  have "strip_prefix p (p @ s) = Some s" for p s
    by simp
  then show ?thesis
    by (simp add: policy_def enrolled_policy_def enrolled_keys enrolled_durations enrolled_def
        is_usable_verifying_key_def service_limits_def DAY_def del: strip_prefix_Some)
qed

lemma enrolled_share:
  "validate (mnemonic_of example_indices) = Inr \<lparr>sh_member_index = 3, sh_member_threshold = 2\<rparr>"
proof -
  have "decode (mnemonic_of example_indices) = Inr example_fields"
    unfolding example_indices_def decode_iff
    using encode_share_shape [OF example_in_range] fields_of_encoded [OF example_in_range] by blast
  then show ?thesis
    by (simp add: validate_def in_profile_def example_fields_def)
qed

lemma enrolled_admitted: "admit_envelope crates example_trustee enrolled_envelope enrolled_context 200 = Inr enrolled"
proof -
  have "is_digest crates (''sha256:'' @ example_hex)"
    using example_hex_ok unfolding is_digest_iff by blast
  then show ?thesis
    using enrolled_policy_ok
    by (simp add: admit_envelope_def enrolled_envelope_def enrolled_share crates_time_text
        example_trustee_def enrolled_keys Let_def i64_add_exact in_i64_def service_limits_def DAY_def)
      (simp add: enrolled_def)
qed

definition holder_sealed :: bytes where
  "holder_sealed = take 32 (holder_key @ replicate 32 0)
     @ seal_frame (public_key crates example_trustee) (context_info crates enrolled_context)
     @ canonical crates (holder_document crates holder_key enrolled_envelope)"

lemma holder_seals:
  "seal crates holder_key (public_key crates example_trustee) (context_info crates enrolled_context)
     (canonical crates (holder_document crates holder_key enrolled_envelope)) = Inr holder_sealed"
  by (simp add: crates_seal holder_sealed_def)

lemma constants_text:
  "list_all utf8_valid [''onym:component:t1'', ''sha256:'', ''62167219300'', ''62167219900'', ''62167319200'',
     ''PT2M'', ''PT10M'', NOTICE_HOLDER_POLL, VETO_AUTHORIZATION_KEY, LAPSE_NONE, RECOVERY_MODE,
     ENCRYPTION_SUITE, PROOF_SUITE]"
proof -
  have "list_all ascii [''onym:component:t1'', ''sha256:'', ''62167219300'', ''62167219900'', ''62167319200'',
     ''PT2M'', ''PT10M'', NOTICE_HOLDER_POLL, VETO_AUTHORIZATION_KEY, LAPSE_NONE, RECOVERY_MODE,
     ENCRYPTION_SUITE, PROOF_SUITE]"
    by (simp add: in_bytes_def NOTICE_HOLDER_POLL_def VETO_AUTHORIZATION_KEY_def LAPSE_NONE_def
        RECOVERY_MODE_def ENCRYPTION_SUITE_def PROOF_SUITE_def)
  then show ?thesis
    by (simp add: ascii_utf8)
qed

lemma hex_texts: "utf8_valid (hex_encode crates b)" "utf8_valid (''sha256:'' @ example_hex)"
  "utf8_valid (FACTOR_ED25519_SESSION @ hex_encode crates b)"
proof -
  have "ascii (hex_encode crates b)" "ascii example_hex" "ascii ''sha256:''" "ascii FACTOR_ED25519_SESSION"
    using hex_encode_ascii [OF crates_hex] hex32_ascii [OF example_hex_ok]
    by (simp_all add: in_bytes_def FACTOR_ED25519_SESSION_def)
  then show "utf8_valid (hex_encode crates b)" "utf8_valid (''sha256:'' @ example_hex)"
    "utf8_valid (FACTOR_ED25519_SESSION @ hex_encode crates b)"
    by (simp_all only: ascii_simps ascii_utf8 simp_thms)
qed

lemma artifact_digest_text: "utf8_valid (artifact_digest crates a)"
  using digest_ascii [OF crates_hex] ascii_utf8 by (simp add: artifact_digest_def)

lemma enrolled_text: "envelope_text enrolled_envelope"
proof -
  have "utf8_valid (mnemonic_of example_indices)"
    unfolding example_indices_def using encode_share_shape [OF example_in_range] by (intro mnemonic_text)
  then show ?thesis
    using constants_text hex_texts example_hex_text profile_text artifact_digest_text
    by (simp add: envelope_text_def enrolled_envelope_def policy_text_def enrolled_policy_def)
qed

lemma enrolled_for_trustee:
  "ctx_implementation_profile_id enrolled_context = IMPLEMENTATION_PROFILE_ID"
  "ctx_trustee_component_id enrolled_context = tr_component_id example_trustee"
  by (simp_all add: enrolled_context_def example_context_hex_def example_trustee_def)

theorem honest_envelope_judged_witness:
  "accept_enrollment crates example_trustee enrolled_context holder_sealed 200
     = admit_envelope crates example_trustee enrolled_envelope enrolled_context 200"
  by (rule honest_envelope_judged [OF crates_json crates_base64 crates_ed25519 crates_hpke enrolled_text
        enrolled_repeats _ holder_seals enrolled_for_trustee(1) enrolled_well_formed enrolled_for_trustee(2)])
    (simp add: enrolled_envelope_def enrolled_keys)

lemma enrolled_opens:
  "opens_to crates example_trustee enrolled_context holder_sealed
     (canonical crates (holder_document crates holder_key enrolled_envelope)) enrolled_envelope"
  by (rule holder_document_opens [OF crates_json crates_base64 crates_ed25519 crates_hpke enrolled_text
        enrolled_repeats _ holder_seals]) (simp add: enrolled_envelope_def enrolled_keys)

lemma enrolled_accepted: "accept_enrollment crates example_trustee enrolled_context holder_sealed 200 = Inr enrolled"
  using enrolled_opens enrolled_admitted enrolled_for_trustee enrolled_well_formed
  unfolding accept_enrollment_Inr by blast

lemma enrolled_artifact_checked:
  "check_artifact crates example_trustee enrolled (canonical crates (artifact_document crates enrolled_artifact)) = Inr ()"
  "artifact_text enrolled_artifact"
proof -
  have "ascii ARTIFACT_AEAD"
    by (simp add: ARTIFACT_AEAD_def in_bytes_def)
  then show text_ok: "artifact_text enrolled_artifact"
    using constants_text hex_texts example_hex_text profile_text base64_text [OF crates_base64] ascii_utf8
    by (simp add: artifact_text_def enrolled_artifact_def)
  have "hex_bytes crates 12 (hex_encode crates (replicate 12 7)) = Some (replicate 12 7)"
    "base64 crates (base64_encode crates (replicate 16 5)) = Some (replicate 16 5)"
    using crates_base64 by (simp_all add: hex_bytes_iff [OF crates_hex] base64_def base64_laws_def)
  then have "artifact_fits crates example_trustee enrolled enrolled_artifact"
    by (simp add: artifact_fits_def Let_def enrolled_artifact_def enrolled_def enrolled_context_def
        example_context_hex_def example_trustee_def service_limits_def)
  then show "check_artifact crates example_trustee enrolled
      (canonical crates (artifact_document crates enrolled_artifact)) = Inr ()"
    by (rule fitting_artifact_checked [OF crates_json crates_hex text_ok])
qed


section \<open>The recovery\<close>

definition recovering_core :: session_core where
  "recovering_core = \<lparr>core_session_version = 1, core_session_id = example_hex,
     core_enrollment_id = example_hex, core_enrollment_sequence = 1,
     core_policy_digest = ''sha256:'' @ example_hex, core_artifact_id = example_hex,
     core_artifact_digest = artifact_digest crates enrolled_artifact,
     core_destination = \<lparr>dst_encryption_suite = ENCRYPTION_SUITE,
       dst_encryption_public_key = hex_encode crates destination_private_key,
       dst_proof_suite = PROOF_SUITE, dst_proof_public_key = hex_encode crates candidate_key\<rparr>,
     core_requested_at = ''62167219300'', core_expires_at = ''62167219900''\<rparr>"

definition recovering_evidence :: "(string \<times> bytes) list" where
  "recovering_evidence = [(FACTOR_ED25519_SESSION @ hex_encode crates factor_signing_key,
     sign crates factor_signing_key (factor_message crates (digest crates (canonical crates (core_json recovering_core)))
       ''onym:component:t1'' example_hex))]"

definition recovering :: session where
  "recovering = session_of crates candidate_key recovering_core recovering_evidence
     destination_private_key 100 700"

definition recovering_request :: bytes where
  "recovering_request = canonical crates
     (candidate_document crates candidate_key recovering_core (evidence_texts crates recovering_evidence))"

lemma recovering_keys:
  "hex32 crates (hex_encode crates candidate_key) = Some candidate_key"
  "hex32 crates (hex_encode crates destination_private_key) = Some destination_private_key"
  by (rule crates_hex32, simp add: candidate_key_def destination_private_key_def)+

lemma recovering_text: "core_text recovering_core"
  "list_all (\<lambda>(f, sg). utf8_valid f \<and> length sg = 64) recovering_evidence"
  using constants_text hex_texts example_hex_text artifact_digest_text
  by (simp_all add: core_text_def recovering_core_def recovering_evidence_def sign_length [OF crates_ed25519])

lemma recovering_well_formed: "core_well_formed crates recovering_core"
proof -
  have "is_digest crates (''sha256:'' @ example_hex)"
    using example_hex_ok unfolding is_digest_iff by blast
  moreover have "is_digest crates (artifact_digest crates enrolled_artifact)"
    using crates_digest by (simp add: artifact_digest_def)
  ultimately show ?thesis
    by (simp add: core_well_formed_def recovering_core_def example_hex_ok sequence_def MAX_SAFE_INTEGER_def)
qed

lemma recovering_verified: "verify_session crates e recovering_request = Inr recovering"
  unfolding recovering_request_def recovering_def
  by (rule candidate_session_verified [OF crates_json crates_base64 crates_ed25519 recovering_text(1)
        recovering_well_formed recovering_text(2), where ct = "take 32 (e @ replicate 32 0)
        @ seal_frame destination_private_key (as_bytes ''onym-destination-check'')"])
    (simp_all add: recovering_core_def recovering_keys crates_time_text crates_seal)

theorem honest_session_verified_witness:
  "verify_session crates [] recovering_request = Inr recovering"
  unfolding recovering_request_def recovering_def
  by (rule honest_session_verified [OF crates_json crates_base64 crates_ed25519 recovering_text(1)
        recovering_well_formed recovering_text(2), where ct = "take 32 (replicate 32 0)
        @ seal_frame destination_private_key (as_bytes ''onym-destination-check'')"])
    (simp_all add: recovering_core_def recovering_keys crates_time_text crates_seal)

lemma recovering_factor: "check_factor crates enrolled recovering = Inr ()"
  by (rule enrolled_factor_accepted [OF crates_ed25519, where fk = factor_signing_key])
    (simp_all add: enrolled_def recovering_def session_of_def recovering_evidence_def
      enrolled_context_def example_context_hex_def)

lemma recovering_binds: "binds recovering enrolled_context"
  by (simp add: binds_def recovering_def session_of_def recovering_core_def enrolled_context_def
      example_context_hex_def)

lemma recovering_times:
  "format_timestamp crates (ses_expires_at recovering) \<noteq> None" "format_timestamp crates 300 \<noteq> None"
  by (simp_all add: recovering_def session_of_def format_timestamp_def crates_def)

theorem contribution_reaches_candidate_witness:
  "\<exists>con r plaintext exp.
     release_contribution crates example_trustee [1] enrolled holder_sealed recovering 300 = Inr con
     \<and> open_sealed crates destination_private_key (recovery_info crates example_hex enrolled_context
          (ses_destination_keys_digest recovering) exp) r = Inr plaintext
     \<and> open_sealed crates (tr_hpke_key example_trustee) (context_info crates enrolled_context) holder_sealed
          = Inr plaintext"
proof -
  obtain con where con: "release_contribution crates example_trustee [1] enrolled holder_sealed recovering 300 = Inr con"
    using custody_releasable [OF enrolled_accepted recovering_verified recovering_binds
        crates_seal_key recovering_times] by blast
  have ctx: "enr_context enrolled = enrolled_context" "ses_session_id recovering = example_hex"
    by (simp_all add: enrolled_def recovering_def session_of_def recovering_core_def)
  have "ses_destination_key recovering = hpke_public_key crates destination_private_key"
    by (simp add: recovering_def session_of_def hpke_public_key_def)
  then show ?thesis
    using contribution_reaches_candidate [OF crates_json crates_base64 crates_ed25519 crates_hpke crates_hex
        crates_time _ recovering_verified _ con] enrolled_well_formed con
    unfolding ctx opens_to_def by blast
qed

end
