(* ===== verification/Recovery_Example.thy ===== *)
theory Recovery_Example
  imports Store_Custody Core_Example
begin

text \<open>
  The honest enrollment and recovery of \<open>Core_Example\<close> inside a database: a session that is due,
  the candidate's poll of it, and the witnesses about polls and releases.
\<close>

definition waiting_context :: enrollment_context where
  "waiting_context = enr_context enrolled"

definition waiting_row :: enrollment_row where
  "waiting_row = \<lparr>erow_enrollment_id = example_hex, erow_sequence = 1, erow_status = Accepted,
     erow_challenge = example_hex, erow_request_digest = ''r1'', erow_enrollment = enrolled,
     erow_attempts_used = 1, erow_stored_at = 200, erow_sealed_envelope = Some holder_sealed,
     erow_protected_artifact = Some [4, 5]\<rparr>"

definition waiting_session :: session_row where
  "waiting_session = \<lparr>srow_session_id = example_hex, srow_enrollment_id = example_hex,
     srow_sequence = 1, srow_status = CoolingDown, srow_request = recovering_request,
     srow_proof_key = candidate_key, srow_destination_keys_digest = ses_destination_keys_digest recovering,
     srow_cooldown_ends_at = 220, srow_expires_at = 700, srow_remaining_attempts = 2,
     srow_created_at = 200, srow_contribution = None\<rparr>"

definition waiting_db :: db where
  "waiting_db = \<lparr>db_version = 2, db_high_water = 210,
     db_invitations = [\<lparr>inv_digest = ''i1'', inv_expires_at = 900, inv_used_at = Some 200\<rparr>],
     db_challenges = [\<lparr>chl_challenge = example_hex, chl_invitation = ''i1'', chl_expires_at = 800,
         chl_used_at = Some 200\<rparr>],
     db_enrollments = [waiting_row], db_sessions = [waiting_session], db_nonces = [], db_outcomes = [],
     db_identity = None\<rparr>"

lemma waiting_inv: "store_inv waiting_db"
proof -
  have "keys_ok waiting_db" "nonces_ok waiting_db" "outcomes_ok waiting_db"
    by (simp_all add: keys_ok_def nonces_ok_def outcomes_ok_def waiting_db_def)
  moreover have "enrollments_ok waiting_db" "sessions_ok waiting_db" "attempts_ok waiting_db"
    by (simp_all add: enrollments_ok_def enrollment_ok_def sessions_ok_def session_ok_def attempts_ok_def
        session_key_def enrollment_key_def waiting_db_def waiting_row_def waiting_session_def
        enrolled_def enrolled_context_def example_context_hex_def)
  moreover have "grants_ok waiting_db"
    by (simp add: grants_ok_def granted_def at_key_def select_row_def waiting_db_def waiting_row_def)
  moreover have "budget_ok waiting_db"
    unfolding budget_ok_def open_count_def challenge_open_def
    by (simp add: waiting_db_def MAX_OPEN_CHALLENGES_def)
  ultimately show ?thesis
    by (simp add: store_inv_def)
qed

lemma waiting_held: "custody_ok crates example_trustee waiting_db"
proof -
  have ctx: "enr_context enrolled = enrolled_context"
    by (simp add: enrolled_def)
  have "row_held crates example_trustee waiting_row"
    using enrolled_accepted by (auto simp: row_held_def waiting_row_def ctx)
  moreover have "session_held crates enrolled waiting_session"
    unfolding session_held_def ctx
    by (intro exI [of _ "[]"] exI [of _ recovering])
      (use recovering_verified recovering_binds in \<open>simp add: waiting_session_def recovering_def
        session_of_def recovering_core_def\<close>)
  ultimately show ?thesis
    by (simp add: custody_ok_def waiting_db_def held_as_def waiting_row_def session_key_def
        enrollment_key_def waiting_session_def)
qed

section \<open>The poll\<close>

lemma poll_for: "request_for crates example_trustee ''read-recovery'' example_hex 100 example_request"
  using example_request_text example_hex_ok crates_time_text(1)
  by (simp add: request_for_def example_request_def signed_target_def example_trustee_def)

lemma waiting_rows:
  "load_session waiting_db example_hex = Some waiting_session"
  "session_enrollment waiting_db waiting_session = Inr waiting_row"
  by (simp_all add: load_session_def session_enrollment_def load_enrollment_def at_key_def select_row_def
      waiting_db_def waiting_session_def waiting_row_def enrollment_key_def)

lemma waiting_due:
  "srow_status waiting_session = CoolingDown" "erow_status waiting_row = Accepted"
  "db_high_water waiting_db \<le> 300" "srow_cooldown_ends_at waiting_session \<le> 300"
  "300 < srow_expires_at waiting_session" "300 < enr_expires_at (erow_enrollment waiting_row)"
  "srow_proof_key waiting_session = ed25519_public_key crates candidate_key" "clock_time 300"
  "\<bar>100 - 300\<bar> \<le> lim_skew_secs (tr_limits example_trustee)"
  "(scope_key (Scope_Session example_hex), sr_request_id example_request) \<notin> nonce_key ` set (db_nonces waiting_db)"
  by (simp_all add: waiting_session_def waiting_row_def waiting_db_def enrolled_def clock_time_def
      example_trustee_def service_limits_def)

lemma waiting_times:
  "format_timestamp crates 300 \<noteq> None" "format_timestamp crates (srow_expires_at waiting_session) \<noteq> None"
  "format_timestamp crates (srow_cooldown_ends_at waiting_session) \<noteq> None"
  by (simp_all add: waiting_session_def format_timestamp_def crates_def)

theorem stored_custody_sound_witness:
  "list_all (row_held crates example_trustee)
     (db_enrollments (serve crates example_trustee [Invite example_entropy 600 10] new_db))"
  using stored_custody_sound [OF crates_json crates_seal_key, of example_trustee "[Invite example_entropy 600 10]"]
  by (auto simp: Let_def list_all_iff row_held_def)

theorem due_recovery_released_witness:
  "\<exists>d' answer con. handle crates example_trustee example_entropy
       (client_request crates candidate_key example_request) 300 waiting_db = (d', Inr answer)
     \<and> load_session d' example_hex
         = Some (waiting_session\<lparr>srow_status := Released, srow_contribution := Some con\<rparr>)"
  using due_recovery_released [OF crates_json crates_base64 crates_ed25519 crates_hex crates_time
      crates_seal_key waiting_inv waiting_held waiting_rows waiting_due(1-6) poll_for waiting_due(7-10)
      waiting_times, of example_entropy] by blast

theorem reads_single_use_witness:
  "\<exists>d' answer. handle crates example_trustee example_entropy
       (client_request crates candidate_key example_request) 300 waiting_db = (d', Inr answer)
     \<and> (\<exists>c. handle crates example_trustee example_entropy
          (client_request crates candidate_key example_request) 301 d' = (d', Inl c))"
proof -
  obtain d' answer where h: "handle crates example_trustee example_entropy
       (client_request crates candidate_key example_request) 300 waiting_db = (d', Inr answer)"
    using due_recovery_served [OF crates_json crates_base64 crates_ed25519 crates_hex crates_time
      crates_seal_key waiting_inv waiting_held waiting_rows waiting_due(1-6) poll_for waiting_due(7-10)
      waiting_times, of example_entropy] by blast
  have "skew_ok example_trustee" "0 \<le> db_high_water waiting_db" "clock_time 301"
    by (simp_all add: skew_ok_def example_trustee_def service_limits_def waiting_db_def clock_time_def)
  then show ?thesis
    using h reads_single_use [OF crates_time _ waiting_inv _ waiting_due(8)
        request_parsed(1,2) [OF crates_json crates_base64 crates_ed25519 poll_for] _ h, of "[]" 301 d']
    by auto
qed

end
