(* ===== verification/Vault_Example.thy ===== *)
theory Vault_Example
  imports Store_Authority Recovery_Example
begin

text \<open>
  The honest recovery of \<open>Recovery_Example\<close> seen through the custody protocol, and who asked for it.
\<close>

lemma waiting_poll_answered:
  "\<exists>d' answer b. handle crates example_trustee example_entropy
       (client_request crates candidate_key example_request) 300 waiting_db = (d', Inr answer)
     \<and> load_session d' example_hex
         = Some (waiting_session\<lparr>srow_status := Released, srow_contribution := Some b\<rparr>)"
  using due_recovery_served [OF crates_json crates_base64 crates_ed25519 crates_hex crates_time
      crates_seal_key waiting_inv waiting_held waiting_rows waiting_due(1-6) poll_for waiting_due(7-10)
      waiting_times, of example_entropy]
  by (elim exE conjE) (intro exI conjI)

theorem store_refines_protocol_witness:
  "\<exists>b. given_at (vault_of (serve crates example_trustee
         [Request example_entropy (client_request crates candidate_key example_request) 300] waiting_db)) example_hex b
     \<and> duly_given (vault_of waiting_db) (vault_of (serve crates example_trustee
         [Request example_entropy (client_request crates candidate_key example_request) 300] waiting_db)) example_hex"
proof -
  let ?poll = "Request example_entropy (client_request crates candidate_key example_request) 300"
  obtain d' answer b where h: "handle crates example_trustee example_entropy
       (client_request crates candidate_key example_request) 300 waiting_db = (d', Inr answer)"
    "load_session d' example_hex = Some (waiting_session\<lparr>srow_status := Released,
       srow_contribution := Some b\<rparr>)"
    using waiting_poll_answered by (elim exE conjE) (rule that)
  have given: "given_at (vault_of (serve crates example_trustee [?poll] waiting_db)) example_hex b"
    using h by (simp add: given_at_def recovery_of_def phase_of_def)
  moreover have "\<not> given_at (vault_of waiting_db) example_hex b"
    using waiting_rows(1) waiting_due(1) by (simp add: given_at_def recovery_of_def phase_of_def)
  ultimately show ?thesis
    using store_refines_protocol [OF waiting_inv, of crates example_trustee "[?poll]" example_hex b]
    by blast
qed

theorem changes_authorized_witness:
  "\<exists>sg. sg_target sg = example_hex
     \<and> (asked_for crates example_trustee (client_request crates candidate_key example_request) ''read-recovery'' sg
        \<or> asked_for crates example_trustee (client_request crates candidate_key example_request)
            ''cancel-recovery'' sg)"
proof -
  obtain d' answer b where h: "handle crates example_trustee example_entropy
       (client_request crates candidate_key example_request) 300 waiting_db = (d', Inr answer)"
    "load_session d' example_hex = Some (waiting_session\<lparr>srow_status := Released,
       srow_contribution := Some b\<rparr>)"
    using waiting_poll_answered by (elim exE conjE) (rule that)
  have "load_session d' example_hex \<noteq> Some waiting_session"
    using waiting_due(1) by (auto simp: h(2) dest: arg_cong [where f = srow_status])
  then show ?thesis
    using changes_authorized [OF waiting_inv, of d' crates example_trustee example_entropy _ 300 example_hex
        waiting_session] h(1) waiting_rows(1) by (metis fst_conv)
qed

end
