(* ===== verification/Served_Example.thy ===== *)
theory Served_Example
  imports Store_Enrolling Vault_Example Client_Bodies
begin

text \<open>The holder and the candidate of \<open>Core_Example\<close> use the operations that always work.\<close>

section \<open>Stopping and ending\<close>

lemma step_clock: "store_step x t now d d' \<Longrightarrow> db_high_water d' = now \<or> d' = d"
  by (induction rule: store_step.induct) (simp_all add: spend_challenge_def)

lemma handle_clock: "handle x t e body now d = (d', a) \<Longrightarrow> db_high_water d \<le> now \<Longrightarrow> db_high_water d' \<le> now"
  using step_clock [OF handle_steps, of x t e body now d] by auto

definition veto_request :: signed_request where
  "veto_request = example_request\<lparr>sr_operation := ''cancel-recovery'', sr_by := Some ''holder''\<rparr>"

definition revoke_request :: signed_request where
  "revoke_request = example_request\<lparr>sr_operation := ''revoke-enrollment'', sr_session_id := None,
     sr_enrollment_id := Some example_hex\<rparr>"

lemma operation_texts: "list_all utf8_valid [''cancel-recovery'', ''holder'', ''revoke-enrollment'']"
proof -
  have "list_all ascii [''cancel-recovery'', ''holder'', ''revoke-enrollment'']"
    by (simp add: in_bytes_def)
  then show ?thesis
    by (simp add: ascii_utf8)
qed

lemma veto_for: "fresh_for crates example_trustee ''cancel-recovery'' example_hex 100 300 veto_request"
  using poll_for operation_texts waiting_due(8,9)
  by (auto simp: fresh_for_def request_for_def veto_request_def example_request_def request_text_def member_texts_def
      signed_target_def)

lemma revoke_for: "fresh_for crates example_trustee ''revoke-enrollment'' example_hex 100 300 revoke_request"
  using poll_for operation_texts waiting_due(8,9)
  by (auto simp: fresh_for_def request_for_def revoke_request_def example_request_def request_text_def member_texts_def
      signed_target_def)

lemma waiting_writable: "writable crates [700, 220, 300]" "writable crates [100000, 300]" "writable crates [700, 320, 200]"
  by (simp_all add: writable_def format_timestamp_def crates_def)

lemma waiting_stop:
  "srow_status waiting_session \<in> {CoolingDown, Released}" "db_high_water waiting_db \<le> 300"
  "300 < srow_expires_at waiting_session"
  "stopping_key (sr_by veto_request) waiting_row waiting_session
     = Some (ed25519_public_key crates holder_key, Vetoed)"
  "writable crates [srow_expires_at waiting_session, srow_cooldown_ends_at waiting_session, 300]"
  using waiting_writable
  by (simp_all add: waiting_session_def waiting_db_def waiting_row_def enrolled_def stopping_key_def veto_request_def)

theorem live_recovery_stopped_witness:
  "\<exists>d' answer. handle crates example_trustee example_entropy (client_request crates holder_key veto_request) 300
      waiting_db = (d', Inr answer)
    \<and> load_session (serve crates example_trustee
        [Request example_entropy (client_request crates candidate_key example_request) 400] d') example_hex
      = Some (waiting_session\<lparr>srow_status := Vetoed\<rparr>)"
  using live_recovery_stopped [OF crates_json crates_base64 crates_ed25519 crates_time waiting_inv waiting_rows
      waiting_stop(1-3) veto_for waiting_stop(4,5), of example_entropy] by blast


theorem enrollment_ended_for_good_witness:
  "\<exists>d' answer. handle crates example_trustee example_entropy (client_request crates holder_key revoke_request) 300
      waiting_db = (d', Inr answer)
    \<and> (\<exists>r'. load_current_enrollment (serve crates example_trustee
        [Request example_entropy (client_request crates candidate_key example_request) 400] d') example_hex = Some r'
        \<and> erow_sealed_envelope r' = None)"
proof -
  have "load_current_enrollment waiting_db example_hex = Some waiting_row"
    unfolding current_iff [OF waiting_inv] by (simp add: waiting_db_def waiting_row_def)
  moreover have "enr_authorization_key (erow_enrollment waiting_row) = ed25519_public_key crates holder_key"
    "writable crates [enr_expires_at (erow_enrollment waiting_row), 300]"
    "at_key outcome_key (db_outcomes waiting_db)
      (scope_key (scope_of_enrollment (erow_enrollment waiting_row)), sr_request_id revoke_request) = None"
    using waiting_writable by (simp_all add: waiting_row_def enrolled_def waiting_db_def at_key_def select_row_def)
  ultimately show ?thesis
    using enrollment_ended_for_good [OF crates_json crates_base64 crates_ed25519 crates_time waiting_inv _
        waiting_stop(2) _ revoke_for, of waiting_row holder_key example_entropy] by blast
qed

section \<open>Beginning a recovery\<close>

definition enrolled_db :: db where
  "enrolled_db = waiting_db\<lparr>db_high_water := 200, db_enrollments := [waiting_row\<lparr>erow_attempts_used := 0\<rparr>],
     db_sessions := []\<rparr>"

lemma enrolled_inv: "store_inv enrolled_db"
  using waiting_inv
  by (simp add: store_inv_def enrolled_db_def waiting_db_def keys_ok_def nonces_ok_def outcomes_ok_def
      enrollments_ok_def enrollment_ok_def sessions_ok_def attempts_ok_def grants_ok_def granted_def budget_ok_def
      open_count_def challenge_open_def waiting_row_def session_key_def MAX_OPEN_CHALLENGES_def)

lemma enrolled_held: "custody_ok crates example_trustee enrolled_db"
  using waiting_held by (simp add: custody_ok_def enrolled_db_def waiting_db_def row_held_def)

definition recovering_document :: json where
  "recovering_document = candidate_document crates candidate_key recovering_core
     (evidence_texts crates recovering_evidence)"

definition begin_body :: bytes where
  "begin_body = canonical crates (begin_value recovering_document)"

lemma begin_body_parses: "parse crates begin_body = Some (begin_value recovering_document)"
proof -
  have "list_all (\<lambda>(f, s). utf8_valid f \<and> utf8_valid s) (evidence_texts crates recovering_evidence)"
    using recovering_text(2) base64_text [OF crates_base64] by (simp add: evidence_texts_def recovering_evidence_def)
  note doc = candidate_document_depth [OF crates_base64 recovering_text(1) this, of candidate_key,
      folded recovering_document_def]
  show ?thesis
    unfolding begin_body_def using doc by (intro begin_value_parses [OF crates_json]) simp_all
qed

lemma example_serving: "serving example_trustee"
  by (simp add: serving_def example_trustee_def service_limits_def)

lemma enrolled_row: "load_current_enrollment enrolled_db example_hex = Some (waiting_row\<lparr>erow_attempts_used := 0\<rparr>)"
  unfolding current_iff [OF enrolled_inv] by (simp add: enrolled_db_def waiting_row_def)

lemma recovering_admissible:
  "admissible example_trustee (waiting_row\<lparr>erow_attempts_used := 0\<rparr>) recovering 200"
  by (simp add: admissible_def waiting_row_def enrolled_def recovering_def session_of_def example_trustee_def
      service_limits_def)

theorem recovery_begun_witness:
  "\<exists>d' answer q. handle crates example_trustee example_entropy begin_body 200 enrolled_db = (d', Inr answer)
    \<and> load_session d' example_hex = Some q \<and> srow_status q = CoolingDown \<and> srow_cooldown_ends_at q = 320"
proof -
  have verified: "verify_session crates (ent_check example_entropy)
      (canonical crates (br_session \<lparr>br_request_version = 1, br_session = recovering_document\<rparr>)) = Inr recovering"
    using recovering_verified by (simp add: recovering_request_def recovering_document_def)
  have ids: "ses_session_id recovering = example_hex" "ses_enrollment_id recovering = example_hex"
    "ses_expires_at recovering = 700"
    by (simp_all add: recovering_def session_of_def recovering_core_def)
  have factor: "check_factor crates (erow_enrollment (waiting_row\<lparr>erow_attempts_used := 0\<rparr>)) recovering = Inr ()"
    using recovering_factor by (simp add: waiting_row_def)
  have binds: "binds recovering (enr_context (erow_enrollment (waiting_row\<lparr>erow_attempts_used := 0\<rparr>)))"
    using recovering_binds by (simp add: waiting_row_def enrolled_def)
  have ends: "320 = 200 + cooldown_secs (enr_policy (erow_enrollment (waiting_row\<lparr>erow_attempts_used := 0\<rparr>)))"
    by (simp add: waiting_row_def enrolled_def)
  have "db_high_water enrolled_db \<le> 200" "clock_time 200" "load_session enrolled_db example_hex = None"
    by (simp_all add: enrolled_db_def clock_time_def load_session_def at_key_def select_row_def)
  then show ?thesis
    using recovery_begun [OF crates_time example_serving enrolled_inv enrolled_held _ _ begin_body_parses
        begin_value_operation begin_value_read _ verified _ _ binds recovering_admissible ends]
      enrolled_row waiting_writable(3) factor unfolding ids by fastforce
qed

section \<open>Enrolling\<close>

definition invited_db :: db where
  "invited_db = new_db\<lparr>db_high_water := 200,
     db_invitations := [\<lparr>inv_digest = ''i1'', inv_expires_at = 900, inv_used_at = None\<rparr>],
     db_challenges := [\<lparr>chl_challenge = example_hex, chl_invitation = ''i1'', chl_expires_at = 800,
       chl_used_at = None\<rparr>]\<rparr>"

lemma invited_inv: "store_inv invited_db"
  using new_db_empty new_db_inv
  by (simp add: invited_db_def store_inv_def keys_ok_def nonces_ok_def outcomes_ok_def enrollments_ok_def
      sessions_ok_def attempts_ok_def grants_ok_def budget_ok_def open_count_def challenge_open_def
      MAX_OPEN_CHALLENGES_def new_db_def empty_db_def MIGRATIONS_def setup_store.simps)

definition enroll_document :: json where
  "enroll_document = enroll_value crates enrolled_context (key_id crates example_trustee) holder_sealed enrolled_artifact"

lemma enroll_body_parses: "parse crates (canonical crates enroll_document) = Some enroll_document"
  unfolding enroll_document_def
  by (rule enroll_value_parses [OF crates_json crates_base64 crates_hex enrolled_well_formed _ _
        enrolled_artifact_checked(2)])
    (use profile_text digest_ascii [OF crates_hex] ascii_utf8 in
      \<open>simp_all add: enrolled_context_def example_context_hex_def key_id_def key_digest_def\<close>)

lemma invited_open:
  "open_invitation_of invited_db example_hex 200 = Some ''i1''"
  "load_current_enrollment invited_db example_hex = None"
  using new_db_empty
  by (simp_all add: invited_db_def open_invitation_of_def challenge_open_def invitation_open_def at_key_def
      select_row_def load_current_None)

theorem enrollment_stored_witness:
  "\<exists>d' answer. handle crates example_trustee example_entropy (canonical crates enroll_document) 200 invited_db
      = (d', Inr answer)
    \<and> map erow_enrollment (db_enrollments d') = [enrolled]
    \<and> \<not> invitation_open (serve crates example_trustee [] d') ''i1'' 300"
proof -
  have ids: "ctx_trustee_challenge enrolled_context = example_hex" "ctx_enrollment_id enrolled_context = example_hex"
    by (simp_all add: enrolled_context_def example_context_hex_def)
  have "base64 crates (base64_encode crates holder_sealed) = Some holder_sealed"
    using crates_base64 by (simp add: base64_def base64_laws_def)
  moreover have "writable crates [200, enr_expires_at enrolled]"
    by (simp add: writable_def format_timestamp_def crates_def enrolled_def)
  moreover have "db_high_water invited_db \<le> 200" "db_enrollments invited_db = []"
    using new_db_empty by (simp_all add: invited_db_def)
  ultimately show ?thesis
    using enrollment_stored [OF invited_inv _ enroll_body_parses enroll_value_operation [of crates enrolled_context
          "key_id crates example_trustee" holder_sealed enrolled_artifact, folded enroll_document_def]
        enroll_value_read [of crates enrolled_context "key_id crates example_trustee" holder_sealed enrolled_artifact,
          folded enroll_document_def], of 200 holder_sealed enrolled_context
          "canonical crates (artifact_document crates enrolled_artifact)" example_trustee "''i1''" enrolled
          example_entropy]
      enrolled_accepted enrolled_artifact_checked(1) invited_open
    unfolding ids by fastforce
qed

end
