(* ===== verification/Recovered_Example.thy ===== *)
theory Recovered_Example
  imports Custody_Recovered Served_Example
begin

text \<open>
  The parties of \<open>Core_Example\<close> go the whole way: the holder enrolls in \<open>invited_db\<close>, the candidate
  begins a recovery and polls it when its cooldown of two minutes is over.
\<close>

lemma example_enrolls:
  "enrolls crates example_trustee invited_db (canonical crates enroll_document) 200 holder_sealed enrolled"
proof -
  have ids: "ctx_trustee_challenge enrolled_context = example_hex" "ctx_enrollment_id enrolled_context = example_hex"
    by (simp_all add: enrolled_context_def example_context_hex_def)
  have "base64 crates (base64_encode crates holder_sealed) = Some holder_sealed"
    using crates_base64 by (simp add: base64_def base64_laws_def)
  moreover have "writable crates [200, enr_expires_at enrolled]"
    by (simp add: writable_def format_timestamp_def crates_def enrolled_def)
  moreover have "db_high_water invited_db \<le> 200"
    by (simp add: invited_db_def)
  ultimately show ?thesis
    unfolding enrolls_def
    using enroll_body_parses enroll_value_operation [of crates enrolled_context
        "key_id crates example_trustee" holder_sealed enrolled_artifact, folded enroll_document_def]
      enroll_value_read [of crates enrolled_context "key_id crates example_trustee" holder_sealed enrolled_artifact,
        folded enroll_document_def]
      enrolled_accepted enrolled_artifact_checked(1) invited_open ids
    by fastforce
qed

lemma example_begins:
  assumes "load_current_enrollment d example_hex = Some row" "erow_status row = Accepted"
    and "erow_enrollment row = enrolled" "erow_attempts_used row = 0"
    and "db_sessions d = []" "db_high_water d \<le> 200"
  shows "begins crates example_trustee example_entropy d begin_body 200 recovering"
proof -
  have verified: "verify_session crates (ent_check example_entropy)
      (canonical crates (br_session \<lparr>br_request_version = 1, br_session = recovering_document\<rparr>)) = Inr recovering"
    using recovering_verified by (simp add: recovering_request_def recovering_document_def)
  have "ses_enrollment_id recovering = example_hex"
    by (simp add: recovering_def session_of_def recovering_core_def)
  moreover have "load_session d (ses_session_id recovering) = None"
    using assms(5) by (simp add: load_session_def at_key_def select_row_def)
  moreover have "binds recovering (enr_context (erow_enrollment row))"
    using recovering_binds assms(3) by (simp add: enrolled_def)
  moreover have "admissible example_trustee row recovering 200"
    "writable crates [ses_expires_at recovering, 200 + cooldown_secs (enr_policy (erow_enrollment row)), 200]"
    using assms(2-4) by (simp_all add: admissible_def enrolled_def recovering_def session_of_def
        example_trustee_def service_limits_def writable_def format_timestamp_def crates_def)
  moreover have "clock_time 200"
    by (simp add: clock_time_def)
  ultimately show ?thesis
    using begin_body_parses begin_value_operation [of recovering_document]
      begin_value_read [of recovering_document] verified recovering_factor assms(1,3,6)
    unfolding begins_def by (metis begin_request.select_convs(1))
qed

lemma example_exp: "format_timestamp crates 700 = Some ''62167219900''"
  using crates_time_text(2) timestamp_iff [OF crates_time] by blast

theorem custody_recovered_witness:
  "\<exists>d1 a1 d3 a3 d5 rc v b.
     handle crates example_trustee example_entropy (canonical crates enroll_document) 200 invited_db = (d1, a1)
   \<and> handle crates example_trustee example_entropy begin_body 200 d1 = (d3, a3)
   \<and> handle crates example_trustee example_entropy (client_request crates candidate_key example_request) 320 d3
       = (d5, Inr (sign_object crates (receipt_json rc) (tr_signing_key example_trustee)))
   \<and> rc_contribution rc = Some v \<and> index_field v ''sealedContribution'' = JString (base64_encode crates b)
   \<and> open_sealed crates destination_private_key (recovery_info crates example_hex enrolled_context
         (ses_destination_keys_digest recovering) ''62167219900'') b
       = Inr (canonical crates (holder_document crates holder_key enrolled_envelope))"
proof -
  obtain d1 a1 d3 a3 where h: "handle crates example_trustee example_entropy (canonical crates enroll_document) 200
      invited_db = (d1, a1)" "handle crates example_trustee example_entropy begin_body 200 d1 = (d3, a3)"
    by fastforce
  have ids: "ses_session_id recovering = example_hex" "ses_enrollment_id recovering = example_hex"
    "ctx_enrollment_id enrolled_context = example_hex" "enr_context enrolled = enrolled_context"
    "ses_expires_at recovering = 700" "cooldown_secs (enr_policy enrolled) = 120"
    "ses_proof_key recovering = ed25519_public_key crates candidate_key"
    "ses_destination_key recovering = hpke_public_key crates destination_private_key"
    by (simp_all add: recovering_def session_of_def recovering_core_def enrolled_def enrolled_context_def
        example_context_hex_def hpke_public_key_def)
  have held: "custody_ok crates example_trustee invited_db"
    using new_db_empty by (simp add: custody_ok_def invited_db_def)
  note sound = handle_inv [OF invited_inv, of crates example_trustee example_entropy "canonical crates enroll_document" 200]
    handle_custody [OF crates_json crates_seal_key invited_inv held, of example_entropy "canonical crates enroll_document" 200]
  obtain row where row: "load_current_enrollment d1 example_hex = Some row" "erow_status row = Accepted"
    "erow_enrollment row = enrolled" "erow_attempts_used row = 0"
    using enrolls_stored(1) [OF invited_inv example_enrolls h(1)] ids by auto
  have d1: "db_sessions d1 = []" "db_nonces d1 = []" "db_high_water d1 = 200"
    using enrolls_stored(2-4) [OF invited_inv example_enrolls h(1)] new_db_empty by (simp_all add: invited_db_def new_db_def empty_db_def MIGRATIONS_def setup_store.simps)
  have begun: "begins crates example_trustee example_entropy d1 begin_body 200 recovering"
    using example_begins [OF row d1(1)] d1(3) by simp
  have "load_current_enrollment d1 (ses_enrollment_id recovering) = Some row"
    using row ids by simp
  note stored = begins_stored [OF crates_json crates_seal_key crates_time example_serving sound [unfolded h(1) fst_conv]
      begun h(2) this row(3)]
  obtain q where q: "load_session d3 (ses_session_id recovering) = Some q" "srow_status q = CoolingDown"
    "session_key q = (example_hex, ctx_enrollment_sequence enrolled_context)"
    "session_enrollment d3 q = Inr (row\<lparr>erow_attempts_used := erow_attempts_used row + 1\<rparr>)"
    using stored(1) ids by auto
  have inv: "store_inv d3"
    using handle_inv [of d1 crates example_trustee example_entropy begin_body 200] sound(1) h by simp
  have "load_current_enrollment d3 example_hex = Some (row\<lparr>erow_attempts_used := erow_attempts_used row + 1\<rparr>)"
    unfolding current_iff [OF inv] using session_row_enrollment(1,2) [OF inv q(1,4)] q(3)
    by (simp add: enrollment_key_def)
  then have waits: "undisturbed d3 enrolled recovering"
    using q(1,2) row(2) ids by (simp add: undisturbed_def)
  have polled: "polls crates example_trustee d3 320 (ses_session_id recovering) example_request"
    using poll_for handle_clock [OF h(2)] d1(2,3) stored(3) ids(1)
    by (auto simp: polls_def fresh_for_def clock_time_def example_trustee_def service_limits_def writable_def
        format_timestamp_def crates_def intro!: exI [of _ 100])
  show ?thesis
    using custody_recovered [OF crates_json crates_base64 crates_ed25519 crates_hpke crates_hex crates_time crates_seal_key
        example_serving invited_inv held example_enrolls h(1) _ _ begun _ h(2) _ waits polled _ _ ids(7,8),
        of _ "[]" "[]" example_entropy] h enrolled_opens ids example_exp
    by (fastforce simp: opens_to_def)
qed

end
