(* ===== verification/Http.thy ===== *)
theory Http
  imports Service
begin

text \<open>
  The HTTP binding of \<open>src/main.rs\<close>: the three routes, the answer to one request with the headers the
  code sets, the line it logs, and a sequence of requests under the global lock.
\<close>

record http_response =
  rsp_status :: nat
  rsp_headers :: "(string \<times> string) list"
  rsp_body :: bytes

definition CONTENT_JSON :: "string \<times> string" where
  "CONTENT_JSON = (''content-type'', ''application/json'')"

record app =
  app_trustee :: trustee
  app_service :: service

section \<open>The endpoint\<close>

text \<open>\<open>App::handle\<close>, with the time read under the lock.\<close>

definition app_handle ::
  "extern \<Rightarrow> trustee \<Rightarrow> entropy \<Rightarrow> bytes \<Rightarrow> nat option \<Rightarrow> db \<Rightarrow> db \<times> bytes outcome" where
  "app_handle x t e body elapsed d =
     (case now_of elapsed of
        Inl c \<Rightarrow> (d, Inl c)
      | Inr now \<Rightarrow> handle x t e body now d)"

text \<open>A body the framework could not read (\<open>None\<close>) never reaches the store.\<close>

definition endpoint_result ::
  "extern \<Rightarrow> trustee \<Rightarrow> entropy \<Rightarrow> bytes option \<Rightarrow> nat option \<Rightarrow> db \<Rightarrow> db \<times> bytes outcome" where
  "endpoint_result x t e body elapsed d =
     (case body of
        None \<Rightarrow> (d, Inl InvalidRequest)
      | Some bs \<Rightarrow> app_handle x t e bs elapsed d)"

text \<open>The status, the code that is logged, and the body.\<close>

definition answer_of :: "extern \<Rightarrow> bytes outcome \<Rightarrow> nat \<times> string \<times> bytes" where
  "answer_of x result =
     (case result of
        Inr body \<Rightarrow> (200, ''-'', body)
      | Inl c \<Rightarrow> (status_u16 (http_status c), code_as_str c,
          canonical x (json_object [(''error'', JString (code_as_str c))])))"

definition log_line :: "nat \<Rightarrow> string \<Rightarrow> nat \<Rightarrow> string" where
  "log_line status code millis =
     ''POST /v1/trustee '' @ decimal_text status @ '' '' @ code @ '' '' @ decimal_text millis @ ''ms''"

definition endpoint ::
  "extern \<Rightarrow> trustee \<Rightarrow> entropy \<Rightarrow> bytes option \<Rightarrow> nat option \<Rightarrow> nat \<Rightarrow> db
     \<Rightarrow> db \<times> http_response \<times> string" where
  "endpoint x t e body elapsed millis d =
     (case endpoint_result x t e body elapsed d of
        (d', result) \<Rightarrow>
          (case answer_of x result of
             (status, code, answer) \<Rightarrow>
               (d', \<lparr>rsp_status = status,
                     rsp_headers = [CONTENT_JSON, (''cache-control'', ''no-store'')],
                     rsp_body = answer\<rparr>,
                log_line status code millis)))"

section \<open>The other routes\<close>

definition manifest_response :: "extern \<Rightarrow> app \<Rightarrow> nat option \<Rightarrow> http_response" where
  "manifest_response x a elapsed =
     (case and_then (now_of elapsed) (manifest x (app_trustee a) (app_service a)) of
        Inr bs \<Rightarrow> \<lparr>rsp_status = 200, rsp_headers = [CONTENT_JSON], rsp_body = bs\<rparr>
      | Inl c \<Rightarrow> \<lparr>rsp_status = status_u16 (http_status c), rsp_headers = [], rsp_body = []\<rparr>)"

definition health :: http_response where
  \<open>health = \<lparr>rsp_status = 200, rsp_headers = [CONTENT_JSON], rsp_body = as_bytes ''{"status":"ok"}''\<rparr>\<close>

section \<open>The router\<close>

text \<open>
  One request as it arrives, with the randomness and the reading of the clock its handler gets and
  the milliseconds its handler takes.
\<close>

record http_request =
  rq_verb :: string
  rq_path :: string
  rq_body :: bytes
  rq_entropy :: entropy
  rq_clock :: "nat option"
  rq_millis :: nat

text \<open>A body over the limit never becomes \<open>Bytes\<close>.\<close>

definition received :: "app \<Rightarrow> bytes \<Rightarrow> bytes option" where
  "received a body =
     (if unat (max_request_bytes (tr_limits (app_trustee a))) < length body then None else Some body)"

text \<open>
  The answer of the router, and what is logged; \<open>get\<close> also answers HEAD, without the body. An answer
  \<open>None\<close> is the framework's own, to an unknown path or another method.
\<close>

definition without_body :: "http_response \<Rightarrow> http_response" where
  "without_body r = r\<lparr>rsp_body := []\<rparr>"

definition route ::
  "extern \<Rightarrow> app \<Rightarrow> http_request \<Rightarrow> db \<Rightarrow> db \<times> http_response option \<times> string list" where
  "route x a rq d =
     (let got = (\<lambda>r.
        if rq_verb rq = ''GET'' then Some r
        else if rq_verb rq = ''HEAD'' then Some (without_body r) else None) in
      if rq_path rq = ''/health'' then (d, got health, [])
      else if rq_path rq = ''/manifest.json'' then (d, got (manifest_response x a (rq_clock rq)), [])
      else if rq_path rq = ''/v1/trustee'' \<and> rq_verb rq = ''POST'' then
        (case endpoint x (app_trustee a) (rq_entropy rq) (received a (rq_body rq)) (rq_clock rq)
            (rq_millis rq) d of
           (d', response, line) \<Rightarrow> (d', Some response, [line]))
      else (d, None, []))"

text \<open>
  The requests in the order they take the lock: the database they leave, their answers and the lines
  logged.
\<close>

fun serve_requests ::
  "extern \<Rightarrow> app \<Rightarrow> http_request list \<Rightarrow> db \<Rightarrow> db \<times> http_response option list \<times> string list" where
  "serve_requests x a [] d = (d, [], [])"
| "serve_requests x a (rq # rqs) d =
     (case route x a rq d of
        (d1, answer, logged) \<Rightarrow>
          (case serve_requests x a rqs d1 of
             (d2, answers, lines) \<Rightarrow> (d2, answer # answers, logged @ lines)))"

end
