(* ===== verification/Process.thy ===== *)
theory Process
  imports Http
begin

text \<open>
  The process of \<open>src/main.rs\<close>: its three commands, what \<open>serve\<close> checks before it listens, the key
  file \<open>keygen\<close> writes, the database file and its mode, what is printed and how the process ends. A
  file is its mode and its contents; a failing command ends with a text, the code's own.
\<close>

unbundle bit_operations_syntax

section \<open>Files\<close>

type_synonym 'a stored_file = "u32 \<times> 'a"

text \<open>
  What the platform is asked for: the parser of socket addresses, with the text one is printed as,
  and the texts of its errors.
\<close>

datatype io_error = Not_Found | Already_Exists | Not_Unicode

record platform =
  socket_addr :: "string \<Rightarrow> string option"
  error_text :: "io_error \<Rightarrow> string"

definition check_private :: "platform \<Rightarrow> string \<Rightarrow> u32 option \<Rightarrow> string + unit" where
  "check_private p path mode =
     and_then (ok_or (at_path path (error_text p Not_Found)) mode) (\<lambda>m.
       if m AND 0x3F \<noteq> 0
       then Inl (at_path path ''group or others have access; make it owner-only (chmod 600)'')
       else Inr ())"

text \<open>\<open>open_store\<close>: a missing database is created owner-only, then its mode is checked.\<close>

definition created_store :: "db stored_file option \<Rightarrow> db stored_file" where
  "created_store f = (case f of None \<Rightarrow> (0x180, empty_db) | Some g \<Rightarrow> g)"

definition open_store :: "platform \<Rightarrow> string \<Rightarrow> db stored_file option \<Rightarrow> string + db" where
  "open_store p path f =
     (let (mode, d) = created_store f in
      and_then (check_private p path (Some mode)) (\<lambda>_.
      ok_or (at_path path (''unsupported schema version '' @ decimal_text (db_version d)))
        (setup_store d)))"

section \<open>\<open>keygen\<close>\<close>

text \<open>
  The file is created owner-only and never overwritten; the two lines printed name the operator and
  the enrollment key ID of the keys read back from the text written.
\<close>

definition NO_RANDOM :: string where
  "NO_RANDOM = ''the OS random number generator failed''"

definition keygen ::
  "platform \<Rightarrow> extern \<Rightarrow> bytes option \<Rightarrow> string \<Rightarrow> (string \<Rightarrow> string stored_file option) \<Rightarrow>
     (string \<Rightarrow> string stored_file option) \<times> (string + string list)" where
  "keygen p x seeds path files =
     (case seeds of
        None \<Rightarrow> (files, Inl NO_RANDOM)
      | Some seeds \<Rightarrow>
          let text = key_file_text x seeds in
          if files path \<noteq> None then (files, Inl (at_path path (error_text p Already_Exists)))
          else (files(path \<mapsto> (0x180, text)),
            and_then (parse_keys x text) (\<lambda>keys.
              let t = \<lparr>tr_component_id = [], tr_hpke_key = snd keys, tr_signing_key = fst keys,
                    tr_limits = service_limits 0\<rparr>
              in Inr [''operator '' @ operator x t, ''trusteeKeyId '' @ key_id x t])))"

section \<open>\<open>invite\<close>\<close>

definition mint ::
  "extern \<Rightarrow> entropy \<Rightarrow> i64 \<Rightarrow> nat option \<Rightarrow> db \<Rightarrow> db \<times> string outcome" where
  "mint x e lifetime elapsed d =
     (case now_of elapsed of
        Inl c \<Rightarrow> (d, Inl c)
      | Inr now \<Rightarrow> run_step d (create_invitation x e lifetime now d))"

definition invite ::
  "platform \<Rightarrow> extern \<Rightarrow> entropy \<Rightarrow> string \<Rightarrow> string \<Rightarrow> nat option \<Rightarrow> db stored_file option
     \<Rightarrow> db stored_file option \<times> (string + string list)" where
  "invite p x e path lifetime elapsed f =
     (case positive_duration lifetime of
        None \<Rightarrow> (f, Inl ''lifetime: an ISO 8601 duration such as P7D'')
      | Some seconds \<Rightarrow>
          let file = created_store f in
          (case open_store p path f of
             Inl failed \<Rightarrow> (Some file, Inl failed)
           | Inr d \<Rightarrow>
               (case mint x e seconds elapsed d of
                  (d', result) \<Rightarrow>
                    (Some (fst file, d'),
                     and_then (map_err code_as_str result) (\<lambda>code. Inr [code])))))"

section \<open>\<open>serve\<close>\<close>

text \<open>\<open>Config::trustee\<close>.\<close>

definition config_trustee ::
  "platform \<Rightarrow> extern \<Rightarrow> (string \<Rightarrow> string stored_file option) \<Rightarrow> config \<Rightarrow> string + trustee" where
  "config_trustee p x files cfg =
     (let path = cfg_key_file cfg in
      and_then (check_private p path (map_option fst (files path))) (\<lambda>_.
      and_then (ok_or (at_path path (error_text p Not_Found)) (map_option snd (files path))) (\<lambda>text.
      and_then (ensure (utf8_valid text) (at_path path (error_text p Not_Unicode))) (\<lambda>_.
      and_then (parse_keys x text) (\<lambda>keys.
      Inr (configured_trustee cfg keys))))))"

text \<open>
  Up to the listener: the configuration, the keys, a draw from the random number generator, the
  database and its owner, and one manifest. The database file it leaves is the first component,
  also when it refuses to start.
\<close>

definition start ::
  "platform \<Rightarrow> extern \<Rightarrow> (string \<Rightarrow> string option) \<Rightarrow> (string \<Rightarrow> string stored_file option) \<Rightarrow> bool
     \<Rightarrow> nat option \<Rightarrow> db stored_file option \<Rightarrow> db stored_file option \<times> (string + config \<times> app)" where
  "start p x env files random_works elapsed f =
     (case and_then (config_from_env (socket_addr p) env) (\<lambda>cfg.
           and_then (config_trustee p x files cfg) (\<lambda>t.
           and_then (ensure random_works NO_RANDOM) (\<lambda>_. Inr (cfg, t)))) of
        Inl failed \<Rightarrow> (f, Inl failed)
      | Inr (cfg, t) \<Rightarrow>
          let path = cfg_store_path cfg; file = created_store f in
          (case open_store p path f of
             Inl failed \<Rightarrow> (Some file, Inl failed)
           | Inr d \<Rightarrow>
               (case bind_store x t d of
                  (d', bound) \<Rightarrow>
                    (Some (fst file, d'),
                     if \<not> bound then Inl (at_path path (''this database belongs to another component ''
                       @ ''or key, or holds custody from before databases were bound to one; ''
                       @ ''refusing to serve it''))
                     else map_err code_as_str (and_then (now_of elapsed) (\<lambda>now.
                       and_then (manifest x t (cfg_service cfg) now) (\<lambda>_.
                       Inr (cfg, \<lparr>app_trustee = t, app_service = cfg_service cfg\<rparr>))))))))"

text \<open>
  What comes up around the router, with the platform's error texts: the runtime, the address, the
  signal handlers, and how serving ends.
\<close>

datatype listening =
    No_Runtime string
  | No_Address string
  | No_Signals string
  | Listening "string + unit"

definition listening_line :: "extern \<Rightarrow> config \<Rightarrow> trustee \<Rightarrow> string" where
  "listening_line x cfg t = tr_component_id t @ '' '' @ operator x t @ '' trusteeKeyId '' @ key_id x t
     @ '' listening on '' @ cfg_bind cfg"

text \<open>What one invocation of the program is given.\<close>

record inputs =
  in_env :: "string \<Rightarrow> string option"
  in_seeds :: "bytes option"
  in_entropy :: entropy
  in_random_works :: bool
  in_clock :: "nat option"
  in_listening :: listening
  in_requests :: "http_request list"

text \<open>
  The database file, the answers, the lines logged and the result. A service that came up has left its
  file, so \<open>created_store\<close> reads it.
\<close>

definition serve_command ::
  "platform \<Rightarrow> extern \<Rightarrow> inputs \<Rightarrow> (string \<Rightarrow> string stored_file option) \<Rightarrow> db stored_file option
     \<Rightarrow> db stored_file option \<times> http_response option list \<times> string list \<times> (string + string list)" where
  "serve_command p x inp files f =
     (case start p x (in_env inp) files (in_random_works inp) (in_clock inp) f of
        (f', Inl failed) \<Rightarrow> (f', [], [], Inl failed)
      | (f', Inr (cfg, a)) \<Rightarrow>
          let up = listening_line x cfg (app_trustee a) in
          (case in_listening inp of
             No_Runtime error \<Rightarrow> (f', [], [up], Inl error)
           | No_Address error \<Rightarrow> (f', [], [up], Inl (at_path (cfg_bind cfg) error))
           | No_Signals error \<Rightarrow> (f', [], [up], Inl (''signals: '' @ error))
           | Listening stopped \<Rightarrow>
               (case created_store f' of
                  (mode, d) \<Rightarrow>
                    (case serve_requests x a (in_requests inp) d of
                       (d', answers, logged) \<Rightarrow>
                         (Some (mode, d'), answers,
                          up # logged @ (if is_ok stopped then [''stopped''] else []),
                          and_then stopped (\<lambda>_. Inr []))))))"

section \<open>\<open>main\<close>\<close>

datatype command = Serve_Command | Keygen_Command string | Invite_Command string

definition command_of :: "string list \<Rightarrow> command option" where
  "command_of args =
     (case args of
        [c] \<Rightarrow>
          if c = ''serve'' then Some Serve_Command
          else if c = ''invite'' then Some (Invite_Command ''P7D'') else None
      | [c, a] \<Rightarrow>
          if c = ''keygen'' then Some (Keygen_Command a)
          else if c = ''invite'' then Some (Invite_Command a) else None
      | _ \<Rightarrow> None)"

datatype exit_code = SUCCESS | FAILURE

record ending =
  end_stdout :: "string list"
  end_stderr :: "string list"
  end_code :: exit_code

definition ending_of :: "string list \<Rightarrow> string + string list \<Rightarrow> ending" where
  "ending_of logged result =
     (case result of
        Inr printed \<Rightarrow> \<lparr>end_stdout = printed, end_stderr = logged, end_code = SUCCESS\<rparr>
      | Inl message \<Rightarrow> \<lparr>end_stdout = [], end_stderr = logged @ [message], end_code = FAILURE\<rparr>)"

text \<open>The files the program keeps: key files and databases, by their paths.\<close>

record machine =
  mc_keys :: "string \<Rightarrow> string stored_file option"
  mc_databases :: "string \<Rightarrow> db stored_file option"

definition main ::
  "platform \<Rightarrow> extern \<Rightarrow> string list \<Rightarrow> inputs \<Rightarrow> machine
     \<Rightarrow> machine \<times> http_response option list \<times> ending" where
  "main p x args inp m =
     (let path = store_path (in_env inp) in
      case command_of args of
        None \<Rightarrow> (m, [], ending_of [] (Inl USAGE))
      | Some Serve_Command \<Rightarrow>
          (case serve_command p x inp (mc_keys m) (mc_databases m path) of
             (f, answers, logged, result) \<Rightarrow>
               (m\<lparr>mc_databases := (mc_databases m)(path := f)\<rparr>, answers, ending_of logged result))
      | Some (Keygen_Command key_path) \<Rightarrow>
          (case keygen p x (in_seeds inp) key_path (mc_keys m) of
             (keys, result) \<Rightarrow> (m\<lparr>mc_keys := keys\<rparr>, [], ending_of [] result))
      | Some (Invite_Command lifetime) \<Rightarrow>
          (case invite p x (in_entropy inp) path lifetime (in_clock inp) (mc_databases m path) of
             (f, result) \<Rightarrow> (m\<lparr>mc_databases := (mc_databases m)(path := f)\<rparr>, [], ending_of [] result)))"

end
