(* ===== verification/Store_Errors.thy ===== *)
theory Store_Errors
  imports Store_Properties
begin

text \<open>
  The error paths of \<open>src/store.rs\<close>: what an answer that is an error leaves behind, and what
  happens when the clock is behind the database.
\<close>

section \<open>Errors after the commit\<close>

text \<open>
  What the receipts can fail with, once a transaction is committed: an instant that cannot be
  written, or a row that is missing.
\<close>

lemma time_Inl: "time x s = Inl c \<Longrightarrow> c = TemporarilyUnavailable"
  by (cases "format_timestamp x s") (simp_all add: time_def)

lemma and_then_InlE:
  "and_then r f = Inl c \<Longrightarrow> (r = Inl c \<Longrightarrow> P) \<Longrightarrow> (\<And>v. r = Inr v \<Longrightarrow> f v = Inl c \<Longrightarrow> P) \<Longrightarrow> P"
  by (cases r) auto

lemma load_enrollment_Inl: "load_enrollment d i n = Inl c \<Longrightarrow> c = TemporarilyUnavailable"
  by (auto simp: load_enrollment_def ok_or_Inl)

lemma session_enrollment_Inl: "session_enrollment d s = Inl c \<Longrightarrow> c = TemporarilyUnavailable"
  by (auto simp: session_enrollment_def dest: load_enrollment_Inl)

lemma session_receipt_fields_Inl: "session_receipt_fields x t s en op = Inl c \<Longrightarrow> c = TemporarilyUnavailable"
  by (auto simp: session_receipt_fields_def elim!: and_then_InlE dest: time_Inl)

lemmas late_errors = time_Inl load_enrollment_Inl session_enrollment_Inl session_receipt_fields_Inl

lemma session_receipt_Inl: "session_receipt x t d i = Inl c \<Longrightarrow> c = TemporarilyUnavailable"
  by (auto simp: session_receipt_def ok_or_Inl Let_def elim!: and_then_InlE dest: late_errors)

lemma enrollment_receipt_Inl: "enrollment_receipt x t d ch sealed a = Inl c \<Longrightarrow> c = TemporarilyUnavailable"
  by (auto simp: enrollment_receipt_def ok_or_Inl Let_def elim!: and_then_InlE dest: late_errors split: if_splits)

lemma outcome_receipt_Inl: "outcome_receipt x t d sc q = Inl c \<Longrightarrow> c = TemporarilyUnavailable"
  by (auto simp: outcome_receipt_def ok_or_Inl Let_def elim!: and_then_InlE dest: late_errors split: scope.splits)

text \<open>
  What an error leaves: nothing, a challenge used up by the wrong key, or a commit whose receipt
  could not be written.
\<close>

definition error_left :: "i64 \<Rightarrow> db \<Rightarrow> db \<Rightarrow> code \<Rightarrow> bool" where
  "error_left now d d' c \<longleftrightarrow>
     d' = d
     \<or> (c = InvalidEnrollment \<and> db_high_water d \<le> now
        \<and> (\<exists>ch i. open_invitation_of d ch now = Some i
             \<and> d' = spend_challenge ch i now (d\<lparr>db_high_water := now\<rparr>)))
     \<or> c = TemporarilyUnavailable"

lemma issue_challenge_error:
  "issue_challenge x t e request now d = Inr (d', Inl c) \<Longrightarrow> error_left now d d' c"
  by (auto simp: issue_challenge_def error_left_def Let_def result_simps elim!: and_then_InrE and_then_InlE
      dest!: late_errors split: if_splits)

lemma enroll_error:
  "enroll x t request now d = Inr (d', Inl c) \<Longrightarrow> error_left now d d' c"
  unfolding enroll_def Let_def
  by (auto simp: error_left_def result_simps transaction_Inr elim!: and_then_InrE and_then_InlE
      dest!: enrollment_receipt_Inl split: if_splits option.splits) blast

lemma read_enrollment_error:
  "read_enrollment x t sg now d = Inr (d', Inl c) \<Longrightarrow> error_left now d d' c"
  unfolding read_enrollment_def Let_def
  by (auto simp: error_left_def result_simps elim!: and_then_InrE and_then_InlE dest!: late_errors)

lemma begin_recovery_error:
  "begin_recovery x t e request now d = Inr (d', Inl c) \<Longrightarrow> error_left now d d' c"
  unfolding begin_recovery_def Let_def
  by (auto simp: error_left_def result_simps transaction_Inr elim!: and_then_InrE and_then_InlE
      dest!: session_receipt_Inl split: if_splits option.splits)

lemma read_recovery_error:
  "read_recovery x t e sg now d = Inr (d', Inl c) \<Longrightarrow> error_left now d d' c"
  unfolding read_recovery_def Let_def
  by (auto simp: error_left_def result_simps ok_or_Inl elim!: and_then_InrE and_then_InlE dest!: late_errors
      split: option.splits)

lemma cancel_recovery_error:
  "cancel_recovery x t sg now d = Inr (d', Inl c) \<Longrightarrow> error_left now d d' c"
  unfolding cancel_recovery_def Let_def
  by (auto simp: error_left_def result_simps transaction_Inr elim!: and_then_InrE and_then_InlE
      dest!: outcome_receipt_Inl split: if_splits option.splits)

lemma end_enrollment_error:
  "end_enrollment x t sg now d = Inr (d', Inl c) \<Longrightarrow> error_left now d d' c"
  unfolding end_enrollment_def Let_def
  by (auto simp: error_left_def result_simps transaction_Inr elim!: and_then_InrE and_then_InlE
      dest!: outcome_receipt_Inl split: if_splits option.splits)

lemma handle_error:
  assumes "handle_step x t e body now d = Inr (d', Inl c)"
  shows "error_left now d d' c"
proof -
  obtain v where v: "parse x body = Some v"
    using assms by (auto simp: handle_step_def ok_or_Inl elim!: and_then_InrE simp: result_simps)
  show ?thesis
    using assms unfolding handle_step_def Let_def v
    by (auto simp: result_simps elim!: and_then_InrE split: if_splits
        intro: issue_challenge_error enroll_error read_enrollment_error begin_recovery_error
          read_recovery_error cancel_recovery_error end_enrollment_error)
qed



section \<open>A clock that went backwards\<close>

lemma behind_transaction: "now < db_high_water d \<Longrightarrow> transaction now d = Inl TemporarilyUnavailable"
  by (simp add: transaction_def)

lemma behind_refused:
  assumes "now < db_high_water d"
  shows "handle_step x t e body now d \<noteq> Inr p"
proof
  assume "handle_step x t e body now d = Inr p"
  then show False
    using behind_transaction [OF assms]
    by (auto simp: handle_step_def issue_challenge_def enroll_def read_enrollment_def begin_recovery_def
        read_recovery_def cancel_recovery_def end_enrollment_def Let_def elim!: and_then_InrE split: if_splits)
qed

text \<open>
  C22: The clock never runs backwards: a request at a time before the latest recorded one is refused
  whatever it asks, an invitation is refused with it, and the database stays as it is; and whatever
  happens, the recorded time never decreases.
\<close>
theorem clock_behind_refused:
  "(now < db_high_water d \<longrightarrow> (\<exists>c. handle x t e body now d = (d, Inl c))
      \<and> (\<exists>c. run_step d (create_invitation x e lifetime now d) = (d, Inl c)))
    \<and> (store_inv d \<longrightarrow> db_high_water d \<le> db_high_water (serve x t events d))"
proof (intro conjI impI)
  assume behind: "now < db_high_water d"
  show "\<exists>c. handle x t e body now d = (d, Inl c)"
    using behind_refused [OF behind, of x t e body]
    by (cases "handle_step x t e body now d") (auto simp: handle_def run_step_def)
  show "\<exists>c. run_step d (create_invitation x e lifetime now d) = (d, Inl c)"
    using behind_transaction [OF behind]
    by (cases "random_id x e") (simp_all add: create_invitation_def run_step_def)
qed (use serve_evolves in \<open>simp add: evolves_def\<close>)

theorem clock_behind_refused_witness:
  "(\<exists>c. handle crates example_trustee example_entropy [] 100 example_db = (example_db, Inl c))
    \<and> 300 \<le> db_high_water (serve crates example_trustee [Request example_entropy [] 400] example_db)"
  using clock_behind_refused [of 100 example_db crates example_trustee example_entropy "[]" 0
      "[Request example_entropy [] 400]"] example_inv by (simp add: example_db_def)

end
