(* ===== verification/Process_Properties.thy ===== *)
theory Process_Properties
  imports Process Store_Errors
begin

text \<open>
  What the process of \<open>src/main.rs\<close> promises around the store: the database it opens, whose it is,
  and the key file it reads back.
\<close>

section \<open>Opening a database\<close>

lemma setup_cases:
  "case setup_store d of
     None \<Rightarrow> SCHEMA_VERSION < db_version d
   | Some d' \<Rightarrow> db_version d \<le> SCHEMA_VERSION \<and> setup_store d' = Some d'
       \<and> d' = (if db_version d = 0 then empty_db\<lparr>db_version := SCHEMA_VERSION\<rparr>
               else if db_version d = 1 then d\<lparr>db_version := SCHEMA_VERSION, db_identity := None\<rparr>
               else d)"
proof -
  consider "db_version d = 0" | "db_version d = 1" | "db_version d = 2" | "2 < db_version d"
    by linarith
  then show ?thesis
    by cases (simp_all add: setup_store.simps MIGRATIONS_def SCHEMA_VERSION_def empty_db_def)
qed


section \<open>Whose database it is\<close>

lemma step_identity:
  "store_step x t now d d' \<Longrightarrow> db_identity d' = db_identity d \<and> db_version d' = db_version d"
  by (induction rule: store_step.induct) (auto simp: spend_nonce_Inr record_outcome_Inr spend_challenge_def)

lemma serve_identity:
  "db_identity (serve x t events d) = db_identity d \<and> db_version (serve x t events d) = db_version d"
proof (induction events arbitrary: d)
  case (Cons ev events)
  obtain d' where "store_step x t (event_time ev) d d'" "serve x t (ev # events) d = serve x t events d'"
    using serve_Cons by blast
  then show ?case
    using Cons.IH step_identity by metis
qed simp

lemma setup_current: "setup_store d = Some d' \<Longrightarrow> db_version d' = SCHEMA_VERSION \<and> setup_store d' = Some d'"
  using setup_cases [of d] by (auto simp: SCHEMA_VERSION_def split: if_splits)

lemma setup_again: "db_version d = SCHEMA_VERSION \<Longrightarrow> setup_store d = Some d"
  by (simp add: setup_store.simps SCHEMA_VERSION_def MIGRATIONS_def)

lemma bind_store_True:
  "bind_store x t d = (d', True) \<Longrightarrow> db_identity d' = Some (identity_of x t) \<and> db_version d' = db_version d
     \<and> (db_identity d \<noteq> None \<longrightarrow> d' = d)"
  by (auto simp: bind_store_def Let_def split: if_splits option.splits)

lemma bind_bound:
  "db_identity d = Some i \<Longrightarrow> bind_store x t d = (d, i = identity_of x t)"
  by (simp add: bind_store_def Let_def)

text \<open>What a service that came up has found.\<close>

lemma start_Inr:
  assumes "start p x env files works elapsed f = (g, Inr (cfg, a))"
  shows "\<exists>d d'. setup_store (snd (created_store f)) = Some d \<and> bind_store x (app_trustee a) d = (d', True)
    \<and> g = Some (fst (created_store f), d') \<and> fst (created_store f) AND 0x3F = 0"
  using assms
  by (auto simp: start_def open_store_def check_private_def Let_def result_simps case_prod_unfold prod_eq_iff
      elim!: and_then_InrE split: sum.splits if_splits)

text \<open>
  C38: A database has one owner: once a service has come up on a database, then whatever invitations
  and requests it was given, a service comes up on it again only for the same component, operator
  key and enrollment key, and finds it unchanged; and custody from before databases were bound is
  served under no key at all.
\<close>
theorem database_one_owner:
  assumes "start p x env files works elapsed f = (Some g, Inr (cfg, a))"
    and "start p x env' files' works' elapsed' (Some (fst g, serve x t events (snd g))) = (h, Inr (cfg', b))"
  shows "identity_of x (app_trustee b) = identity_of x (app_trustee a)
    \<and> h = Some (fst g, serve x t events (snd g))
    \<and> (db_version d = 1 \<longrightarrow> db_enrollments d \<noteq> []
        \<longrightarrow> (\<exists>failed. snd (start p x env files works elapsed (Some (mode, d))) = Inl failed))"
proof -
  let ?d = "serve x t events (snd g)"
  obtain d1 where "setup_store (snd (created_store f)) = Some d1"
    "bind_store x (app_trustee a) d1 = (snd g, True)"
    using start_Inr [OF assms(1)] by auto
  then have g: "db_identity ?d = Some (identity_of x (app_trustee a))" "db_version ?d = SCHEMA_VERSION"
    using setup_current bind_store_True serve_identity by metis+
  obtain d2 d3 where h: "setup_store ?d = Some d2" "bind_store x (app_trustee b) d2 = (d3, True)"
    "h = Some (fst g, d3)"
    using start_Inr [OF assms(2)] by (auto simp: created_store_def)
  have "d2 = ?d"
    using h(1) setup_again [OF g(2)] by simp
  then have same: "identity_of x (app_trustee b) = identity_of x (app_trustee a)" "d3 = ?d"
    using h(2) bind_bound [OF g(1), of x "app_trustee b"] by auto
  have "\<exists>failed. snd (start p x env files works elapsed (Some (mode, d))) = Inl failed"
    if old: "db_version d = 1" "db_enrollments d \<noteq> []"
  proof (rule ccontr)
    assume "\<nexists>failed. snd (start p x env files works elapsed (Some (mode, d))) = Inl failed"
    then obtain i cf c where "start p x env files works elapsed (Some (mode, d)) = (i, Inr (cf, c))"
      by (metis prod.collapse sum.exhaust)
    then obtain e e' where e: "setup_store d = Some e" "bind_store x (app_trustee c) e = (e', True)"
      using start_Inr by (fastforce simp: created_store_def)
    then have "e = d\<lparr>db_version := SCHEMA_VERSION, db_identity := None\<rparr>"
      using setup_cases [of d] old(1) by simp
    then show False
      using e(2) old(2) by (simp add: bind_store_def Let_def)
  qed
  then show ?thesis
    using same h(3) by simp
qed

section \<open>The key file\<close>

lemma hex_line:
  assumes "hex_laws x"
  shows "newline \<notin> set (hex_encode x b)" "strip_cr (l @ hex_encode x b) = (if b = [] then strip_cr l else l @ hex_encode x b)"
proof -
  have chars: "list_all (\<lambda>c. byte_in CHR ''0'' CHR ''9'' c \<or> byte_in CHR ''a'' CHR ''f'' c) (hex_encode x b)"
    and len: "length (hex_encode x b) = 2 * length b"
    using assms by (simp_all add: hex_laws_def)
  show "newline \<notin> set (hex_encode x b)"
    using chars by (auto simp: list_all_iff newline_def byte_in_def)
  have "last (hex_encode x b) \<noteq> CHR 0x0D" if "hex_encode x b \<noteq> []"
    using chars last_in_set [OF that] by (auto simp: list_all_iff byte_in_def)
  then show "strip_cr (l @ hex_encode x b) = (if b = [] then strip_cr l else l @ hex_encode x b)"
    using len by (cases "hex_encode x b = []") (auto simp: strip_cr_def)
qed

lemma keys_read_back:
  assumes "hex_laws x" "private_key_laws x" "length seeds = 64"
  shows "parse_keys x (key_file_text x seeds) = Inr (take 32 seeds, drop 32 seeds)"
proof -
  let ?a = "''operator-ed25519 '' @ hex_encode x (take 32 seeds)"
  let ?b = "''enrollment-x25519 '' @ hex_encode x (drop 32 seeds)"
  have lines: "newline \<notin> set ?a" "newline \<notin> set ?b"
    using hex_line(1) [OF assms(1)] by (auto simp: newline_def)
  have written: "key_file_text x seeds = ?a @ newline # (?b @ newline # [])"
    by (simp add: key_file_text_def)
  have "split_on newline (key_file_text x seeds) = [?a, ?b, []]"
    unfolding written split_on_append [OF lines(1)] split_on_append [OF lines(2)] by simp
  moreover have "take 32 seeds \<noteq> []" "drop 32 seeds \<noteq> []"
    using assms(3) by auto
  then have "strip_cr ?a = ?a" "strip_cr ?b = ?b"
    by (simp_all only: hex_line(2) [OF assms(1)] if_False)
  ultimately have "text_lines (key_file_text x seeds) = [?a, ?b]"
    by (simp add: text_lines_def)
  moreover have "hex32 x (hex_encode x (take 32 seeds)) = Some (take 32 seeds)"
    "hex32 x (hex_encode x (drop 32 seeds)) = Some (drop 32 seeds)"
    using assms(1,3) by (simp_all add: hex32_iff)
  moreover have "strip_prefix p (p @ s) = Some s" for p s
    by simp
  moreover have "hpke_private_key x (drop 32 seeds) = Inr (drop 32 seeds)"
    using assms(2,3) by (simp add: hpke_private_key_def private_key_laws_def)
  ultimately show ?thesis
    by (simp add: parse_keys_def del: strip_prefix_Some)
qed

lemma key_file_unicode:
  assumes "hex_laws x"
  shows "utf8_valid (key_file_text x seeds)"
proof -
  have "ascii (hex_encode x b)" for b
    using assms by (rule hex_encode_ascii)
  then have "ascii (key_file_text x seeds)"
    by (simp add: key_file_text_def newline_def in_bytes_def)
  then show ?thesis
    by (rule ascii_utf8)
qed

text \<open>
  C39: A new key file is read back: \<open>keygen\<close> never touches a file that exists; it writes an owner-only
  file whose keys a later \<open>serve\<close> reads back exactly, and prints the operator and the enrollment key
  ID that service will have, whatever the rest of its configuration.
\<close>
theorem keygen_round_trip:
  assumes "hex_laws x" "private_key_laws x" "length seeds = 64" "cfg_key_file cfg = path"
  shows "if files path \<noteq> None
    then keygen p x (Some seeds) path files = (files, Inl (at_path path (error_text p Already_Exists)))
    else (case keygen p x (Some seeds) path files of
        (files', printed) \<Rightarrow>
          (let t = configured_trustee cfg (take 32 seeds, drop 32 seeds)
           in config_trustee p x files' cfg = Inr t
             \<and> printed = Inr [''operator '' @ operator x t, ''trusteeKeyId '' @ key_id x t]))"
  using keys_read_back [OF assms(1-3)] key_file_unicode [OF assms(1)] assms(4)
  by (simp add: keygen_def config_trustee_def check_private_def configured_trustee_def operator_def
      key_id_def public_key_def Let_def)

section \<open>A service that comes up\<close>

definition served_env :: "string \<Rightarrow> string option" where
  "served_env = map_of [(''TRUSTEE_COMPONENT_ID'', ''onym:component:t1''),
     (''TRUSTEE_PUBLIC_URL'', ''https://t.example''), (''TRUSTEE_KEY_FILE'', ''keys'')]"

definition served_config :: config where
  "served_config = \<lparr>cfg_component_id = ''onym:component:t1'', cfg_key_file = ''keys'',
     cfg_store_path = ''trustee.sqlite'', cfg_bind = ''127.0.0.1:8080'', cfg_min_cooldown_secs = 60,
     cfg_service = \<lparr>svc_endpoint = ''https://t.example/v1/trustee'', svc_trust_domain = ''t.example'',
       svc_jurisdiction = ''none'', svc_contact = ''none''\<rparr>\<rparr>"

definition served_platform :: platform where
  "served_platform = \<lparr>socket_addr = Some, error_text = (\<lambda>_. [])\<rparr>"

definition served_files :: "string \<Rightarrow> string stored_file option" where
  "served_files = fst (keygen served_platform crates (Some (replicate 64 3)) ''keys'' (\<lambda>_. None))"

lemma served_configured: "config_from_env Some served_env = Inr served_config"
proof -
  have "duration ''PT1M'' = Some 60" "is_component_id ''onym:component:t1''"
    "public_host ''https://t.example'' = Some ''t.example''"
    by code_simp+
  then show ?thesis
    by (simp add: config_from_env_def served_env_def served_config_def positive_duration_def store_path_def)
qed

theorem keygen_round_trip_witness:
  "config_trustee served_platform crates served_files served_config
     = Inr (configured_trustee served_config (replicate 32 3, replicate 32 3))"
  using keygen_round_trip [OF crates_hex crates_private_key, of "replicate 64 3" served_config "''keys''" "\<lambda>_. None" served_platform]
  by (simp add: served_files_def served_config_def Let_def case_prod_unfold)

definition served_trustee :: trustee where
  "served_trustee = configured_trustee served_config (replicate 32 3, replicate 32 3)"

lemma served_keys: "config_trustee served_platform crates served_files served_config = Inr served_trustee"
  using keys_read_back [OF crates_hex crates_private_key, of "replicate 64 3"]
    key_file_unicode [OF crates_hex, of "replicate 64 3"]
  by (simp add: served_files_def keygen_def config_trustee_def check_private_def served_trustee_def
      served_config_def configured_trustee_def Let_def)

lemma served_manifest: "\<exists>bs. manifest crates served_trustee (cfg_service served_config) 100 = Inr bs"
proof -
  have "valid_until_secs 100 = 7776000"
    by (simp add: valid_until_secs_def MANIFEST_PERIOD_SECS_def i64_exact in_i64_def)
  then have "format_timestamp crates (valid_until_secs 100) \<noteq> None"
    by (simp add: format_timestamp_def crates_def)
  then show ?thesis
    by (auto simp: manifest_def)
qed

lemma served_start:
  assumes "created_store f = (mode, d)" "mode AND 0x3F = 0" "setup_store d = Some d1"
    and "bind_store crates served_trustee d1 = (d2, True)"
  shows "start served_platform crates served_env served_files True (Some 100) f
    = (Some (mode, d2), Inr (served_config, \<lparr>app_trustee = served_trustee, app_service = cfg_service served_config\<rparr>))"
  using assms served_manifest
  by (auto simp: start_def served_platform_def served_configured served_keys [unfolded served_platform_def] open_store_def check_private_def now_of_def Let_def)

theorem database_one_owner_witness:
  "\<exists>g cfg a h cfg' b. start served_platform crates served_env served_files True (Some 100) None = (Some g, Inr (cfg, a))
     \<and> start served_platform crates served_env served_files True (Some 100)
         (Some (fst g, serve crates served_trustee [Invite example_entropy 600 10] (snd g))) = (h, Inr (cfg', b))
     \<and> identity_of crates (app_trustee b) = identity_of crates (app_trustee a)"
proof -
  let ?i = "Some (identity_of crates served_trustee)"
  let ?d = "empty_db\<lparr>db_version := SCHEMA_VERSION, db_identity := ?i\<rparr>"
  let ?e = "serve crates served_trustee [Invite example_entropy 600 10] ?d"
  have fresh: "setup_store empty_db = Some (empty_db\<lparr>db_version := SCHEMA_VERSION\<rparr>)"
    using setup_cases [of empty_db] by (simp add: empty_db_def SCHEMA_VERSION_def split: option.splits)
  have bound: "bind_store crates served_trustee (empty_db\<lparr>db_version := SCHEMA_VERSION\<rparr>) = (?d, True)"
    by (simp add: bind_store_def empty_db_def)
  have first: "start served_platform crates served_env served_files True (Some 100) None = (Some (0x180, ?d),
      Inr (served_config, \<lparr>app_trustee = served_trustee, app_service = cfg_service served_config\<rparr>))"
    by (rule served_start [OF _ _ fresh bound]) (simp_all add: created_store_def)
  have e: "db_identity ?e = ?i" "db_version ?e = SCHEMA_VERSION"
    using serve_identity [of crates served_trustee _ ?d] by (simp_all del: serve.simps)
  have second: "start served_platform crates served_env served_files True (Some 100) (Some (0x180, ?e)) = (Some (0x180, ?e),
      Inr (served_config, \<lparr>app_trustee = served_trustee, app_service = cfg_service served_config\<rparr>))"
    by (rule served_start [OF _ _ setup_again [OF e(2)]])
      (simp_all add: created_store_def bind_bound [OF e(1)] del: serve.simps)
  then have "start served_platform crates served_env served_files True (Some 100)
      (Some (fst (0x180 :: u32, ?d), serve crates served_trustee [Invite example_entropy 600 10] (snd (0x180 :: u32, ?d))))
    = (Some (0x180, ?e), Inr (served_config, \<lparr>app_trustee = served_trustee, app_service = cfg_service served_config\<rparr>))"
    by (simp only: fst_conv snd_conv)
  from database_one_owner [OF first this] first this show ?thesis
    by blast
qed

end
