(* ===== verification/Http_Properties.thy ===== *)
theory Http_Properties
  imports Http Store_Errors
begin

text \<open>
  What the HTTP binding of \<open>src/main.rs\<close> promises: its requests are the store's, and neither the log
  nor an error answer tells more than the outcome.
\<close>

section \<open>The requests are the store's\<close>

definition is_post :: "http_request \<Rightarrow> bool" where
  "is_post rq \<longleftrightarrow> rq_path rq = ''/v1/trustee'' \<and> rq_verb rq = ''POST''"

text \<open>What of a request reaches the store: a readable body, at a readable time.\<close>

definition request_events :: "app \<Rightarrow> http_request \<Rightarrow> event list" where
  "request_events a rq =
     (if is_post rq
      then (case received a (rq_body rq) of
              None \<Rightarrow> []
            | Some body \<Rightarrow>
                (case now_of (rq_clock rq) of
                   Inl c \<Rightarrow> []
                 | Inr now \<Rightarrow> [Request (rq_entropy rq) body now]))
      else [])"

definition posted :: "extern \<Rightarrow> app \<Rightarrow> http_request \<Rightarrow> db \<Rightarrow> db \<times> bytes outcome" where
  "posted x a rq d = endpoint_result x (app_trustee a) (rq_entropy rq) (received a (rq_body rq)) (rq_clock rq) d"

lemma posted_serves:
  "is_post rq \<Longrightarrow> fst (posted x a rq d) = serve x (app_trustee a) (request_events a rq) d"
  by (simp add: posted_def endpoint_result_def app_handle_def request_events_def split: option.splits sum.splits)

lemma route_post:
  "is_post rq \<Longrightarrow> route x a rq d =
     (fst (posted x a rq d),
      Some \<lparr>rsp_status = fst (answer_of x (snd (posted x a rq d))),
            rsp_headers = [CONTENT_JSON, (''cache-control'', ''no-store'')],
            rsp_body = snd (snd (answer_of x (snd (posted x a rq d))))\<rparr>,
      [log_line (fst (answer_of x (snd (posted x a rq d))))
         (fst (snd (answer_of x (snd (posted x a rq d))))) (rq_millis rq)])"
  by (simp add: route_def is_post_def endpoint_def posted_def Let_def case_prod_unfold)

lemma route_other: "\<not> is_post rq \<Longrightarrow> fst (route x a rq d) = d \<and> snd (snd (route x a rq d)) = []"
  by (auto simp: route_def is_post_def Let_def)

lemma route_serves: "fst (route x a rq d) = serve x (app_trustee a) (request_events a rq) d"
proof (cases "is_post rq")
  case True
  then show ?thesis
    by (simp add: route_post posted_serves)
next
  case False
  then show ?thesis
    by (simp add: route_other request_events_def)
qed

lemma requests_served:
  "fst (serve_requests x a rqs d) = serve x (app_trustee a) (concat (map (request_events a) rqs)) d"
  by (induction rqs arbitrary: d) (simp_all add: case_prod_unfold route_serves serve_append)

section \<open>What an observer of the log learns\<close>

text \<open>The codes of the requests to the endpoint, in order; \<open>None\<close> is a success.\<close>

fun refusal :: "'a outcome \<Rightarrow> code option" where
  "refusal (Inl c) = Some c"
| "refusal (Inr b) = None"

fun post_outcomes :: "extern \<Rightarrow> app \<Rightarrow> http_request list \<Rightarrow> db \<Rightarrow> code option list" where
  "post_outcomes x a [] d = []"
| "post_outcomes x a (rq # rqs) d =
     (if is_post rq then [refusal (snd (posted x a rq d))] else [])
     @ post_outcomes x a rqs (fst (route x a rq d))"

fun post_answers :: "http_request list \<Rightarrow> http_response option list \<Rightarrow> http_response option list" where
  "post_answers (rq # rqs) (r # rs) = (if is_post rq then [r] else []) @ post_answers rqs rs"
| "post_answers rqs rs = []"

text \<open>An answer without the body of a success.\<close>

definition outline :: "http_response \<Rightarrow> http_response" where
  "outline r = (if rsp_status r = 200 then r\<lparr>rsp_body := []\<rparr> else r)"

definition outline_of :: "extern \<Rightarrow> code option \<Rightarrow> http_response" where
  "outline_of x k = \<lparr>rsp_status = (case k of None \<Rightarrow> 200 | Some c \<Rightarrow> status_u16 (http_status c)),
     rsp_headers = [CONTENT_JSON, (''cache-control'', ''no-store'')],
     rsp_body = (case k of None \<Rightarrow> []
       | Some c \<Rightarrow> canonical x (json_object [(''error'', JString (code_as_str c))]))\<rparr>"

definition line_of :: "code option \<times> nat \<Rightarrow> string" where
  "line_of = (\<lambda>(k, millis). case k of None \<Rightarrow> log_line 200 ''-'' millis
     | Some c \<Rightarrow> log_line (status_u16 (http_status c)) (code_as_str c) millis)"

lemma status_not_ok: "status_u16 (http_status c) \<noteq> 200"
  by (cases c) simp_all

lemma route_outline:
  assumes "is_post rq"
  shows "map_option outline (fst (snd (route x a rq d))) = Some (outline_of x (refusal (snd (posted x a rq d))))"
    "snd (snd (route x a rq d)) = [line_of (refusal (snd (posted x a rq d)), rq_millis rq)]"
  using status_not_ok
  by (cases "snd (posted x a rq d)";
      simp add: route_post [OF assms] answer_of_def outline_def outline_of_def line_of_def)+

lemma requests_outlined:
  "map (map_option outline) (post_answers rqs (fst (snd (serve_requests x a rqs d))))
     = map (\<lambda>k. Some (outline_of x k)) (post_outcomes x a rqs d)
   \<and> snd (snd (serve_requests x a rqs d))
     = map line_of (zip (post_outcomes x a rqs d) (map rq_millis (filter is_post rqs)))"
  by (induction rqs arbitrary: d) (auto simp: case_prod_unfold route_outline route_other)

definition never_cached :: "http_response option \<Rightarrow> bool" where
  "never_cached r \<longleftrightarrow>
     map_option rsp_headers r = Some [CONTENT_JSON, (''cache-control'', ''no-store'')]"

lemma never_cached_outline: "never_cached (map_option outline r) \<longleftrightarrow> never_cached r"
  by (cases r) (simp_all add: never_cached_def outline_def)

text \<open>
  C37: Neither the log nor a refusal tells more than the outcome: two services, whatever their keys,
  databases, clocks and requests, whose requests to the endpoint end with the same codes after the
  same number of milliseconds, log the same lines and give the same answers but for the bodies of
  successes; and every answer of the endpoint is one that no cache may keep.
\<close>
theorem log_tells_outcomes:
  assumes "post_outcomes x a rqs d = post_outcomes x b rqs' d'"
    and "map rq_millis (filter is_post rqs) = map rq_millis (filter is_post rqs')"
  shows "snd (snd (serve_requests x a rqs d)) = snd (snd (serve_requests x b rqs' d'))
    \<and> map (map_option outline) (post_answers rqs (fst (snd (serve_requests x a rqs d))))
      = map (map_option outline) (post_answers rqs' (fst (snd (serve_requests x b rqs' d'))))
    \<and> list_all never_cached (post_answers rqs (fst (snd (serve_requests x a rqs d))))"
proof -
  have "list_all never_cached (map (map_option outline) (post_answers rqs (fst (snd (serve_requests x a rqs d)))))"
    unfolding requests_outlined [THEN conjunct1] by (simp add: list_all_iff never_cached_def outline_of_def)
  then have "list_all never_cached (post_answers rqs (fst (snd (serve_requests x a rqs d))))"
    by (simp add: list.pred_map comp_def never_cached_outline)
  then show ?thesis
    using requests_outlined assms by simp
qed

end
