(* ===== verification/Process_Runs.thy ===== *)
theory Process_Runs
  imports Process_Properties Http_Properties
begin

text \<open>
  The program over time: whatever invocations of \<open>main\<close> follow one another on a machine, what its
  database and key files hold is kept.
\<close>

section \<open>Invocations of the program\<close>

text \<open>Any invocations, one after the other, with whatever each is given.\<close>

definition operate ::
  "platform \<Rightarrow> extern \<Rightarrow> (string list \<times> inputs) list \<Rightarrow> machine \<Rightarrow> machine" where
  "operate p x runs m = foldl (\<lambda>m (args, inp). fst (main p x args inp m)) m runs"

definition main_step :: "platform \<Rightarrow> extern \<Rightarrow> machine \<Rightarrow> machine \<Rightarrow> bool" where
  "main_step p x m m' \<longleftrightarrow> (\<exists>args inp. m' = fst (main p x args inp m))"

lemma operate_steps: "(main_step p x)\<^sup>*\<^sup>* m (operate p x runs m)"
proof (induction runs rule: rev_induct)
  case (snoc run runs)
  have "main_step p x (operate p x runs m) (operate p x (runs @ [run]) m)"
    by (cases run) (auto simp: main_step_def operate_def)
  with snoc show ?case
    by (rule rtranclp.rtrancl_into_rtrancl)
qed (simp add: operate_def)

section \<open>A database file through one command\<close>

definition file_ok :: "db stored_file option \<Rightarrow> bool" where
  "file_ok f \<longleftrightarrow> (case f of None \<Rightarrow> True
     | Some (mode, d) \<Rightarrow> mode = 0x180 \<and> db_version d = SCHEMA_VERSION \<and> store_inv d)"

definition file_leads :: "db stored_file option \<Rightarrow> db stored_file option \<Rightarrow> bool" where
  "file_leads f f' \<longleftrightarrow> (case f of None \<Rightarrow> True
     | Some (mode, d) \<Rightarrow> \<exists>d'. f' = Some (mode, d') \<and> evolves d d'
         \<and> db_identity d \<in> {None, db_identity d'})"

lemma store_inv_identity: "store_inv (d\<lparr>db_identity := i\<rparr>) \<longleftrightarrow> store_inv d"
  by (simp add: store_inv_def keys_ok_def enrollments_ok_def sessions_ok_def attempts_ok_def
      grants_ok_def granted_def budget_ok_def open_count_def nonces_ok_def outcomes_ok_def load_session_def)

lemma evolves_identity: "evolves d (d\<lparr>db_identity := i\<rparr>)"
proof -
  have "load_session (d\<lparr>db_identity := i\<rparr>) = load_session d"
    by (rule ext) (simp add: load_session_def)
  then show ?thesis
    using evolves_refl [of d] by (simp add: evolves_def grants_kept_def)
qed

lemma new_file_ok:
  "setup_store empty_db = Some d \<Longrightarrow> db_version d = SCHEMA_VERSION \<and> store_inv d"
  using setup_current store_inv_setup by blast

lemma opened:
  assumes "file_ok f"
  shows "\<exists>d. open_store p path f = Inr d \<and> db_version d = SCHEMA_VERSION \<and> store_inv d
    \<and> fst (created_store f) = 0x180 \<and> (f = None \<or> f = Some (0x180, d))"
proof (cases f)
  case None
  obtain d where "setup_store empty_db = Some d"
    using setup_cases [of empty_db] by (fastforce simp: empty_db_def SCHEMA_VERSION_def split: option.splits)
  then show ?thesis
    using None new_file_ok by (simp add: open_store_def created_store_def check_private_def)
next
  case (Some g)
  then show ?thesis
    using assms setup_again
    by (cases g) (simp add: open_store_def created_store_def check_private_def file_ok_def)
qed

text \<open>What a command leaves when it wrote a database that goes on from the one it opened.\<close>

lemma written:
  assumes "f = None \<or> f = Some (0x180, d)" "store_inv d'" "db_version d' = SCHEMA_VERSION"
    and "evolves d d'" "db_identity d \<in> {None, db_identity d'}"
  shows "file_ok (Some (0x180, d')) \<and> file_leads f (Some (0x180, d'))"
  using assms by (auto simp: file_ok_def file_leads_def)

lemma unwritten: "file_ok f \<Longrightarrow> file_ok f \<and> file_leads f f"
  by (simp add: file_leads_def evolves_refl split: option.splits)

lemma bound_file:
  assumes "f = None \<or> f = Some (0x180, d)" "store_inv d" "db_version d = SCHEMA_VERSION"
  shows "file_ok (Some (0x180, fst (bind_store x t d))) \<and> file_leads f (Some (0x180, fst (bind_store x t d)))"
proof (rule written [OF assms(1)])
  have "fst (bind_store x t d) = d \<or> (\<exists>i. fst (bind_store x t d) = d\<lparr>db_identity := Some i\<rparr>
      \<and> db_identity d \<in> {None, Some i})"
    by (cases "db_identity d") (auto simp: bind_store_def Let_def)
  then show "store_inv (fst (bind_store x t d))" "db_version (fst (bind_store x t d)) = SCHEMA_VERSION"
    "evolves d (fst (bind_store x t d))" "db_identity d \<in> {None, db_identity (fst (bind_store x t d))}"
    using assms store_inv_identity evolves_identity evolves_refl by auto
qed

lemma start_keeps:
  assumes "file_ok f" "start p x env files works elapsed f = (f', r)"
  shows "file_ok f' \<and> file_leads f f'"
proof (cases "f' = f")
  case False
  then obtain cfg t where cfg: "and_then (config_from_env (socket_addr p) env) (\<lambda>cfg.
      and_then (config_trustee p x files cfg) (\<lambda>t.
      and_then (ensure works NO_RANDOM) (\<lambda>_. Inr (cfg, t)))) = Inr (cfg, t)"
    using assms(2) by (auto simp: start_def split: sum.splits)
  obtain d where d: "open_store p (cfg_store_path cfg) f = Inr d" "db_version d = SCHEMA_VERSION" "store_inv d"
    "fst (created_store f) = 0x180" "f = None \<or> f = Some (0x180, d)"
    using opened [OF assms(1)] by blast
  then have "f' = Some (0x180, fst (bind_store x t d))"
    using assms(2) cfg by (auto simp: start_def Let_def case_prod_unfold)
  then show ?thesis
    using bound_file [OF d(5,3,2)] by simp
qed (use unwritten [OF assms(1)] in simp)

lemma invite_keeps:
  assumes "file_ok f" "invite p x e path lifetime elapsed f = (f', r)"
  shows "file_ok f' \<and> file_leads f f'"
proof (cases "f' = f")
  case False
  obtain d where d: "open_store p path f = Inr d" "db_version d = SCHEMA_VERSION" "store_inv d"
    "fst (created_store f) = 0x180" "f = None \<or> f = Some (0x180, d)"
    using opened [OF assms(1)] by blast
  then obtain seconds where f': "f' = Some (0x180, fst (mint x e seconds elapsed d))"
    using assms(2) False by (auto simp: invite_def Let_def case_prod_unfold split: option.splits)
  have "\<exists>events. fst (mint x e seconds elapsed d) = serve x t events d" for t
  proof (cases "now_of elapsed")
    case (Inl c)
    then show ?thesis
      by (intro exI [of _ "[]"]) (simp add: mint_def)
  next
    case (Inr now)
    then show ?thesis
      by (intro exI [of _ "[Invite e seconds now]"]) (simp add: mint_def)
  qed
  then show ?thesis
    using written [OF d(5)] serve_inv [OF d(3)] serve_evolves [OF d(3)] serve_identity d(2) unfolding f'
    by (metis insertI1 insertI2)
qed (use unwritten [OF assms(1)] in simp)

lemma serve_command_keeps:
  assumes "file_ok f" "serve_command p x inp files f = (f', answers, logged, r)"
  shows "file_ok f' \<and> file_leads f f'"
proof -
  obtain f1 r1 where s: "start p x (in_env inp) files (in_random_works inp) (in_clock inp) f = (f1, r1)"
    by fastforce
  note up = start_keeps [OF assms(1) s]
  show ?thesis
  proof (cases "f' = f1")
    case False
    then obtain cfg a stopped where r1: "r1 = Inr (cfg, a)" "in_listening inp = Listening stopped"
      using assms(2) s by (auto simp: serve_command_def Let_def split: sum.splits listening.splits)
    have "f1 \<noteq> None"
      using s unfolding r1 by (auto simp: start_def Let_def case_prod_unfold split: sum.splits)
    then obtain d where f1: "f1 = Some (0x180, d)" "db_version d = SCHEMA_VERSION" "store_inv d"
      using up by (cases f1) (auto simp: file_ok_def)
    let ?d = "serve x (app_trustee a) (concat (map (request_events a) (in_requests inp))) d"
    have "f' = Some (0x180, ?d)"
      using assms(2) s r1 f1(1) requests_served [of x a "in_requests inp" d]
      by (auto simp: serve_command_def created_store_def Let_def case_prod_unfold)
    then show ?thesis
      using up f1 serve_inv [OF f1(3)] serve_evolves [OF f1(3)] serve_identity evolves_trans
      by (fastforce simp: file_ok_def file_leads_def split: option.splits)
  qed (use up in simp)
qed

section \<open>Nothing kept is lost\<close>

definition machine_ok :: "machine \<Rightarrow> bool" where
  "machine_ok m \<longleftrightarrow> (\<forall>path. file_ok (mc_databases m path))"

definition machine_leads :: "machine \<Rightarrow> machine \<Rightarrow> bool" where
  "machine_leads m m' \<longleftrightarrow>
     (\<forall>path. file_leads (mc_databases m path) (mc_databases m' path))
     \<and> (\<forall>path. mc_keys m path \<in> {None, mc_keys m' path})"

lemma file_leads_refl: "file_leads f f"
  by (simp add: file_leads_def evolves_refl split: option.splits)

lemma file_leads_trans: "file_leads f g \<Longrightarrow> file_leads g h \<Longrightarrow> file_leads f h"
  using evolves_trans by (fastforce simp: file_leads_def split: option.splits)

lemma keygen_keeps: "keygen p x seeds path files = (files', r) \<Longrightarrow> files q \<in> {None, files' q}"
  by (cases "files path") (auto simp: keygen_def Let_def split: option.splits if_splits)

lemma database_written:
  assumes "machine_ok m" "file_ok f" "file_leads (mc_databases m path) f"
  shows "machine_ok (m\<lparr>mc_databases := (mc_databases m)(path := f)\<rparr>)
    \<and> machine_leads m (m\<lparr>mc_databases := (mc_databases m)(path := f)\<rparr>)"
  using assms file_leads_refl by (auto simp: machine_ok_def machine_leads_def)

lemma main_keeps:
  assumes "machine_ok m"
  shows "machine_ok (fst (main p x args inp m)) \<and> machine_leads m (fst (main p x args inp m))"
proof -
  let ?path = "store_path (in_env inp)"
  have f: "file_ok (mc_databases m ?path)"
    using assms by (simp add: machine_ok_def)
  have same: "machine_leads m m"
    by (simp add: machine_leads_def file_leads_refl)
  show ?thesis
  proof (cases "command_of args")
    case None
    then show ?thesis
      using assms same by (simp add: main_def)
  next
    case (Some c)
    show ?thesis
    proof (cases c)
      case Serve_Command
      obtain f' answers logged r where s: "serve_command p x inp (mc_keys m) (mc_databases m ?path) = (f', answers, logged, r)"
        by (metis prod_cases4)
      then show ?thesis
        using database_written [OF assms] serve_command_keeps [OF f s] Some Serve_Command by (simp add: main_def)
    next
      case (Keygen_Command k)
      obtain keys r where s: "keygen p x (in_seeds inp) k (mc_keys m) = (keys, r)"
        by fastforce
      then show ?thesis
        using assms keygen_keeps [OF s] file_leads_refl Some Keygen_Command
        by (auto simp: main_def machine_ok_def machine_leads_def)
    next
      case (Invite_Command l)
      obtain f' r where s: "invite p x (in_entropy inp) ?path l (in_clock inp) (mc_databases m ?path) = (f', r)"
        by fastforce
      then show ?thesis
        using database_written [OF assms] invite_keeps [OF f s] Some Invite_Command by (simp add: main_def)
    qed
  qed
qed

lemma machine_leads_trans:
  assumes "machine_leads m m'" "machine_leads m' m''"
  shows "machine_leads m m''"
  unfolding machine_leads_def
proof (intro conjI allI)
  fix q
  show "file_leads (mc_databases m q) (mc_databases m'' q)"
    using assms unfolding machine_leads_def by (blast intro: file_leads_trans)
  have "mc_keys m q \<in> {None, mc_keys m' q}" "mc_keys m' q \<in> {None, mc_keys m'' q}"
    using assms by (simp_all add: machine_leads_def)
  then show "mc_keys m q \<in> {None, mc_keys m'' q}"
    by auto
qed

interpretation process: progress "main_step p x" machine_ok machine_leads for p x
  by unfold_locales
    (use main_keeps in \<open>auto simp: main_step_def machine_leads_def [of m m for m] file_leads_refl
      intro: machine_leads_trans\<close>)

definition new_machine :: "(string \<Rightarrow> string stored_file option) \<Rightarrow> machine" where
  "new_machine keys = \<lparr>mc_keys = keys, mc_databases = (\<lambda>_. None)\<rparr>"


end
