(* ===== verification/Store_Inviting.thy ===== *)
theory Store_Inviting
  imports Store_Enrolling Client_Bodies
begin

text \<open>
  The way in: an invitation code buys a challenge, and the challenge an enrollment can answer.
\<close>

section \<open>The holder's first request\<close>

definition challenge_fields :: "string list" where
  "challenge_fields = [''requestVersion'', ''operation'', ''componentId'', ''invitation'']"

definition challenge_value :: "string \<Rightarrow> string \<Rightarrow> json" where
  "challenge_value component_id code = json_object (zip challenge_fields
     [JU64 1, JString ''issue-challenge'', JString component_id, JString code])"

lemma challenge_value_read:
  "challenge_request_of_json (challenge_value i code) = Some
     \<lparr>cr_request_version = 1, cr_component_id = i, cr_invitation = code\<rparr>"
  unfolding challenge_request_of_json_def challenge_value_def challenge_fields_def
  by (subst struct_written) simp_all

lemma challenge_value_operation:
  "index_field (challenge_value i code) ''operation'' = JString ''issue-challenge''"
  using index_written [of challenge_fields "[JU64 1, JString ''issue-challenge'', JString i, JString code]" 1]
  by (simp add: challenge_value_def challenge_fields_def)

lemma challenge_value_parses:
  assumes "json_laws x" "utf8_valid i" "utf8_valid code"
  shows "parse x (canonical x (challenge_value i code)) = Some (challenge_value i code)"
proof (rule parse_canonical [OF assms(1)])
  have "list_all ascii (''issue-challenge'' # challenge_fields)"
    by (simp add: challenge_fields_def in_bytes_def)
  then have "list_all utf8_valid (''issue-challenge'' # challenge_fields)"
    by (auto simp: list_all_iff ascii_utf8)
  then show "plain_value (challenge_value i code)" "json_depth (challenge_value i code) \<le> 127"
    unfolding challenge_value_def
    by (intro plain_object [where n = 127]; use assms in \<open>simp add: challenge_fields_def\<close>)+
qed (simp add: challenge_value_def json_object_def)

section \<open>The challenge\<close>

definition challenge_answer :: "extern \<Rightarrow> trustee \<Rightarrow> string \<Rightarrow> string \<Rightarrow> bytes" where
  "challenge_answer x t challenge until = canonical x (json_object
     [(''challenge'', JString challenge), (''componentId'', JString (tr_component_id t)),
      (''expiresAt'', JString until), (''trusteeKeyId'', JString (key_id x t))])"

text \<open>An invitation with room: unspent, unexpired, and with fewer open challenges than the most it may have.\<close>

definition open_of :: "db \<Rightarrow> string \<Rightarrow> i64 \<Rightarrow> nat" where
  "open_of d i now = length (filter (\<lambda>c. chl_invitation c = i \<and> challenge_open c now) (db_challenges d))"

lemma challenge_issued:
  assumes "json_laws x" "hex32 x code \<noteq> None" "utf8_valid code" "utf8_valid (tr_component_id t)"
    and "ent_id e = Some b" "hex_encode x b \<notin> chl_challenge ` set (db_challenges d)"
    and "db_high_water d \<le> now" "clock_time now" "writable x [now + 900]"
    and "at_key inv_digest (db_invitations d) i = Some v" "i = digest x (as_bytes code)"
    and "inv_used_at v = None" "now < inv_expires_at v" "open_of d i now < 4"
  shows "\<exists>d' until. handle x t e (canonical x (challenge_value (tr_component_id t) code)) now d
      = (d', Inr (challenge_answer x t (hex_encode x b) until))
    \<and> format_timestamp x (now + 900) = Some until
    \<and> (\<forall>k. now \<le> k \<and> k < now + 900 \<and> k < inv_expires_at v
        \<longrightarrow> open_invitation_of d' (hex_encode x b) k = Some i)"
proof -
  let ?body = "canonical x (challenge_value (tr_component_id t) code)"
  let ?row = "\<lparr>chl_challenge = hex_encode x b, chl_invitation = i, chl_expires_at = now + 900, chl_used_at = None\<rparr>"
  let ?d = "d\<lparr>db_high_water := now\<rparr>"
  let ?d' = "?d\<lparr>db_challenges := db_challenges d @ [?row]\<rparr>"
  have expires: "i64_add now CHALLENGE_LIFETIME_SECS = now + 900"
    using assms(8) by (auto simp: CHALLENGE_LIFETIME_SECS_def clock_time_def in_i64_def intro!: i64_add_exact)
  have ins: "insert_row chl_challenge ?row (db_challenges d) = Some (db_challenges d @ [?row])"
    using assms(6) by (simp add: result_iff)
  have "i \<in> inv_digest ` set (db_invitations d)"
    using at_key_Some [OF assms(10)] by blast
  then have "insert_challenge ?row ?d = Inr ?d'"
    using ins by (simp add: insert_challenge_def)
  moreover have "open_challenges ?d i now = Some (int (open_of d i now))"
    using assms(10,12,13) by (simp add: open_challenges_def invitation_open_def open_of_def)
  moreover obtain until where until: "format_timestamp x (now + 900) = Some until"
    using assms(9) by (auto simp: writable_def)
  then have "time x (now + 900) = Inr until"
    by (simp add: time_def)
  moreover have "handle_step x t e ?body now d = issue_challenge x t e (challenge_value (tr_component_id t) code) now d"
    using challenge_value_parses [OF assms(1,4,3)] challenge_value_operation by (simp add: handle_step_def Let_def)
  ultimately have "handle x t e ?body now d = (?d', Inr (challenge_answer x t (hex_encode x b) until))"
    using assms(2,5,7,11,14) challenge_value_read expires
    by (simp add: handle_def run_step_def issue_challenge_def transaction_def random_id_def MAX_OPEN_CHALLENGES_def
        challenge_answer_def Let_def)
  moreover have "open_invitation_of ?d' (hex_encode x b) k = Some i" if "k < now + 900" "k < inv_expires_at v" for k
    using challenges.lookup_insert [OF ins, of "hex_encode x b"] assms(10,12) that
    by (simp add: open_invitation_of_def challenge_open_def invitation_open_def)
  ultimately show ?thesis
    using until by blast
qed

end
