(* ===== verification/Process_Inviting.thy ===== *)
theory Process_Inviting
  imports Process_Runs Store_Inviting
begin

text \<open>The operator's and the holder's first steps together: \<open>invite\<close>, \<open>serve\<close>, \<open>issue-challenge\<close>.\<close>

lemma invited:
  assumes "file_ok f" "invite p x e path lifetime (Some minted) f = (Some g, Inr [code])"
    and "positive_duration lifetime = Some seconds" "ent_id e = Some b" "in_i64 (int minted + seconds)"
  shows "code = hex_encode x b \<and> at_key inv_digest (db_invitations (snd g)) (digest x (as_bytes code))
      = Some \<lparr>inv_digest = digest x (as_bytes code), inv_expires_at = int minted + seconds, inv_used_at = None\<rparr>
    \<and> file_ok (Some g)"
proof -
  let ?row = "\<lparr>inv_digest = digest x (as_bytes code), inv_expires_at = int minted + seconds, inv_used_at = None\<rparr>"
  obtain d where d: "open_store p path f = Inr d"
    using opened [OF assms(1)] by blast
  then have "create_invitation x e seconds (int minted) d = Inr (snd g, Inr code)"
    using assms(2,3)
    by (auto simp: invite_def mint_def now_of_def run_step_def Let_def case_prod_unfold result_iff
        split: if_splits sum.splits)
  then have "code = hex_encode x b \<and> (\<exists>rows. insert_row inv_digest ?row (db_invitations d) = Some rows
      \<and> snd g = d\<lparr>db_high_water := int minted, db_invitations := rows\<rparr>)"
    using assms(4,5)
    by (auto simp: create_invitation_def random_id_def transaction_def Let_def i64_add_exact result_simps
        simp del: insert_row_Some elim!: and_then_InrE split: if_splits)
  then have "code = hex_encode x b" "insert_row inv_digest ?row (db_invitations d) = Some (db_invitations (snd g))"
    by auto
  then show ?thesis
    using invitations.lookup_insert [of ?row] invite_keeps [OF assms(1,2)] by simp
qed

lemma served_component:
  assumes "start p x env keys works elapsed f = (g, Inr (cfg, a))"
  shows "is_component_id (tr_component_id (app_trustee a))"
proof -
  have "is_component_id (cfg_component_id cfg)" if "config_from_env addr env = Inr cfg" for addr
    using that by (auto simp: config_from_env_def Let_def elim!: and_then_InrE split: if_splits)
  moreover have "tr_component_id (app_trustee a) = cfg_component_id cfg \<and> config_from_env (socket_addr p) env = Inr cfg"
    using assms
    by (auto simp: start_def config_trustee_def configured_trustee_def Let_def case_prod_unfold result_iff
        elim!: and_then_InrE split: sum.splits if_splits)
  ultimately show ?thesis
    by metis
qed

text \<open>
  C11: An invitation code that was printed is honoured: once \<open>invite\<close> has printed a code and a service
  has come up on the database, then, after whatever requests, as long as the code is neither used nor
  expired and has fewer than four open challenges, a request with it is answered with a challenge;
  and an enrollment can answer that challenge for fifteen minutes, or until the code expires.
\<close>
theorem invitation_honoured:
  assumes "json_laws x" "hex_laws x"
    and "file_ok f" "invite p x e path lifetime (Some minted) f = (Some g, Inr [code])"
    and "positive_duration lifetime = Some seconds" "ent_id e = Some b" "length b = 32" "in_i64 (int minted + seconds)"
    and "start p x env keys works elapsed (Some g) = (Some h, Inr (cfg, a))"
    and "d = fst (serve_requests x a rqs (snd h))" "i = digest x (as_bytes code)"
    and "list_all (\<lambda>v. inv_digest v = i \<longrightarrow> inv_used_at v = None) (db_invitations d)" "open_of d i now < 4"
    and "db_high_water d \<le> now" "now < int minted + seconds" "clock_time now" "writable x [now + 900]"
    and "ent_id e' = Some c" "hex_encode x c \<notin> chl_challenge ` set (db_challenges d)"
  shows "\<exists>d' until. handle x (app_trustee a) e'
        (canonical x (challenge_value (tr_component_id (app_trustee a)) code)) now d
      = (d', Inr (challenge_answer x (app_trustee a) (hex_encode x c) until))
    \<and> format_timestamp x (now + 900) = Some until
    \<and> (\<forall>k. now \<le> k \<and> k < now + 900 \<and> k < int minted + seconds
        \<longrightarrow> open_invitation_of d' (hex_encode x c) k = Some i)"
proof -
  let ?row = "\<lparr>inv_digest = i, inv_expires_at = int minted + seconds, inv_used_at = None\<rparr>"
  have code: "code = hex_encode x b" and row: "at_key inv_digest (db_invitations (snd g)) i = Some ?row"
    and g: "file_ok (Some g)"
    using invited [OF assms(3-6,8)] unfolding assms(11) by blast+
  have h: "store_inv (snd h)" "evolves (snd g) (snd h)"
    using start_keeps [OF g assms(9)] by (cases g; cases h; simp add: file_ok_def file_leads_def)+
  have "evolves (snd g) d"
    unfolding assms(10) requests_served using evolves_trans [OF h(2) serve_evolves [OF h(1)]] .
  then have "grants_kept (snd g) d"
    by (simp add: evolves_def)
  then obtain v where v: "at_key inv_digest (db_invitations d) i = Some v" "inv_expires_at v = int minted + seconds"
    using rows_leadD [where a = "at_key inv_digest (db_invitations (snd g))", OF _ row] unfolding grants_kept_def
    by fastforce
  have unused: "inv_used_at v = None"
    using at_key_Some [OF v(1)] assms(12) by (simp add: list_all_iff)
  have expires: "now < inv_expires_at v"
    using v(2) assms(15) by simp
  have "hex32 x code = Some b"
    unfolding code using assms(7) by (simp add: hex32_iff [OF assms(2)])
  then have hex: "hex32 x code \<noteq> None"
    by simp
  have unicode: "utf8_valid code" "utf8_valid (tr_component_id (app_trustee a))"
    unfolding code
    by (rule ascii_utf8 [OF hex_encode_ascii [OF assms(2)]],
        rule ascii_utf8 [OF is_component_id_ascii [OF served_component [OF assms(9)]]])
  show ?thesis
    by (rule challenge_issued [OF assms(1) hex unicode assms(18,19,14,16,17) v(1) assms(11) unused expires assms(13),
          unfolded v(2)])
qed

end
