(* ===== verification/Process_Example.thy ===== *)
theory Process_Example
  imports Process_Inviting
begin

text \<open>The process on a new database: a printed code that is used, and two services that log the same.\<close>

section \<open>An invitation on a new database\<close>

definition inviting :: entropy where
  "inviting = \<lparr>ent_id = Some (replicate 32 7), ent_check = [], ent_seal = []\<rparr>"

definition challenging :: entropy where
  "challenging = \<lparr>ent_id = Some (replicate 32 8), ent_check = [], ent_seal = []\<rparr>"

definition printed_code :: string where
  "printed_code = hex_encode crates (replicate 32 7)"

definition minted_db :: db where
  "minted_db = empty_db\<lparr>db_version := SCHEMA_VERSION, db_high_water := 100,
     db_invitations := [\<lparr>inv_digest = digest crates (as_bytes printed_code), inv_expires_at = 604900,
       inv_used_at = None\<rparr>]\<rparr>"

definition served_app :: app where
  "served_app = \<lparr>app_trustee = served_trustee, app_service = cfg_service served_config\<rparr>"

definition health_request :: http_request where
  "health_request = \<lparr>rq_verb = ''GET'', rq_path = ''/health'', rq_body = [], rq_entropy = inviting,
     rq_clock = None, rq_millis = 0\<rparr>"

lemma week: "positive_duration ''P7D'' = Some 604800"
proof -
  have "duration ''P7D'' = Some 604800"
    by code_simp
  then show ?thesis
    by (simp add: positive_duration_def)
qed

lemma new_setup: "setup_store empty_db = Some (empty_db\<lparr>db_version := SCHEMA_VERSION\<rparr>)"
  using setup_cases [of empty_db] by (simp add: empty_db_def SCHEMA_VERSION_def split: option.splits)

lemma new_opened: "open_store p path None = Inr (empty_db\<lparr>db_version := SCHEMA_VERSION\<rparr>)"
  by (simp add: open_store_def created_store_def check_private_def new_setup)

lemma minted_mint:
  "mint crates inviting 604800 (Some 100) (empty_db\<lparr>db_version := SCHEMA_VERSION\<rparr>) = (minted_db, Inr printed_code)"
  by (simp add: mint_def now_of_def create_invitation_def random_id_def transaction_def run_step_def inviting_def
      printed_code_def minted_db_def empty_db_def insert_row_def i64_exact in_i64_def Let_def)

lemma minted_invite:
  "invite served_platform crates inviting ''db'' ''P7D'' (Some 100) None = (Some (0x180, minted_db), Inr [printed_code])"
  by (simp add: invite_def week new_opened minted_mint created_store_def Let_def)

lemma minted_start:
  "start served_platform crates served_env served_files True (Some 100) (Some (0x180, minted_db))
     = (Some (0x180, minted_db\<lparr>db_identity := Some (identity_of crates served_trustee)\<rparr>), Inr (served_config, served_app))"
  unfolding served_app_def
proof (rule served_start)
  show "setup_store minted_db = Some minted_db"
    by (rule setup_again) (simp add: minted_db_def)
qed (simp_all add: created_store_def bind_store_def minted_db_def empty_db_def)

theorem invitation_honoured_witness:
  "\<exists>d' until. handle crates served_trustee challenging
      (canonical crates (challenge_value (tr_component_id served_trustee) printed_code)) 200
      (minted_db\<lparr>db_identity := Some (identity_of crates served_trustee)\<rparr>)
    = (d', Inr (challenge_answer crates served_trustee (hex_encode crates (replicate 32 8)) until))
    \<and> open_invitation_of d' (hex_encode crates (replicate 32 8)) 1000 = Some (digest crates (as_bytes printed_code))"
proof -
  let ?d = "minted_db\<lparr>db_identity := Some (identity_of crates served_trustee)\<rparr>"
  have d: "?d = fst (serve_requests crates served_app [health_request] (snd (0x180 :: u32, ?d)))"
    by (simp add: route_def health_request_def)
  have room: "list_all (\<lambda>v. inv_digest v = i \<longrightarrow> inv_used_at v = None) (db_invitations ?d)" "open_of ?d i 200 < 4"
    "db_high_water ?d \<le> 200" "h \<notin> chl_challenge ` set (db_challenges ?d)" for i h
    by (simp_all add: minted_db_def open_of_def empty_db_def)
  have minted: "invite served_platform crates inviting ''db'' ''P7D'' (Some 100) None
      = (Some (0x180, minted_db), Inr [printed_code])"
    by (rule minted_invite)
  have times: "(200 :: int) < int 100 + 604800" "clock_time 200" "in_i64 (int 100 + 604800)"
    by (simp_all add: clock_time_def in_i64_def)
  have "writable crates [200 + 900]"
    by (simp add: writable_def format_timestamp_def crates_def)
  then show ?thesis
    using invitation_honoured [OF crates_json crates_hex _ minted week _ _ times(3) minted_start d refl room(1-3)
        times(1,2) _ _ room(4), of "replicate 32 7" challenging "replicate 32 8"]
    by (force simp: file_ok_def inviting_def challenging_def served_app_def)
qed

section \<open>Two services that log the same\<close>

definition refused_post :: "bytes \<Rightarrow> http_request" where
  "refused_post body = \<lparr>rq_verb = ''POST'', rq_path = ''/v1/trustee'', rq_body = body, rq_entropy = inviting,
     rq_clock = None, rq_millis = 12\<rparr>"

theorem log_tells_outcomes_witness:
  "snd (snd (serve_requests crates served_app [refused_post [1], health_request] empty_db))
    = snd (snd (serve_requests crates served_app [refused_post [2, 3]] minted_db))"
proof -
  have "received served_app [1] = Some [1]" "received served_app [2, 3] = Some [2, 3]"
    by (simp_all add: received_def served_app_def served_trustee_def configured_trustee_def service_limits_def
        max_request_bytes_def)
  then have "post_outcomes crates served_app [refused_post [1], health_request] empty_db = [Some TemporarilyUnavailable]"
    "post_outcomes crates served_app [refused_post [2, 3]] minted_db = [Some TemporarilyUnavailable]"
    by (simp_all add: refused_post_def health_request_def is_post_def posted_def endpoint_result_def app_handle_def
        now_of_def)
  then show ?thesis
    by (intro log_tells_outcomes [THEN conjunct1]) (simp_all add: refused_post_def health_request_def is_post_def)
qed

end
