(* ===== verification/Manifest_Properties.thy ===== *)
theory Manifest_Properties
  imports Service Store_Example Store_Replay Core_Properties
begin

text \<open>
  What the published manifest promises (\<open>Trustee::manifest\<close>): a signature that verifies, an expiry 60
  to 90 days ahead, and bytes that change only when the expiry moves on.
\<close>

section \<open>The grid of the expiry\<close>

lemma valid_until_exact: "clock_time now \<Longrightarrow> valid_until_secs now = (now div MANIFEST_PERIOD_SECS + 3) * MANIFEST_PERIOD_SECS"
proof -
  assume now: "clock_time now"
  have "now div MANIFEST_PERIOD_SECS * MANIFEST_PERIOD_SECS \<le> now"
    "now - MANIFEST_PERIOD_SECS < now div MANIFEST_PERIOD_SECS * MANIFEST_PERIOD_SECS"
    unfolding MANIFEST_PERIOD_SECS_def by presburger+
  then have "in_i64 (now div MANIFEST_PERIOD_SECS + 3)"
    "in_i64 ((now div MANIFEST_PERIOD_SECS + 3) * MANIFEST_PERIOD_SECS)"
    using now by (auto simp: clock_time_def in_i64_def MANIFEST_PERIOD_SECS_def abs_less_iff)
  then show ?thesis
    by (simp add: valid_until_secs_def Let_def i64_exact)
qed

lemma valid_until_ahead:
  assumes "clock_time now"
  shows "now + 60 * DAY < valid_until_secs now" "valid_until_secs now \<le> now + 90 * DAY"
  unfolding valid_until_exact [OF assms] MANIFEST_PERIOD_SECS_def DAY_def by presburger+

lemma valid_until_period:
  assumes "clock_time now" "clock_time later"
  shows "valid_until_secs now = valid_until_secs later
    \<longleftrightarrow> now div MANIFEST_PERIOD_SECS = later div MANIFEST_PERIOD_SECS"
  by (simp add: valid_until_exact assms MANIFEST_PERIOD_SECS_def)

section \<open>The manifest as a document\<close>

lemma plain_members:
  assumes "list_all (\<lambda>(k, v). utf8_valid k \<and> plain_value v \<and> json_depth v < n) kvs" "0 < n"
  shows "plain_value (json_object kvs) \<and> json_depth (json_object kvs) \<le> n"
proof -
  have "utf8_valid k \<and> plain_value v \<and> json_depth v < n" if "(k, v) \<in> set (btree_of kvs)" for k v
    using that assms(1) btree_of_values by (fastforce simp: list_all_iff)
  moreover have "sorted_wrt (<) (map fst (btree_of kvs))"
    using btree_of_ordered unfolding ordered_def .
  ultimately show ?thesis
    using assms(2) by (fastforce simp: json_object_def depth_object simp del: json_depth.simps)
qed

definition service_text :: "service \<Rightarrow> bool" where
  "service_text svc \<longleftrightarrow>
     list_all utf8_valid [svc_endpoint svc, svc_trust_domain svc, svc_jurisdiction svc, svc_contact svc]"

lemma manifest_names:
  "list_all ascii [''version'', ''componentId'', ''seat'', ''operator'', ''recoveryProfileId'',
     ''implementationProfileIds'', ''bindingVersion'', ''endpoints'', ''trustDomain'', ''jurisdiction'', ''retention'',
     ''recoveryFactors'', ''notificationChannels'', ''enrollmentKey'', ''suite'', ''publicKey'', ''trusteeKeyId'',
     ''storageClass'', ''limits'', ''operations'', ''unsupportedOperations'', ''offers'', ''validUntil'']"
  "list_all ascii [''clockSkewSeconds'', ''minimumCooldownSeconds'', ''maximumCooldownSeconds'',
     ''maximumSessionLifetimeSeconds'', ''maximumAttempts'', ''maximumEnrollmentTermSeconds'',
     ''maximumArtifactBytes'', ''maximumRequestBytes'']"
  "list_all ascii [''offerId'', ''free-v1'', ''model'', ''free'', ''service'', ''recoveryFees'', ''none'', ''lapse'',
     ''export'', ''unavailable'', ''complaints'', ''splits'', ''limitations'', ''onym:key:'']"
  by (simp_all add: in_bytes_def)

lemma manifest_constants:
  "list_all ascii [SEAT, RECOVERY_PROFILE_ID, IMPLEMENTATION_PROFILE_ID, BINDING_VERSION, ENCRYPTION_SUITE,
     STORAGE_CLASS, NOTICE_HOLDER_POLL, trim_end_matches CHR '':'' FACTOR_ED25519_SESSION]"
  "list_all ascii OPERATIONS" "list_all (\<lambda>(operation, c). ascii operation \<and> ascii (code_as_str c)) REFUSED"
  "ascii RETENTION"
  by (simp_all add: in_bytes_def SEAT_def RECOVERY_PROFILE_ID_def IMPLEMENTATION_PROFILE_ID_def BINDING_VERSION_def
      ENCRYPTION_SUITE_def STORAGE_CLASS_def NOTICE_HOLDER_POLL_def FACTOR_ED25519_SESSION_def trim_end_matches_def
      OPERATIONS_def REFUSED_def RETENTION_def)

lemma manifest_texts:
  "list_all ascii names \<Longrightarrow> list_all utf8_valid names"
  by (auto simp: list_all_iff ascii_utf8)

lemma plain_texts: "list_all utf8_valid ss \<Longrightarrow> plain_value (JArray (map JString ss)) \<and> json_depth (JArray (map JString ss)) \<le> 1"
  by (induction ss) simp_all

lemma json_i64_plain: "in_i64 i \<Longrightarrow> plain_value (json_i64 i) \<and> json_depth (json_i64 i) = 0"
  by (auto simp: json_i64_def in_i64_def)

definition limits_in_range :: "limits \<Rightarrow> bool" where
  "limits_in_range l \<longleftrightarrow> list_all in_i64 [lim_skew_secs l, lim_min_cooldown_secs l, lim_max_cooldown_secs l,
     lim_max_session_lifetime_secs l, lim_max_enrollment_term_secs l]"

lemma offer_texts:
  "list_all ascii [''Custody of one SLIP-0039 share per enrollment slot, released ''
        @ ''under the enrolled policy'',
     ''Unreviewed reference implementation: synthetic test secrets only.'',
     ''Notices reach the holder only while an enrolled device polls.'',
     ''Freshness rests on this operator's local state and clock.'']"
  by (simp add: in_bytes_def)

lemmas texts = manifest_names [THEN manifest_texts] manifest_constants(1,2) [THEN manifest_texts]
  manifest_constants(4) [THEN ascii_utf8] offer_texts [THEN manifest_texts]

lemma manifest_parts_plain:
  assumes "hex_laws x" "service_text svc" "limits_in_range l"
  shows "plain_value (manifest_key x t) \<and> json_depth (manifest_key x t) \<le> 1"
    "plain_value (manifest_limits l) \<and> json_depth (manifest_limits l) \<le> 1"
    "plain_value manifest_refused \<and> json_depth manifest_refused \<le> 1"
    "plain_value (manifest_offer svc) \<and> json_depth (manifest_offer svc) \<le> 2"
    "utf8_valid (operator x t)"
proof -
  have hexes: "utf8_valid (hex_encode x b)" "utf8_valid (key_id x t)" for b
    using hex_encode_ascii [OF assms(1)] digest_ascii [OF assms(1)] ascii_utf8
    by (simp_all add: key_id_def key_digest_def)
  show "utf8_valid (operator x t)"
    using hex_encode_ascii [OF assms(1)] manifest_names(3) by (intro ascii_utf8) (simp add: operator_def)
  show "plain_value (manifest_key x t) \<and> json_depth (manifest_key x t) \<le> 1"
    unfolding manifest_key_def by (rule plain_members) (use texts hexes in simp_all)
  show "plain_value (manifest_limits l) \<and> json_depth (manifest_limits l) \<le> 1"
    unfolding manifest_limits_def
    by (rule plain_members) (use assms(3) texts json_i64_plain in \<open>simp_all add: limits_in_range_def\<close>)
  show "plain_value manifest_refused \<and> json_depth manifest_refused \<le> 1"
    unfolding manifest_refused_def
    by (rule plain_members) (use manifest_constants(3) ascii_utf8 in \<open>auto simp: list_all_iff\<close>)
  show "plain_value (manifest_offer svc) \<and> json_depth (manifest_offer svc) \<le> 2"
    unfolding manifest_offer_def by (rule plain_members) (use assms(2) texts in \<open>simp_all add: service_text_def\<close>)
qed

lemma manifest_signable:
  assumes "hex_laws x" "service_text svc" "utf8_valid (tr_component_id t)" "limits_in_range (tr_limits t)" "utf8_valid w"
  shows "signable ''signature'' (manifest_json x t svc w)"
proof -
  note parts = manifest_parts_plain [OF assms(1,2,4)]
  have "json_depth (manifest_key x t) < 127" "json_depth (manifest_limits (tr_limits t)) < 127"
    "json_depth manifest_refused < 127" "json_depth (JArray [manifest_offer svc]) < 127"
    "json_depth (JArray (map JString OPERATIONS)) < 127" "plain_value (JArray (map JString OPERATIONS))"
    using parts(1) [of t] parts(2-4) plain_texts [OF texts(5)] by simp_all
  then have "plain_value (manifest_json x t svc w) \<and> json_depth (manifest_json x t svc w) \<le> 127"
    unfolding manifest_json_def
    by (intro plain_members)
      (use assms(2,3,5) parts texts in \<open>simp_all add: service_text_def\<close>)
  moreover have "take_field ''signature'' (manifest_json x t svc w) = None" "is_object (manifest_json x t svc w)"
    by (simp_all add: manifest_json_def json_object_def map_of_btree_of)
  ultimately show ?thesis
    by (simp add: signable_def)
qed

section \<open>The published manifest\<close>

lemma limits_of_service: "in_i64 m \<Longrightarrow> limits_in_range (service_limits m)"
  by (simp add: limits_in_range_def service_limits_def in_i64_def DAY_def)

text \<open>
  C36: The manifest can be relied on: it parses to the manifest object with a signature member that
  verifies under the operator key, its \<open>validUntil\<close> reads as an instant more than 60 and at most 90
  days ahead of the request, without wrap-around, and every request of the same 30-day period gets
  the same bytes.
\<close>
theorem manifest_published:
  assumes "json_laws x" "base64_laws x" "ed25519_laws x" "hex_laws x" "time_laws x"
    and "service_text svc" "utf8_valid (tr_component_id t)" "limits_in_range (tr_limits t)"
    and "clock_time now" "manifest x t svc now = Inr b"
  shows "\<exists>v g w sg until. parse x b = Some v \<and> take_string ''signature'' v = Some (g, manifest_json x t svc w)
    \<and> signature x g = Some sg
    \<and> verify x (ed25519_public_key x (tr_signing_key t)) (canonical x (manifest_json x t svc w)) sg = Inr ()
    \<and> timestamp x w = Some until \<and> now + 60 * DAY < until \<and> until \<le> now + 90 * DAY
    \<and> (\<forall>later. clock_time later \<longrightarrow> later div MANIFEST_PERIOD_SECS = now div MANIFEST_PERIOD_SECS \<longrightarrow>
          manifest x t svc later = Inr b)"
proof -
  obtain w where w: "format_timestamp x (valid_until_secs now) = Some w"
    "b = sign_object x (manifest_json x t svc w) (tr_signing_key t)"
    using assms(10) by (auto simp: manifest_def result_iff)
  have sig: "signable ''signature'' (manifest_json x t svc w)"
    using manifest_signable [OF assms(4,6-8) timestamp_text [OF assms(5) w(1)]] .
  have "timestamp x w = Some (valid_until_secs now)"
    using w(1) timestamp_iff [OF assms(5)] by blast
  moreover have "manifest x t svc later = Inr b"
    if "clock_time later" "later div MANIFEST_PERIOD_SECS = now div MANIFEST_PERIOD_SECS" for later
    using assms(10) valid_until_period [OF that(1) assms(9)] that(2) by (simp add: manifest_def)
  ultimately show ?thesis
    using signed_object_checks [OF assms(1-3) sig, of "tr_signing_key t"] w(2) valid_until_ahead [OF assms(9)]
    by blast
qed

theorem manifest_published_witness:
  "\<exists>b v g w sg. manifest crates example_trustee (\<lparr>svc_endpoint = [], svc_trust_domain = [], svc_jurisdiction = [],
       svc_contact = []\<rparr>) 100 = Inr b \<and> parse crates b = Some v
    \<and> take_string ''signature'' v = Some (g, manifest_json crates example_trustee
        \<lparr>svc_endpoint = [], svc_trust_domain = [], svc_jurisdiction = [], svc_contact = []\<rparr> w)
    \<and> signature crates g = Some sg"
proof -
  let ?svc = "\<lparr>svc_endpoint = [], svc_trust_domain = [], svc_jurisdiction = [], svc_contact = []\<rparr>"
  have until: "valid_until_secs 100 = 7776000"
    by (simp add: valid_until_secs_def MANIFEST_PERIOD_SECS_def i64_exact in_i64_def Let_def)
  obtain b where b: "manifest crates example_trustee ?svc 100 = Inr b"
    by (simp add: manifest_def until format_timestamp_def crates_def)
  have text_ok: "service_text ?svc" "utf8_valid (tr_component_id example_trustee)"
    "limits_in_range (tr_limits example_trustee)" "clock_time 100"
    using limits_of_service [of 60] example_request_text
    by (simp_all add: service_text_def example_trustee_def in_i64_def clock_time_def example_request_def request_text_def
        member_texts_def)
  show ?thesis
    using manifest_published [OF crates_json crates_base64 crates_ed25519 crates_hex crates_time text_ok b] b
    by blast
qed

end
