(* ===== verification/Secret_Json.thy ===== *)
theory Secret_Json
  imports Json
begin

text \<open>
  The documents that hold a share (\<open>SecretJson\<close> of \<open>src/wire.rs\<close>): parsed like every other, and when
  dropped each text in them, at any depth, is wiped. \<open>zeroize\<close> leaves an empty string.
\<close>

datatype secret_json = SecretJson json

definition secret_parse :: "extern \<Rightarrow> bytes \<Rightarrow> secret_json option" where
  "secret_parse x raw = map_option SecretJson (parse x raw)"

fun wipe :: "json \<Rightarrow> json" where
  "wipe (JString s) = JString []"
| "wipe (JArray vs) = JArray (map wipe vs)"
| "wipe (JObject kvs) = JObject (map (\<lambda>(k, v). (k, wipe v)) kvs)"
| "wipe v = v"

fun drop_secret :: "secret_json \<Rightarrow> json" where
  "drop_secret (SecretJson v) = wipe v"

fun texts_in :: "json \<Rightarrow> string list" where
  "texts_in (JString s) = [s]"
| "texts_in (JArray vs) = concat (map texts_in vs)"
| "texts_in (JObject kvs) = concat (map (\<lambda>(k, v). texts_in v) kvs)"
| "texts_in v = []"

text \<open>No text survives, and the shape of the document is all that is left besides its numbers.\<close>

lemma wipe_texts: "list_all (\<lambda>s. s = []) (texts_in (wipe v))"
proof (induction v)
  case (JObject kvs)
  then show ?case
    by (fastforce simp: list_all_iff snds.simps)
qed (auto simp: list_all_iff)

lemma wipe_again: "wipe (wipe v) = wipe v"
proof (induction v)
  case (JObject kvs)
  then show ?case
    by (fastforce simp: snds.simps)
qed simp_all

lemma dropped_texts: "list_all (\<lambda>s. s = []) (texts_in (drop_secret d))"
  by (cases d) (simp add: wipe_texts)

end
