(* ===== verification/Spec2Isabelle.thy ===== *)
theory Spec2Isabelle
  imports Slip39_Vectors Recovered_Example Process_Example Manifest_Properties Secret_Json
begin

text \<open>
  A verification development of the Onym recovery trustee, a service in Rust that keeps one share of a
  secret for a holder and gives it, after a cooldown the holder can use to object, to a candidate who
  presents the factor the holder enrolled.

  \<^bold>\<open>The program.\<close> \<open>src/src/main.rs\<close> has three commands: \<open>keygen\<close> writes a key file, \<open>invite\<close> prints an
  invitation code, and \<open>serve\<close> reads keys and configuration, opens the database and answers HTTP
  requests one at a time: each is handed with the clock's reading to \<open>src/src/store.rs\<close>, whose handlers
  run as one transaction each over eight tables. The handlers ask \<open>src/src/lib.rs\<close>, the protocol core
  without state or clock, to accept an envelope, to check an artifact, to verify a session and its factor,
  and to seal a contribution; and they ask \<open>src/src/state.rs\<close> whether a session may begin and whether a
  contribution may leave. \<open>src/src/wire.rs\<close> holds the error codes, canonical JSON, the text encodings and
  the objects of the contract; \<open>src/src/slip39.rs\<close> decodes one share with the list of
  \<open>src/src/wordlist.txt\<close>; \<open>src/src/crypto.rs\<close> wraps the sealing and signature crates.

  \<^bold>\<open>The model.\<close> Definitions keep the names of the source. A structure is a \<open>record\<close>, an enumeration a
  \<open>datatype\<close>, \<open>Result\<close> a sum with the error on the left and \<open>?\<close> the operator \<open>and_then\<close>. \<open>u8\<close>, \<open>u16\<close>,
  \<open>u32\<close> and \<open>u64\<close> are words; \<open>i64\<close> is an \<open>int\<close> whose sums, differences and products are wrapped by
  \<open>i64_add\<close>, \<open>i64_sub\<close> and \<open>i64_mul\<close> as in a release build; \<open>usize\<close> has 64 bits; a \<open>String\<close> is the list
  of its bytes. The database is a value that each operation takes and returns. Randomness and the clock's
  reading are arguments. A drop has no value, so what it wipes is stated apart, in \<open>Secret_Json\<close>.

  \<^bold>\<open>Theories.\<close>
  \<^item> \<open>Trustee_Prelude\<close>: widths, wrapped arithmetic, results (\<open>result_iff\<close> collects when a chain of
    fallible steps gives a value or an error), the string functions of the standard library, and the
    interface \<open>named_enum\<close>.
  \<^item> \<open>Codes\<close> (\<open>Code\<close> of \<open>wire.rs\<close>, \<open>status\<close> of \<open>main.rs\<close>) and \<open>Local_State\<close> (\<open>state.rs\<close>): the codes
    and local states with their names, which determine them (\<open>named_enum\<close>, interpreted three times);
    \<open>admit\<close> and \<open>release\<close>, with the exact conditions of each of their outcomes.
  \<^item> \<open>Slip39_Wordlist\<close>, \<open>Slip39\<close>: \<open>slip39.rs\<close>; \<open>Slip39_Checksum\<close>, \<open>Slip39_Encoding\<close>: a reference encoder,
    written from the specification, and that the code accepts exactly what it produces; \<open>Slip39_Vectors\<close>:
    three of the repository's test vectors, evaluated.
  \<^item> \<open>Externals\<close>, \<open>Crypto\<close>: the crates as the record \<open>extern\<close> and \<open>crypto.rs\<close> over it; \<open>Example_Crates\<close>:
    an instance that satisfies every law, for the witnesses only.
  \<^item> \<open>Json\<close>, \<open>Secret_Json\<close>, \<open>Encodings\<close>, \<open>Objects\<close>, \<open>Requests\<close>: \<open>wire.rs\<close> in its own order, the decoders
    serde derives included. \<open>Documents\<close>, \<open>Clients\<close>, \<open>Client_Bodies\<close>, \<open>Wire_Properties\<close>: what an honest
    client writes and that it is read back; canonical bytes; the separation of what is signed and of what
    is sealed.
  \<^item> \<open>Trustee_Core\<close>: \<open>lib.rs\<close>; \<open>Manifest\<close>: \<open>Trustee::manifest\<close>. \<open>Core_Properties\<close> and
    \<open>Manifest_Properties\<close> hold what they promise.
  \<^item> \<open>Tables\<close>: statements on a table as functions on the list of its rows, with the interface
    \<open>keyed_table\<close>; \<open>Store_Rows\<close>: schema, rows, migrations, transaction, freshness, nonces and recorded
    outcomes (six interpretations of \<open>keyed_table\<close>); \<open>Store\<close>: one definition per handler, and \<open>handle\<close>.
  \<^item> \<open>Service\<close>: configuration, key file and clock of \<open>main.rs\<close>; \<open>Http\<close>: its routes, answers with their
    headers and log lines, and \<open>serve_requests\<close>, the requests in the order they take the lock; \<open>Process\<close>:
    files and their modes, the three commands, and \<open>main\<close> with what it prints and its exit code.

  \<^bold>\<open>How the store is verified.\<close> \<open>Store_Steps\<close> gives the store as a step relation, one rule for each change
  a request can commit, and shows that every run of \<open>handle\<close> and \<open>create_invitation\<close> takes one of its
  steps. \<open>Store_Invariant\<close> and \<open>Store_Grants\<close> build the invariant \<open>store_inv\<close>, each part preserved by
  every step. \<open>Store_Runs\<close> declares two interfaces: \<open>progress\<close>, a machine whose steps keep an invariant and
  go forward in an order, and its extension \<open>lasting_fact\<close>, a fact that no later step undoes; the store
  provides the first with the order \<open>evolves\<close>, so that what holds of one step holds of every sequence
  \<open>serve x t events\<close> of invitations and requests, at any times. Over these stand:
  \<^item> \<open>Store_Properties\<close>, \<open>Store_Tables\<close>: limits, finality, keys and foreign keys of reachable databases;
  \<^item> \<open>Store_Authority\<close>: every change of a session or of a status was signed by its owner;
  \<^item> \<open>Store_Replay\<close>, \<open>Store_Retries\<close>: a read is answered once, and a repeated change is answered with the
    same bytes;
  \<^item> \<open>Store_Errors\<close>: what an error leaves behind;
  \<^item> \<open>Store_Custody\<close>: what is stored stays releasable;
  \<^item> \<open>Store_Served\<close>, \<open>Store_Enrolling\<close>: the requests that are always served, with their effect;
  \<^item> \<open>Vault\<close>: an abstract custody protocol of slots, recoveries and a clock, and the interface \<open>simulation\<close>,
    interpreted to show that the store's steps are steps of that protocol;
  \<^item> \<open>Custody_Recovered\<close>: enrollment, recovery and poll composed, from the bytes the holder sealed to the
    bytes the candidate opens.

  \<^bold>\<open>How the process is verified.\<close> \<open>Http_Properties\<close> shows that a run of HTTP requests is a run \<open>serve x t
  events\<close> of the store (\<open>requests_served\<close>), so what holds of the store holds behind the router, and that
  the log and the refusals are determined by the codes of the outcomes. \<open>Process_Properties\<close> has the
  owner of a database, the key file and the migrations. \<open>Process_Runs\<close> takes any invocations of \<open>main\<close>, one
  after the other: they provide the interface \<open>progress\<close> once more, with the databases and key files of a
  machine as the state, so that no file the program keeps loses anything. \<open>Store_Inviting\<close> and
  \<open>Process_Inviting\<close> follow an invitation code from the operator's terminal to the challenge an enrollment
  can answer.

  The theories named \<open>..._Example\<close> hold concrete databases and parties and apply the properties to them.

  \<^bold>\<open>What the crates are relied on for.\<close> Each is a named hypothesis of the theorems that need it: the JSON
  reader reads back what the printer wrote and nests no deeper than 127 (\<open>json_laws\<close>); hex and base64
  have one spelling for each value (\<open>hex_laws\<close>, \<open>base64_laws\<close>); the timestamp parser and printer are inverse on the years of the format
  (\<open>time_laws\<close>); what is sealed for a key opens with it (\<open>hpke_laws\<close>) and whether sealing succeeds depends
  on the recipient alone (\<open>seal_key_laws\<close>); any 32 bytes are a private key
  (\<open>private_key_laws\<close>); a signature has 64 bytes and verifies under the key that made it
  (\<open>ed25519_laws\<close>). Nothing is assumed of secrecy, of unforgeability or of hash collisions, and nothing
  is proved of them.

  \<^bold>\<open>Bounds.\<close> No definition uses fuel: every loop is a recursion on its data or has a measure. Theorems
  about runs in time take readings with \<open>clock_time\<close>, below \<open>2 ^ 62\<close> in either direction, where no sum of
  a handler wraps around; \<open>skew_ok\<close> and \<open>serving\<close> are satisfied by the limits \<open>main.rs\<close> sets. Every time
  read from the wire lies in the years 0 to 9999 (\<open>wire_time\<close>), and \<open>writable\<close> asks that the times of an
  answer can be written.

  \<^bold>\<open>Not modelled.\<close> The SQLite engine (its file format, its log and checkpoints, busy timeouts and input or
  output errors, which the code reports as \<open>TemporarilyUnavailable\<close>) is taken as tables that keep what is
  committed. The listener, the runtime and the signal handlers are an input of \<open>serve_command\<close>: whether
  they come up, which requests arrive, and how serving ends. Two requests never overlap, since the store
  is behind one lock; an \<open>invite\<close> beside a running service is one more transaction between two requests,
  which the events of \<open>serve\<close> allow and which, by \<open>database_one_owner\<close>, is as if the service had been
  stopped for it and started again. Full disks and other input or output errors of key files, and a
  failure of the random number generator inside the sealing crate, which aborts the process, have no
  branch. The platform's parser of socket addresses and its error texts are parameters. Key files and
  databases are kept apart, as if no path were both. The tests, the client scripts under \<open>src/tools\<close> and
  the files under \<open>src/deploy\<close> are not part of the program. The remaining lines of the sources are
  imports, attributes, derived traits and tests.

  \<^bold>\<open>Found.\<close> \<open>README.md\<close> says the answer of \<open>POST /v1/trustee\<close> is a signed receipt or an error; the answer
  to \<open>issue-challenge\<close> is neither (\<open>challenge_answer_unsigned\<close>).
\<close>

end
